theory Spec2Isabelle
  imports Main "HOL-Library.Word" "HOL-Library.Signed_Division"
begin

section \<open>Sparse-dense matrix product on CSR input: the kernels of src/cpu/spmm.cpp\<close>

text \<open>
  The file embeds the two operators of \<^verbatim>\<open>src/cpu/spmm.cpp\<close>, \<^verbatim>\<open>spmm\<close> and
  \<^verbatim>\<open>spmm_val_bw\<close>, together with the \<^verbatim>\<open>Reducer\<close> template they share.

  \<^item> A tensor is a record of its device flag, its shape and its elements in row-major
    order. Both kernels call \<^verbatim>\<open>contiguous()\<close> before they read a dense operand, so
    the row-major list is what the data pointer sees.
  \<^item> Index tensors hold \<^verbatim>\<open>int64_t\<close>; index arithmetic is done on \<open>int\<close>. Every C++
    variable declared \<^verbatim>\<open>int\<close> passes through \<open>to_int32\<close>, the 32-bit wrap-around.
  \<^item> The template parameter \<^verbatim>\<open>scalar_t\<close> ranges over the integral types that
    \<^verbatim>\<open>AT_DISPATCH_ALL_TYPES\<close> selects: \<^verbatim>\<open>uint8_t\<close>, \<^verbatim>\<open>int8_t\<close>,
    \<^verbatim>\<open>int16_t\<close>, \<^verbatim>\<open>int32_t\<close>, \<^verbatim>\<open>int64_t\<close>. An element is a word of the
    type's width, and the signedness is an explicit parameter, as the template
    parameter is. Sums and products wrap around: this is what C++ defines for the three
    narrow types, which are promoted to \<^verbatim>\<open>int\<close> and converted back, and what the
    compiled code computes for \<^verbatim>\<open>int32_t\<close> and \<^verbatim>\<open>int64_t\<close>. The floating-point
    instances are not covered.
  \<^item> \<^verbatim>\<open>DATA_PTR\<close> of \<^verbatim>\<open>compat.h\<close> is the pointer to the first element of a tensor.
  \<^item> An exception is a value \<open>Inl e\<close>. A read or write outside a buffer, a division by
    zero and the overflow of an \<^verbatim>\<open>int\<close> loop counter have no defined result in
    C++; the model returns \<open>Inl Undefined\<close> there.
\<close>

subsection \<open>Errors, tensors, memory\<close>

datatype error =
    NotCPU              \<comment> \<open>\<^verbatim>\<open>CHECK_CPU\<close> failed\<close>
  | InputMismatch       \<comment> \<open>\<^verbatim>\<open>AT_ASSERTM\<close> on a rank failed\<close>
  | OutOfRange          \<comment> \<open>\<^verbatim>\<open>std::map::at\<close> on a key that is not in the map\<close>
  | IndexError          \<comment> \<open>\<^verbatim>\<open>Tensor::size(d)\<close> with \<open>d\<close> outside the rank\<close>
  | NegativeDimension   \<comment> \<open>a tensor factory called with a negative size\<close>
  | Undefined           \<comment> \<open>undefined behaviour\<close>

record 'a tensor =
  is_cuda :: bool
  sizes :: "nat list"
  data :: "'a list"

definition bind_err :: "error + 'a \<Rightarrow> ('a \<Rightarrow> error + 'b) \<Rightarrow> error + 'b" where
  "bind_err m f = (case m of Inl e \<Rightarrow> Inl e | Inr x \<Rightarrow> f x)"

definition dim :: "'a tensor \<Rightarrow> int" where
  "dim t = int (length (sizes t))"

definition numel :: "'a tensor \<Rightarrow> int" where
  "numel t = int (prod_list (sizes t))"

text \<open>\<^verbatim>\<open>Tensor::size(d)\<close>: a negative \<open>d\<close> counts from the last dimension.\<close>

definition size_at :: "'a tensor \<Rightarrow> int \<Rightarrow> error + int" where
  "size_at t d =
     (if - dim t \<le> d \<and> d < dim t
      then Inr (int (sizes t ! nat (if d < 0 then d + dim t else d)))
      else Inl IndexError)"

text \<open>Dereferencing \<^verbatim>\<open>p[i]\<close> and assigning through \<^verbatim>\<open>p + i\<close>.\<close>

definition read_at :: "'a list \<Rightarrow> int \<Rightarrow> error + 'a" where
  "read_at xs i = (if 0 \<le> i \<and> i < int (length xs) then Inr (xs ! nat i) else Inl Undefined)"

definition store_at :: "'a list \<Rightarrow> int \<Rightarrow> 'a \<Rightarrow> error + 'a list" where
  "store_at xs i v = (if 0 \<le> i \<and> i < int (length xs) then Inr (xs[nat i := v]) else Inl Undefined)"

text \<open>Conversion of an integer to the 32-bit \<^verbatim>\<open>int\<close>.\<close>

definition to_int32 :: "int \<Rightarrow> int" where
  "to_int32 x = (x + 2147483648) mod 4294967296 - 2147483648"

text \<open>
  \<^verbatim>\<open>for (int i = start; i < n; i++) body\<close>, with \<open>n\<close> an \<^verbatim>\<open>int64_t\<close>. Incrementing
  the counter at \<^verbatim>\<open>INT_MAX\<close> is undefined.
\<close>

function for_loop :: "int \<Rightarrow> int \<Rightarrow> (int \<Rightarrow> 's \<Rightarrow> error + 's) \<Rightarrow> 's \<Rightarrow> error + 's" where
  "for_loop i n body s =
     (if i < n
      then (case body i s of
              Inl err \<Rightarrow> Inl err
            | Inr s' \<Rightarrow> if i = 2147483647 then Inl Undefined else for_loop (i + 1) n body s')
      else Inr s)"
  by pat_completeness auto
termination
  by (relation "measure (\<lambda>(i, n, body, s). nat (n - i))") auto

declare for_loop.simps [simp del]

subsection \<open>The element type\<close>

datatype signedness = Signed | Unsigned

text \<open>The value of an element, as integral promotion reads it.\<close>

definition sval :: "signedness \<Rightarrow> 'w::len word \<Rightarrow> int" where
  "sval sg x = (case sg of Signed \<Rightarrow> sint x | Unsigned \<Rightarrow> uint x)"

text \<open>\<^verbatim>\<open>std::numeric_limits<scalar_t>::max()\<close> and \<^verbatim>\<open>lowest()\<close>.\<close>

definition numeric_max :: "signedness \<Rightarrow> 'w::len word" where
  "numeric_max sg = (case sg of Signed \<Rightarrow> word_of_int (2 ^ (LENGTH('w) - 1) - 1) | Unsigned \<Rightarrow> - 1)"

definition numeric_lowest :: "signedness \<Rightarrow> 'w::len word" where
  "numeric_lowest sg = (case sg of Signed \<Rightarrow> word_of_int (- (2 ^ (LENGTH('w) - 1))) | Unsigned \<Rightarrow> 0)"

definition scalar_less :: "signedness \<Rightarrow> 'w::len word \<Rightarrow> 'w word \<Rightarrow> bool" where
  "scalar_less sg a b \<longleftrightarrow> sval sg a < sval sg b"

text \<open>
  \<^verbatim>\<open>a / d\<close> with \<open>a\<close> of type \<^verbatim>\<open>scalar_t\<close> and \<open>d\<close> an integer of a signed type at
  least as wide as \<^verbatim>\<open>int\<close>: \<open>a\<close> is converted to the type of \<open>d\<close>, the quotient
  truncates, and the result is converted back on assignment.
\<close>

definition scalar_div :: "signedness \<Rightarrow> 'w::len word \<Rightarrow> int \<Rightarrow> 'w word" where
  "scalar_div sg a d = word_of_int (sval sg a sdiv d)"

subsection \<open>The reduction\<close>

text \<open>
  The enumeration \<^verbatim>\<open>ReductionType\<close>; its values carry the suffix \<open>_R\<close> because
  \<open>SUM\<close>, \<open>MIN\<close> and \<open>MAX\<close> are binders of HOL.
\<close>

datatype ReductionType = SUM_R | MEAN_R | MIN_R | MAX_R

definition reduce2REDUCE :: "string \<rightharpoonup> ReductionType" where
  "reduce2REDUCE =
     map_of [(''sum'', SUM_R), (''add'', SUM_R), (''mean'', MEAN_R), (''min'', MIN_R), (''max'', MAX_R)]"

text \<open>\<^verbatim>\<open>reduce2REDUCE.at(reduce)\<close> throws \<^verbatim>\<open>std::out_of_range\<close> on an unknown key.\<close>

definition reduce_at :: "string \<Rightarrow> error + ReductionType" where
  "reduce_at reduce = (case reduce2REDUCE reduce of None \<Rightarrow> Inl OutOfRange | Some r \<Rightarrow> Inr r)"

definition init :: "signedness \<Rightarrow> ReductionType \<Rightarrow> 'w::len word" where
  "init sg REDUCE =
     (if REDUCE = MIN_R then numeric_max sg
      else if REDUCE = MAX_R then numeric_lowest sg
      else 0)"

text \<open>\<^verbatim>\<open>Reducer::update\<close> on the contents of \<^verbatim>\<open>*val\<close> and \<^verbatim>\<open>*arg\<close>.\<close>

definition update ::
  "signedness \<Rightarrow> ReductionType \<Rightarrow> 'w::len word \<times> int \<Rightarrow> 'w word \<Rightarrow> int \<Rightarrow> 'w word \<times> int" where
  "update sg REDUCE va new_val new_arg =
     (if REDUCE = SUM_R \<or> REDUCE = MEAN_R then (fst va + new_val, snd va)
      else if (REDUCE = MIN_R \<and> scalar_less sg new_val (fst va)) \<or>
              (REDUCE = MAX_R \<and> scalar_less sg (fst va) new_val)
      then (new_val, new_arg)
      else va)"

text \<open>
  \<^verbatim>\<open>Reducer::write\<close>. The two addresses are an index into the output buffer and the
  same index into the index buffer; the index buffer is absent (a null pointer) unless
  the reduction is \<open>MIN_R\<close> or \<open>MAX_R\<close>. The division of line 76 by a divisor 0
  would be undefined; the divisor is \<^verbatim>\<open>count > 0 ? count : (scalar_t)1\<close>.
\<close>

definition write_at ::
  "signedness \<Rightarrow> ReductionType \<Rightarrow> 'w::len word list \<times> int list option \<Rightarrow> int \<Rightarrow>
     'w word \<Rightarrow> int \<Rightarrow> int \<Rightarrow> error + ('w word list \<times> int list option)" where
  "write_at sg REDUCE bufs address val arg count =
     (if REDUCE = SUM_R then
        bind_err (store_at (fst bufs) address val) (\<lambda>out. Inr (out, snd bufs))
      else if REDUCE = MEAN_R then
        (let d = (if count > 0 then count else 1)
         in if d = 0 then Inl Undefined
            else bind_err (store_at (fst bufs) address (scalar_div sg val d))
                   (\<lambda>out. Inr (out, snd bufs)))
      else if count > 0 then
        bind_err (store_at (fst bufs) address val) (\<lambda>out.
          (case snd bufs of
             None \<Rightarrow> Inl Undefined
           | Some arg_out \<Rightarrow>
               bind_err (store_at arg_out address arg) (\<lambda>arg_out'. Inr (out, Some arg_out'))))
      else
        bind_err (store_at (fst bufs) address 0) (\<lambda>out. Inr (out, snd bufs)))"

subsection \<open>The forward kernel\<close>

text \<open>The loop over \<open>k\<close> inside the loop over the entries of a row (lines 154 to 162).\<close>

definition update_features ::
  "signedness \<Rightarrow> ReductionType \<Rightarrow> 'w::len word list \<Rightarrow> 'w word option \<Rightarrow> int \<Rightarrow> int \<Rightarrow> int \<Rightarrow>
     int \<Rightarrow> 'w word list \<times> int list \<Rightarrow> error + ('w word list \<times> int list)" where
  "update_features sg REDUCE mat_data val offset c K e =
     for_loop 0 K (\<lambda>k st.
       bind_err (read_at mat_data (offset + c * K + k)) (\<lambda>x.
         let va = update sg REDUCE (fst st ! nat k, snd st ! nat k)
                    (case val of Some w \<Rightarrow> w * x | None \<Rightarrow> x) e
         in Inr ((fst st)[nat k := fst va], (snd st)[nat k := snd va])))"

text \<open>The loop over the entries of one row (lines 150 to 163).\<close>

definition reduce_row ::
  "signedness \<Rightarrow> ReductionType \<Rightarrow> int list \<Rightarrow> 'w::len word list option \<Rightarrow> 'w word list \<Rightarrow>
     int \<Rightarrow> int \<Rightarrow> int \<Rightarrow> int \<Rightarrow> 'w word list \<times> int list \<Rightarrow> error + ('w word list \<times> int list)" where
  "reduce_row sg REDUCE col_data value_data mat_data offset K row_start row_end =
     for_loop (to_int32 row_start) row_end (\<lambda>e st.
       bind_err (read_at col_data e) (\<lambda>c.
         bind_err (case value_data of
                     Some vd \<Rightarrow> bind_err (read_at vd e) (\<lambda>w. Inr (Some w))
                   | None \<Rightarrow> Inr None) (\<lambda>val.
           update_features sg REDUCE mat_data val offset c K e st)))"

text \<open>
  The body of the loop over \<open>m\<close> (lines 144 to 168). The state is the pair of
  accumulators \<open>vals\<close> and \<open>args\<close>, declared before the loops, and the two output
  buffers.
\<close>

definition spmm_row ::
  "signedness \<Rightarrow> ReductionType \<Rightarrow> int list \<Rightarrow> int list \<Rightarrow> 'w::len word list option \<Rightarrow>
     'w word list \<Rightarrow> int \<Rightarrow> int \<Rightarrow> int \<Rightarrow> int \<Rightarrow> int \<Rightarrow>
     ('w word list \<times> int list) \<times> ('w word list \<times> int list option) \<Rightarrow>
     error + (('w word list \<times> int list) \<times> ('w word list \<times> int list option))" where
  "spmm_row sg REDUCE rowptr_data col_data value_data mat_data M N K b m st =
     bind_err (read_at rowptr_data m) (\<lambda>row_start.
     bind_err (read_at rowptr_data (m + 1)) (\<lambda>row_end.
     bind_err (for_loop 0 K (\<lambda>k vals. Inr (vals[nat k := init sg REDUCE])) (fst (fst st))) (\<lambda>vals.
     bind_err (reduce_row sg REDUCE col_data value_data mat_data (to_int32 (b * N * K)) K
                 row_start row_end (vals, snd (fst st))) (\<lambda>acc.
     bind_err (for_loop 0 K (\<lambda>k bufs.
                 write_at sg REDUCE bufs (to_int32 (b * M * K + m * K) + k)
                   (fst acc ! nat k) (snd acc ! nat k) (to_int32 (row_end - row_start)))
                 (snd st)) (\<lambda>bufs.
     Inr (acc, bufs))))))"

text \<open>
  \<^verbatim>\<open>torch::empty\<close> leaves the elements unset; \<open>junk\<close> stands for what the allocation
  holds at each position.
\<close>

definition spmm ::
  "signedness \<Rightarrow> (nat \<Rightarrow> 'w::len word) \<Rightarrow> int tensor \<Rightarrow> int tensor \<Rightarrow> 'w word tensor option \<Rightarrow>
     'w word tensor \<Rightarrow> string \<Rightarrow> error + ('w word tensor \<times> int tensor option)" where
  "spmm sg junk rowptr col value_opt mat reduce =
     (if is_cuda rowptr then Inl NotCPU
      else if is_cuda col then Inl NotCPU
      else if (case value_opt of Some v \<Rightarrow> is_cuda v | None \<Rightarrow> False) then Inl NotCPU
      else if is_cuda mat then Inl NotCPU
      else if dim rowptr \<noteq> 1 then Inl InputMismatch
      else if dim col \<noteq> 1 then Inl InputMismatch
      else if (case value_opt of Some v \<Rightarrow> dim v \<noteq> 1 | None \<Rightarrow> False) then Inl InputMismatch
      else if dim mat < 2 then Inl InputMismatch
      else if numel rowptr - 1 < 0 then Inl NegativeDimension
      else
        let out_sizes = (sizes mat)[length (sizes mat) - 2 := nat (numel rowptr - 1)];
            out = map junk [0..<prod_list out_sizes]
        in
        bind_err (reduce_at reduce) (\<lambda>REDUCE.
          let arg_out = (if REDUCE = MIN_R \<or> REDUCE = MAX_R
                         then Some (replicate (length out) (numel col)) else None);
              M = numel rowptr - 1
          in
          bind_err (size_at mat (- 2)) (\<lambda>N.
          bind_err (size_at mat (- 1)) (\<lambda>K.
            if N * K = 0 then Inl Undefined
            else
              let B = numel mat div (N * K);
                  vals = replicate (nat K) 0;
                  args = replicate (nat K) 0
              in
              bind_err
                (for_loop 0 B (\<lambda>b.
                   for_loop 0 M (\<lambda>m.
                     spmm_row sg REDUCE (data rowptr) (data col) (map_option data value_opt)
                       (data mat) M N K b m))
                   ((vals, args), (out, arg_out)))
                (\<lambda>st. Inr (\<lparr>is_cuda = False, sizes = out_sizes, data = fst (snd st)\<rparr>,
                           map_option (\<lambda>a. \<lparr>is_cuda = False, sizes = out_sizes, data = a\<rparr>)
                             (snd (snd st))))))))"

subsection \<open>The backward kernel for the values\<close>

text \<open>
  \<^verbatim>\<open>val /= (scalar_t)std::max(row_end - row_start, 1)\<close> (lines 217 and 218): the two
  bounds are stored in \<^verbatim>\<open>int\<close> variables, the maximum is cast to the element type,
  and both operands of the division have the element type.
\<close>

definition mean_divisor :: "signedness \<Rightarrow> int \<Rightarrow> int \<Rightarrow> 'w::len word" where
  "mean_divisor sg rs re = word_of_int (max (to_int32 (to_int32 re - to_int32 rs)) 1)"

definition normalize ::
  "signedness \<Rightarrow> int list \<Rightarrow> int \<Rightarrow> 'w::len word \<Rightarrow> error + 'w word" where
  "normalize sg rowptr_data row val =
     bind_err (read_at rowptr_data row) (\<lambda>rs.
     bind_err (read_at rowptr_data (row + 1)) (\<lambda>re.
       let d = (mean_divisor sg rs re :: 'w word)
       in if sval sg d = 0 then Inl Undefined
          else Inr (word_of_int (sval sg val sdiv sval sg d))))"

text \<open>The body of the loop over \<open>e\<close> (lines 211 to 220).\<close>

definition val_bw_entry ::
  "signedness \<Rightarrow> ReductionType \<Rightarrow> int list \<Rightarrow> int list \<Rightarrow> int list \<Rightarrow> 'w::len word list \<Rightarrow>
     'w word list \<Rightarrow> int \<Rightarrow> int \<Rightarrow> int \<Rightarrow> int \<Rightarrow> int \<Rightarrow> 'w word list \<Rightarrow> error + 'w word list" where
  "val_bw_entry sg REDUCE row_data rowptr_data col_data mat_data grad_data M N K b e out =
     bind_err (read_at row_data e) (\<lambda>row.
     bind_err (read_at col_data e) (\<lambda>col.
     bind_err (for_loop 0 K (\<lambda>k val.
                 bind_err (read_at mat_data (b * N * K + col * K + k)) (\<lambda>x.
                 bind_err (read_at grad_data (b * M * K + row * K + k)) (\<lambda>g.
                   Inr (val + x * g)))) 0) (\<lambda>val.
     bind_err (if REDUCE = MEAN_R then normalize sg rowptr_data row val else Inr val) (\<lambda>val'.
     bind_err (read_at out e) (\<lambda>old.
       store_at out e (old + val'))))))"

definition spmm_val_bw ::
  "signedness \<Rightarrow> int tensor \<Rightarrow> int tensor \<Rightarrow> int tensor \<Rightarrow> 'w::len word tensor \<Rightarrow>
     'w word tensor \<Rightarrow> string \<Rightarrow> error + 'w word tensor" where
  "spmm_val_bw sg row rowptr col mat grad reduce =
     (if is_cuda row then Inl NotCPU
      else if is_cuda rowptr then Inl NotCPU
      else if is_cuda col then Inl NotCPU
      else if is_cuda mat then Inl NotCPU
      else if is_cuda grad then Inl NotCPU
      else
        bind_err (size_at grad (- 2)) (\<lambda>M.
        bind_err (size_at mat (- 2)) (\<lambda>N.
        let E = numel row in
        bind_err (size_at mat (- 1)) (\<lambda>K.
          if N * K = 0 then Inl Undefined
          else
            let B = numel mat div (N * K);
                out = replicate (nat E) 0
            in
            bind_err (reduce_at reduce) (\<lambda>REDUCE.
            bind_err
              (for_loop 0 B (\<lambda>b.
                 for_loop 0 E (\<lambda>e.
                   val_bw_entry sg REDUCE (data row) (data rowptr) (data col) (data mat)
                     (data grad) M N K b e))
                 out)
              (\<lambda>out'. Inr \<lparr>is_cuda = False, sizes = [nat E], data = out'\<rparr>))))))"

subsection \<open>Shapes, contributions and well-formed inputs\<close>

text \<open>
  The dimensions as the kernels compute them: \<open>M\<close> from \<^verbatim>\<open>rowptr.numel() - 1\<close>,
  \<open>N\<close> and \<open>K\<close> from the last two sizes of the dense operand, and \<open>B\<close> from the
  number of its elements.
\<close>

definition dim_M :: "int tensor \<Rightarrow> int" where
  "dim_M rowptr = numel rowptr - 1"

definition dim_N :: "'a tensor \<Rightarrow> int" where
  "dim_N mat = int (sizes mat ! (length (sizes mat) - 2))"

definition dim_K :: "'a tensor \<Rightarrow> int" where
  "dim_K mat = int (sizes mat ! (length (sizes mat) - 1))"

definition dim_B :: "'a tensor \<Rightarrow> int" where
  "dim_B mat = numel mat div (dim_N mat * dim_K mat)"

text \<open>The element \<open>[b, c, k]\<close> of a dense operand of shape \<open>(B, N, K)\<close>.\<close>

definition dense_at :: "'a tensor \<Rightarrow> int \<Rightarrow> int \<Rightarrow> int \<Rightarrow> 'a" where
  "dense_at mat b c k = data mat ! nat (b * dim_N mat * dim_K mat + c * dim_K mat + k)"

text \<open>The weight of entry \<open>e\<close>: its value, or 1 when there is no value tensor.\<close>

definition weight :: "'w::len word tensor option \<Rightarrow> int \<Rightarrow> 'w word" where
  "weight value_opt e = (case value_opt of Some v \<Rightarrow> data v ! nat e | None \<Rightarrow> 1)"

text \<open>The weighted contribution of entry \<open>e\<close> to feature \<open>k\<close> in batch \<open>b\<close>.\<close>

definition contribution ::
  "int tensor \<Rightarrow> 'w::len word tensor option \<Rightarrow> 'w word tensor \<Rightarrow> int \<Rightarrow> int \<Rightarrow> int \<Rightarrow> 'w word" where
  "contribution col value_opt mat b k e = weight value_opt e * dense_at mat b (data col ! nat e) k"

text \<open>
  The accumulator pair after \<^verbatim>\<open>Reducer::update\<close> has been applied to the candidates
  \<open>f e\<close> for \<open>e\<close> from \<open>rs\<close> up to \<open>re - 1\<close>, in this order.
\<close>

definition row_acc ::
  "signedness \<Rightarrow> ReductionType \<Rightarrow> (int \<Rightarrow> 'w::len word) \<Rightarrow> 'w word \<times> int \<Rightarrow> int \<Rightarrow> int \<Rightarrow> 'w word \<times> int" where
  "row_acc sg REDUCE f va rs re = foldl (\<lambda>va e. update sg REDUCE va (f e) e) va [rs..re - 1]"

text \<open>
  \<open>x\<close> is strictly better than \<open>y\<close>: the condition under which \<^verbatim>\<open>Reducer::update\<close>
  replaces the accumulator \<open>y\<close> by the candidate \<open>x\<close> for \<open>MIN_R\<close> and \<open>MAX_R\<close>.
\<close>

definition better :: "signedness \<Rightarrow> ReductionType \<Rightarrow> 'w::len word \<Rightarrow> 'w word \<Rightarrow> bool" where
  "better sg REDUCE x y \<longleftrightarrow>
     (REDUCE = MIN_R \<and> scalar_less sg x y) \<or> (REDUCE = MAX_R \<and> scalar_less sg y x)"

text \<open>
  The accumulator pair of feature \<open>k\<close> after the entries of row \<open>m\<close> in batch \<open>b\<close>, on
  the tensors: started from \<^verbatim>\<open>Reducer::init\<close> and the index \<open>arg0\<close>, and fed with the
  contributions of the row in the order of the entries.
\<close>

definition row_reduce ::
  "signedness \<Rightarrow> ReductionType \<Rightarrow> int tensor \<Rightarrow> int tensor \<Rightarrow> 'w::len word tensor option \<Rightarrow>
     'w word tensor \<Rightarrow> int \<Rightarrow> int \<Rightarrow> int \<Rightarrow> int \<Rightarrow> 'w word \<times> int" where
  "row_reduce sg REDUCE rowptr col value_opt mat arg0 b m k =
     row_acc sg REDUCE (contribution col value_opt mat b k) (init sg REDUCE, arg0)
       (data rowptr ! nat m) (data rowptr ! nat (m + 1))"

text \<open>The number of entries of row \<open>m\<close>, and the position of \<open>[b, m, k]\<close> in the output.\<close>

definition degree :: "int tensor \<Rightarrow> int \<Rightarrow> int" where
  "degree rowptr m = data rowptr ! nat (m + 1) - data rowptr ! nat m"

definition out_index :: "int tensor \<Rightarrow> 'a tensor \<Rightarrow> int \<Rightarrow> int \<Rightarrow> int \<Rightarrow> nat" where
  "out_index rowptr mat b m k = nat ((b * dim_M rowptr + m) * dim_K mat + k)"

text \<open>What \<^verbatim>\<open>Reducer::write\<close> stores at the value address.\<close>

definition written_value :: "signedness \<Rightarrow> ReductionType \<Rightarrow> 'w::len word \<Rightarrow> int \<Rightarrow> 'w word" where
  "written_value sg REDUCE val count =
     (if REDUCE = SUM_R then val
      else if REDUCE = MEAN_R then scalar_div sg val (if count > 0 then count else 1)
      else if count > 0 then val else 0)"

text \<open>The storage of a tensor holds as many elements as its shape says.\<close>

definition storage_ok :: "'a tensor \<Rightarrow> bool" where
  "storage_ok t \<longleftrightarrow> length (data t) = prod_list (sizes t)"

text \<open>
  The inputs the forward kernel is specified for: CPU tensors of the right ranks, a
  row pointer that is non-decreasing with values between 0 and \<open>E\<close>, column indices
  below \<open>N\<close>, a value tensor (if any) with one element per entry, a dense operand that
  is not empty, and sizes that the kernel's \<^verbatim>\<open>int\<close> variables can hold.
\<close>

definition spmm_wf ::
  "int tensor \<Rightarrow> int tensor \<Rightarrow> 'w::len word tensor option \<Rightarrow> 'w word tensor \<Rightarrow> bool" where
  "spmm_wf rowptr col value_opt mat \<longleftrightarrow>
     \<not> is_cuda rowptr \<and> \<not> is_cuda col \<and> \<not> is_cuda mat \<and>
     length (sizes rowptr) = 1 \<and> length (sizes col) = 1 \<and> 2 \<le> length (sizes mat) \<and>
     storage_ok rowptr \<and> storage_ok col \<and> storage_ok mat \<and>
     (case value_opt of
        None \<Rightarrow> True
      | Some v \<Rightarrow> \<not> is_cuda v \<and> length (sizes v) = 1 \<and> storage_ok v \<and> numel v = numel col) \<and>
     0 < numel rowptr \<and> sorted (data rowptr) \<and>
     (\<forall>p \<in> set (data rowptr). 0 \<le> p \<and> p \<le> numel col) \<and>
     (\<forall>c \<in> set (data col). 0 \<le> c \<and> c < dim_N mat) \<and>
     0 < dim_N mat * dim_K mat \<and>
     numel mat < 2147483648 \<and> dim_K mat < 2147483648 \<and>
     dim_B mat * dim_M rowptr * dim_K mat < 2147483648 \<and>
     numel col < 2147483648 \<and> numel rowptr \<le> 2147483648"

subsection \<open>Auxiliary notions for the loop invariants\<close>

text \<open>The candidate handed to \<^verbatim>\<open>Reducer::update\<close>: weighted or plain.\<close>

definition cand :: "'w::len word list \<Rightarrow> 'w word option \<Rightarrow> int \<Rightarrow> 'w word" where
  "cand mat_data val i = (case val of Some w \<Rightarrow> w * mat_data ! nat i | None \<Rightarrow> mat_data ! nat i)"

text \<open>
  \<open>xs'\<close> is \<open>xs\<close> with the \<open>j\<close> slots from \<open>off\<close> on overwritten by \<open>g 0\<close>, \<open>g 1\<close>, ...
\<close>

definition block_upd :: "'a list \<Rightarrow> 'a list \<Rightarrow> int \<Rightarrow> int \<Rightarrow> (int \<Rightarrow> 'a) \<Rightarrow> bool" where
  "block_upd xs' xs off j g \<longleftrightarrow>
     length xs' = length xs \<and>
     (\<forall>k. 0 \<le> k \<longrightarrow> k < j \<longrightarrow> xs' ! nat (off + k) = g k) \<and>
     (\<forall>i. int i < off \<or> off + j \<le> int i \<longrightarrow> xs' ! i = xs ! i)"

text \<open>
  The accumulator pair of feature \<open>k\<close> after the entries of row \<open>m\<close> in batch \<open>b\<close>,
  started from \<^verbatim>\<open>Reducer::init\<close> and the index \<open>arg0\<close> that \<^verbatim>\<open>args[k]\<close> held.
\<close>

definition acc_result ::
  "signedness \<Rightarrow> ReductionType \<Rightarrow> int list \<Rightarrow> int list \<Rightarrow> 'w::len word list option \<Rightarrow>
     'w word list \<Rightarrow> int \<Rightarrow> int \<Rightarrow> int \<Rightarrow> int \<Rightarrow> int \<Rightarrow> int \<Rightarrow> 'w word \<times> int" where
  "acc_result sg REDUCE rowptr_data col_data value_data mat_data N K arg0 b m k =
     row_acc sg REDUCE
       (\<lambda>e. cand mat_data (map_option (\<lambda>vd. vd ! nat e) value_data)
              (b * N * K + col_data ! nat e * K + k))
       (init sg REDUCE, arg0) (rowptr_data ! nat m) (rowptr_data ! nat (m + 1))"

text \<open>The output value of feature \<open>k\<close> in the \<open>r\<close>-th row of the flattened \<open>(B, M)\<close> grid.\<close>

definition row_value ::
  "signedness \<Rightarrow> ReductionType \<Rightarrow> int list \<Rightarrow> int list \<Rightarrow> 'w::len word list option \<Rightarrow>
     'w word list \<Rightarrow> int \<Rightarrow> int \<Rightarrow> int \<Rightarrow> int \<Rightarrow> int \<Rightarrow> 'w word" where
  "row_value sg REDUCE rowptr_data col_data value_data mat_data M N K r k =
     written_value sg REDUCE
       (fst (acc_result sg REDUCE rowptr_data col_data value_data mat_data N K 0 (r div M) (r mod M) k))
       (rowptr_data ! nat (r mod M + 1) - rowptr_data ! nat (r mod M))"

text \<open>
  What the index buffer holds for that position: the index the accumulator ended with
  when the row has entries, and the initial content \<open>a0\<close> otherwise.
\<close>

definition row_arg_ok ::
  "signedness \<Rightarrow> ReductionType \<Rightarrow> int list \<Rightarrow> int list \<Rightarrow> 'w::len word list option \<Rightarrow>
     'w word list \<Rightarrow> int \<Rightarrow> int \<Rightarrow> int \<Rightarrow> int list \<Rightarrow> int \<Rightarrow> int \<Rightarrow> int \<Rightarrow> bool" where
  "row_arg_ok sg REDUCE rowptr_data col_data value_data mat_data M N K a0 r k x \<longleftrightarrow>
     (if (REDUCE = MIN_R \<or> REDUCE = MAX_R) \<and>
         rowptr_data ! nat (r mod M + 1) - rowptr_data ! nat (r mod M) > 0
      then \<exists>arg0. x = snd (acc_result sg REDUCE rowptr_data col_data value_data mat_data N K arg0
                             (r div M) (r mod M) k)
      else x = a0 ! nat (r * K + k))"

text \<open>The buffers the loops run on, seen from inside the kernel.\<close>

definition kernel_ok ::
  "int list \<Rightarrow> int list \<Rightarrow> 'a list option \<Rightarrow> 'a list \<Rightarrow> int \<Rightarrow> int \<Rightarrow> int \<Rightarrow> int \<Rightarrow> bool" where
  "kernel_ok rowptr_data col_data value_data mat_data B M N K \<longleftrightarrow>
     0 \<le> B \<and> 0 \<le> M \<and> 0 \<le> N \<and> 0 \<le> K \<and>
     B \<le> 2147483647 \<and> M \<le> 2147483647 \<and> K \<le> 2147483647 \<and>
     int (length rowptr_data) = M + 1 \<and>
     (\<forall>m. 0 \<le> m \<longrightarrow> m < M \<longrightarrow>
        0 \<le> rowptr_data ! nat m \<and> rowptr_data ! nat m \<le> rowptr_data ! nat (m + 1) \<and>
        rowptr_data ! nat (m + 1) \<le> int (length col_data)) \<and>
     int (length col_data) \<le> 2147483647 \<and>
     (\<forall>vd. value_data = Some vd \<longrightarrow> length vd = length col_data) \<and>
     (\<forall>e. 0 \<le> e \<longrightarrow> e < int (length col_data) \<longrightarrow> 0 \<le> col_data ! nat e \<and> col_data ! nat e < N) \<and>
     B * N * K \<le> int (length mat_data) \<and> B * N * K < 2147483648 \<and> B * M * K < 2147483648"

text \<open>The invariant of the two outer loops after \<open>r\<close> rows of the \<open>(B, M)\<close> grid.\<close>

definition spmm_inv ::
  "signedness \<Rightarrow> ReductionType \<Rightarrow> int list \<Rightarrow> int list \<Rightarrow> 'w::len word list option \<Rightarrow>
     'w word list \<Rightarrow> int \<Rightarrow> int \<Rightarrow> int \<Rightarrow> 'w word list \<Rightarrow> int list option \<Rightarrow> int \<Rightarrow>
     ('w word list \<times> int list) \<times> ('w word list \<times> int list option) \<Rightarrow> bool" where
  "spmm_inv sg REDUCE rowptr_data col_data value_data mat_data M N K out0 ao0 r st \<longleftrightarrow>
     length (fst (fst st)) = nat K \<and> length (snd (fst st)) = nat K \<and>
     length (fst (snd st)) = length out0 \<and>
     (\<forall>r' k. 0 \<le> r' \<longrightarrow> r' < r \<longrightarrow> 0 \<le> k \<longrightarrow> k < K \<longrightarrow>
        fst (snd st) ! nat (r' * K + k) =
          row_value sg REDUCE rowptr_data col_data value_data mat_data M N K r' k) \<and>
     (case ao0 of
        None \<Rightarrow> snd (snd st) = None
      | Some a0 \<Rightarrow> \<exists>a'. snd (snd st) = Some a' \<and> length a' = length a0 \<and>
          (\<forall>r' k. 0 \<le> r' \<longrightarrow> r' < r \<longrightarrow> 0 \<le> k \<longrightarrow> k < K \<longrightarrow>
             row_arg_ok sg REDUCE rowptr_data col_data value_data mat_data M N K a0 r' k
               (a' ! nat (r' * K + k))) \<and>
          (\<forall>i. r * K \<le> int i \<longrightarrow> a' ! i = a0 ! i))"

subsection \<open>The scenario of the specification\<close>

text \<open>
  A sparse matrix with rows \<open>{(0, 1), (1, 2)}\<close> and \<open>{(0, 3)}\<close>, and a dense operand of
  shape \<open>(1, 2, 1)\<close> with the values 5 and 7, of element type \<^verbatim>\<open>int64_t\<close>.
\<close>

definition ex_rowptr :: "int tensor" where
  "ex_rowptr = \<lparr>is_cuda = False, sizes = [3], data = [0, 2, 3]\<rparr>"

definition ex_col :: "int tensor" where
  "ex_col = \<lparr>is_cuda = False, sizes = [3], data = [0, 1, 0]\<rparr>"

definition ex_value :: "64 word tensor" where
  "ex_value = \<lparr>is_cuda = False, sizes = [3], data = [1, 2, 3]\<rparr>"

definition ex_mat :: "64 word tensor" where
  "ex_mat = \<lparr>is_cuda = False, sizes = [1, 2, 1], data = [5, 7]\<rparr>"

text \<open>The same three entries in three rows, the middle row without entries.\<close>

definition gap_rowptr :: "int tensor" where
  "gap_rowptr = \<lparr>is_cuda = False, sizes = [4], data = [0, 2, 2, 3]\<rparr>"

text \<open>The same matrix in coordinate form, and an upstream gradient of shape \<open>(1, 2, 1)\<close>.\<close>

definition ex_row :: "int tensor" where
  "ex_row = \<lparr>is_cuda = False, sizes = [3], data = [0, 0, 1]\<rparr>"

definition ex_grad :: "64 word tensor" where
  "ex_grad = \<lparr>is_cuda = False, sizes = [1, 2, 1], data = [- 7, 2]\<rparr>"

text \<open>
  One row with 128 entries, all in column 0, on the element type \<^verbatim>\<open>int8_t\<close>; the
  dense operand is \<open>[[1]]\<close> and the gradient \<open>[[-128]]\<close>.
\<close>

definition wide_row :: "int tensor" where
  "wide_row = \<lparr>is_cuda = False, sizes = [128], data = replicate 128 0\<rparr>"

definition wide_rowptr :: "int tensor" where
  "wide_rowptr = \<lparr>is_cuda = False, sizes = [2], data = [0, 128]\<rparr>"

definition wide_col :: "int tensor" where
  "wide_col = \<lparr>is_cuda = False, sizes = [128], data = replicate 128 0\<rparr>"

definition wide_mat :: "8 word tensor" where
  "wide_mat = \<lparr>is_cuda = False, sizes = [1, 1, 1], data = [1]\<rparr>"

definition wide_grad :: "8 word tensor" where
  "wide_grad = \<lparr>is_cuda = False, sizes = [1, 1, 1], data = [- 128]\<rparr>"

text \<open>
  One row with 200 entries, all in column 0, on the element type \<^verbatim>\<open>int8_t\<close>; the
  dense operand is \<open>[[1]]\<close> and the gradient \<open>[[100]]\<close>.
\<close>

definition long_row :: "int tensor" where
  "long_row = \<lparr>is_cuda = False, sizes = [200], data = replicate 200 0\<rparr>"

definition long_rowptr :: "int tensor" where
  "long_rowptr = \<lparr>is_cuda = False, sizes = [2], data = [0, 200]\<rparr>"

definition long_col :: "int tensor" where
  "long_col = \<lparr>is_cuda = False, sizes = [200], data = replicate 200 0\<rparr>"

definition long_mat :: "8 word tensor" where
  "long_mat = \<lparr>is_cuda = False, sizes = [1, 1, 1], data = [1]\<rparr>"

definition long_grad :: "8 word tensor" where
  "long_grad = \<lparr>is_cuda = False, sizes = [1, 1, 1], data = [100]\<rparr>"

text \<open>
  Two rows on the element type \<^verbatim>\<open>uint8_t\<close>, without values: row 0 holds entry 0 in
  column 0, row 1 holds entry 1 in column 1, and the dense operand of shape \<open>(1, 2, 1)\<close>
  is \<open>[[5], [0]]\<close>. In the second matrix row 1 holds two entries, both in column 1.
\<close>

definition zero_rowptr :: "int tensor" where
  "zero_rowptr = \<lparr>is_cuda = False, sizes = [3], data = [0, 1, 2]\<rparr>"

definition zero_col :: "int tensor" where
  "zero_col = \<lparr>is_cuda = False, sizes = [2], data = [0, 1]\<rparr>"

definition zero_mat :: "8 word tensor" where
  "zero_mat = \<lparr>is_cuda = False, sizes = [1, 2, 1], data = [5, 0]\<rparr>"

definition tie_rowptr :: "int tensor" where
  "tie_rowptr = \<lparr>is_cuda = False, sizes = [3], data = [0, 1, 3]\<rparr>"

definition tie_col :: "int tensor" where
  "tie_col = \<lparr>is_cuda = False, sizes = [3], data = [0, 1, 1]\<rparr>"

subsection \<open>The reference values of the backward kernel\<close>

text \<open>
  The dot product over the features of \<open>dense[b, col, :]\<close> and \<open>grad[b, row, :]\<close>, read
  from the two buffers.
\<close>

definition bw_dot :: "'w::len word list \<Rightarrow> 'w word list \<Rightarrow> int \<Rightarrow> int \<Rightarrow> int \<Rightarrow> int \<Rightarrow> int \<Rightarrow> int \<Rightarrow> 'w word" where
  "bw_dot mat_data grad_data M N K b row col =
     (\<Sum>k = 0..<K. mat_data ! nat (b * N * K + col * K + k) * grad_data ! nat (b * M * K + row * K + k))"

text \<open>The normalization of lines 216 to 219, when the division is defined.\<close>

definition bw_norm :: "signedness \<Rightarrow> ReductionType \<Rightarrow> int list \<Rightarrow> int \<Rightarrow> 'w::len word \<Rightarrow> 'w word" where
  "bw_norm sg REDUCE rowptr_data row val =
     (if REDUCE = MEAN_R
      then word_of_int (sval sg val sdiv
             sval sg (mean_divisor sg (rowptr_data ! nat row) (rowptr_data ! nat (row + 1)) :: 'w word))
      else val)"

text \<open>What batch \<open>b\<close> adds to the gradient of entry \<open>e\<close>.\<close>

definition bw_term ::
  "signedness \<Rightarrow> ReductionType \<Rightarrow> int list \<Rightarrow> int list \<Rightarrow> int list \<Rightarrow> 'w::len word list \<Rightarrow>
     'w word list \<Rightarrow> int \<Rightarrow> int \<Rightarrow> int \<Rightarrow> int \<Rightarrow> int \<Rightarrow> 'w word" where
  "bw_term sg REDUCE row_data rowptr_data col_data mat_data grad_data M N K b e =
     bw_norm sg REDUCE rowptr_data (row_data ! nat e)
       (bw_dot mat_data grad_data M N K b (row_data ! nat e) (col_data ! nat e))"

text \<open>The buffers the loops of the backward kernel run on.\<close>

definition bw_ok ::
  "signedness \<Rightarrow> ReductionType \<Rightarrow> int list \<Rightarrow> int list \<Rightarrow> int list \<Rightarrow> 'w::len word list \<Rightarrow>
     'w word list \<Rightarrow> int \<Rightarrow> int \<Rightarrow> int \<Rightarrow> int \<Rightarrow> int \<Rightarrow> bool" where
  "bw_ok sg REDUCE row_data rowptr_data col_data mat_data grad_data B E M N K \<longleftrightarrow>
     0 \<le> B \<and> 0 \<le> M \<and> 0 \<le> N \<and> 0 \<le> K \<and>
     B \<le> 2147483647 \<and> E \<le> 2147483647 \<and> K \<le> 2147483647 \<and>
     int (length row_data) = E \<and> E \<le> int (length col_data) \<and>
     (\<forall>e. 0 \<le> e \<longrightarrow> e < E \<longrightarrow>
        0 \<le> row_data ! nat e \<and> row_data ! nat e < M \<and>
        0 \<le> col_data ! nat e \<and> col_data ! nat e < N) \<and>
     B * N * K \<le> int (length mat_data) \<and> B * M * K \<le> int (length grad_data) \<and>
     (REDUCE = MEAN_R \<longrightarrow>
        int (length rowptr_data) = M + 1 \<and>
        (\<forall>e. 0 \<le> e \<longrightarrow> e < E \<longrightarrow>
           sval sg (mean_divisor sg (rowptr_data ! nat (row_data ! nat e))
                      (rowptr_data ! nat (row_data ! nat e + 1)) :: 'w word) \<noteq> 0))"

text \<open>
  The inputs the backward kernel is specified for: CPU tensors, \<open>row\<close> and \<open>col\<close> with one
  element per entry, row indices below \<open>M\<close> and column indices below \<open>N\<close>, a row pointer
  with \<open>M + 1\<close> values between 0 and \<open>E\<close>, a dense operand of \<open>B * N * K\<close> elements that is
  not empty and a gradient of \<open>B * M * K\<close> elements, with sizes that the kernel's
  \<^verbatim>\<open>int\<close> variables can hold.
\<close>

definition val_bw_wf ::
  "int tensor \<Rightarrow> int tensor \<Rightarrow> int tensor \<Rightarrow> 'w::len word tensor \<Rightarrow> 'w word tensor \<Rightarrow> bool" where
  "val_bw_wf row rowptr col mat grad \<longleftrightarrow>
     \<not> is_cuda row \<and> \<not> is_cuda rowptr \<and> \<not> is_cuda col \<and> \<not> is_cuda mat \<and> \<not> is_cuda grad \<and>
     2 \<le> length (sizes mat) \<and> 2 \<le> length (sizes grad) \<and>
     storage_ok row \<and> storage_ok rowptr \<and> storage_ok col \<and> storage_ok mat \<and> storage_ok grad \<and>
     numel col = numel row \<and> numel rowptr = dim_N grad + 1 \<and>
     dim_K grad = dim_K mat \<and> numel grad = dim_B mat * dim_N grad * dim_K mat \<and>
     (\<forall>r \<in> set (data row). 0 \<le> r \<and> r < dim_N grad) \<and>
     (\<forall>c \<in> set (data col). 0 \<le> c \<and> c < dim_N mat) \<and>
     (\<forall>p \<in> set (data rowptr). 0 \<le> p \<and> p \<le> numel row) \<and>
     0 < dim_N mat * dim_K mat \<and>
     numel mat < 2147483648 \<and> dim_K mat < 2147483648 \<and> numel row < 2147483648"

text \<open>The dot product of \<open>dense[b, col[e], :]\<close> and \<open>grad[b, row[e], :]\<close>.\<close>

definition entry_dot ::
  "int tensor \<Rightarrow> int tensor \<Rightarrow> 'w::len word tensor \<Rightarrow> 'w word tensor \<Rightarrow> int \<Rightarrow> int \<Rightarrow> 'w word" where
  "entry_dot row col mat grad b e =
     (\<Sum>k = 0..<dim_K mat.
        dense_at mat b (data col ! nat e) k * dense_at grad b (data row ! nat e) k)"

subsection \<open>Rounding of the mean\<close>

text \<open>
  \<open>q\<close> is the quotient of \<open>a\<close> by \<open>d\<close> rounded toward zero: the remainder \<open>a - q * d\<close> is
  smaller than the divisor in magnitude and does not have the sign opposite to the
  dividend's.
\<close>

definition truncated_quotient :: "int \<Rightarrow> int \<Rightarrow> int \<Rightarrow> bool" where
  "truncated_quotient a d q \<longleftrightarrow> \<bar>a - q * d\<bar> < \<bar>d\<bar> \<and> 0 \<le> (a - q * d) * a"

subsection \<open>The checks ahead of the reduction\<close>

text \<open>The conditions under which \<^verbatim>\<open>spmm\<close> reaches line 113, where the token is looked up.\<close>

definition spmm_passes_checks ::
  "int tensor \<Rightarrow> int tensor \<Rightarrow> 'a tensor option \<Rightarrow> 'a tensor \<Rightarrow> bool" where
  "spmm_passes_checks rowptr col value_opt mat \<longleftrightarrow>
     \<not> is_cuda rowptr \<and> \<not> is_cuda col \<and>
     (case value_opt of None \<Rightarrow> True | Some v \<Rightarrow> \<not> is_cuda v \<and> dim v = 1) \<and>
     \<not> is_cuda mat \<and> dim rowptr = 1 \<and> dim col = 1 \<and> 2 \<le> dim mat \<and> 1 \<le> numel rowptr"

text \<open>The conditions under which \<^verbatim>\<open>spmm_val_bw\<close> reaches line 208.\<close>

definition val_bw_passes_checks ::
  "int tensor \<Rightarrow> int tensor \<Rightarrow> int tensor \<Rightarrow> 'a tensor \<Rightarrow> 'a tensor \<Rightarrow> bool" where
  "val_bw_passes_checks row rowptr col mat grad \<longleftrightarrow>
     \<not> is_cuda row \<and> \<not> is_cuda rowptr \<and> \<not> is_cuda col \<and> \<not> is_cuda mat \<and> \<not> is_cuda grad \<and>
     2 \<le> dim grad \<and> 2 \<le> dim mat \<and> dim_N mat * dim_K mat \<noteq> 0"

text \<open>
  The shapes that the specification requires of the inputs of the backward kernel:
  \<open>row\<close> and \<open>col\<close> of rank 1 with \<open>E\<close> elements each, \<open>rowptr\<close> of rank 1 with \<open>M + 1\<close>
  elements, a dense operand of shape \<open>(B, N, K)\<close> and a gradient of shape \<open>(B, M, K)\<close>.
\<close>

definition spec_val_bw_shapes_ok ::
  "int tensor \<Rightarrow> int tensor \<Rightarrow> int tensor \<Rightarrow> 'a tensor \<Rightarrow> 'a tensor \<Rightarrow> bool" where
  "spec_val_bw_shapes_ok row rowptr col mat grad \<longleftrightarrow>
     dim row = 1 \<and> dim col = 1 \<and> dim rowptr = 1 \<and>
     numel col = numel row \<and>
     2 \<le> dim mat \<and> dim grad = dim mat \<and>
     numel rowptr = dim_N grad + 1 \<and>
     dim_K grad = dim_K mat \<and>
     butlast (butlast (sizes grad)) = butlast (butlast (sizes mat))"

text \<open>
  Inputs of the backward kernel whose shapes disagree, all of the expected ranks: one
  row index but two column indices, and a row pointer of four elements where \<open>M + 1\<close> is
  2. The last tensor is a dense operand of rank 1.
\<close>

definition bad_row :: "int tensor" where
  "bad_row = \<lparr>is_cuda = False, sizes = [1], data = [0]\<rparr>"

definition bad_rowptr :: "int tensor" where
  "bad_rowptr = \<lparr>is_cuda = False, sizes = [4], data = [0, 1, 1, 1]\<rparr>"

definition bad_col :: "int tensor" where
  "bad_col = \<lparr>is_cuda = False, sizes = [2], data = [0, 0]\<rparr>"

definition bad_mat :: "64 word tensor" where
  "bad_mat = \<lparr>is_cuda = False, sizes = [1, 1, 1], data = [3]\<rparr>"

definition bad_grad :: "64 word tensor" where
  "bad_grad = \<lparr>is_cuda = False, sizes = [1, 1, 1], data = [2]\<rparr>"

definition flat_mat :: "64 word tensor" where
  "flat_mat = \<lparr>is_cuda = False, sizes = [1], data = [3]\<rparr>"

text \<open>A row tensor that is not on the CPU, and a dense operand of shape \<open>(1, 0, 1)\<close>.\<close>

definition cuda_row :: "int tensor" where
  "cuda_row = \<lparr>is_cuda = True, sizes = [1], data = [0]\<rparr>"

definition empty_mat :: "64 word tensor" where
  "empty_mat = \<lparr>is_cuda = False, sizes = [1, 0, 1], data = []\<rparr>"

section \<open>Lemmas about the loops\<close>

subsection \<open>Memory, casts and the loop rule\<close>

lemma bind_err_Inr [simp]: "bind_err (Inr x) f = f x"
  by (simp add: bind_err_def)

lemma bind_err_Inl [simp]: "bind_err (Inl e) f = Inl e"
  by (simp add: bind_err_def)

lemma read_at_in_range:
  "0 \<le> i \<Longrightarrow> i < int (length xs) \<Longrightarrow> read_at xs i = Inr (xs ! nat i)"
  by (simp add: read_at_def)

lemma store_at_in_range:
  "0 \<le> i \<Longrightarrow> i < int (length xs) \<Longrightarrow> store_at xs i v = Inr (xs[nat i := v])"
  by (simp add: store_at_def)

lemma to_int32_id:
  "- 2147483648 \<le> x \<Longrightarrow> x < 2147483648 \<Longrightarrow> to_int32 x = x"
  by (simp add: to_int32_def)

lemma for_loop_done: "n \<le> i \<Longrightarrow> for_loop i n body s = Inr s"
  by (subst for_loop.simps) simp

lemma for_loop_rule:
  assumes "i \<le> n" and "n \<le> 2147483647" and "I i s"
    and "\<And>j t. i \<le> j \<Longrightarrow> j < n \<Longrightarrow> I j t \<Longrightarrow> \<exists>t'. body j t = Inr t' \<and> I (j + 1) t'"
  shows "\<exists>t. for_loop i n body s = Inr t \<and> I n t"
  using assms
proof (induction i n body s rule: for_loop.induct)
  case (1 i n body s)
  show ?case
  proof (cases "i < n")
    case True
    from 1(5) [of i s] True 1(4) obtain t' where t': "body i s = Inr t'" "I (i + 1) t'"
      by auto
    from True 1(3) have ne: "i \<noteq> 2147483647" by simp
    have "\<exists>t. for_loop (i + 1) n body t' = Inr t \<and> I n t"
    proof (rule 1(1) [OF True t'(1) ne _ 1(3) t'(2)])
      show "i + 1 \<le> n" using True by simp
    next
      fix j t assume "i + 1 \<le> j" "j < n" "I j t"
      then show "\<exists>t'. body j t = Inr t' \<and> I (j + 1) t'"
        using 1(5) [of j t] by simp
    qed
    then show ?thesis
      by (subst for_loop.simps) (simp add: True t'(1) ne)
  next
    case False
    with 1(2) have "i = n" by simp
    with 1(4) show ?thesis by (simp add: for_loop_done)
  qed
qed

lemma flat_index_bound:
  fixes c k N K :: int
  assumes "0 \<le> c" "c < N" "0 \<le> k" "k < K"
  shows "0 \<le> c * K + k" and "c * K + k < N * K"
proof -
  show "0 \<le> c * K + k" using assms by simp
  have "(c + 1) * K \<le> N * K"
    using assms by (intro mult_right_mono) auto
  then show "c * K + k < N * K"
    using assms by (simp add: algebra_simps)
qed


lemma update_features_ok:
  assumes K: "0 \<le> K" "K \<le> 2147483647"
    and len: "length vals = nat K" "length args = nat K"
    and rd: "\<And>k. 0 \<le> k \<Longrightarrow> k < K \<Longrightarrow>
               0 \<le> offset + c * K + k \<and> offset + c * K + k < int (length mat_data)"
  shows "\<exists>vals' args'.
           update_features sg R mat_data val offset c K e (vals, args) = Inr (vals', args') \<and>
           length vals' = nat K \<and> length args' = nat K \<and>
           (\<forall>k. 0 \<le> k \<longrightarrow> k < K \<longrightarrow>
              (vals' ! nat k, args' ! nat k) =
                update sg R (vals ! nat k, args ! nat k) (cand mat_data val (offset + c * K + k)) e)"
proof -
  let ?I = "\<lambda>j st. length (fst st) = nat K \<and> length (snd st) = nat K \<and>
      (\<forall>k. 0 \<le> k \<longrightarrow> k < j \<longrightarrow>
         (fst st ! nat k, snd st ! nat k) =
           update sg R (vals ! nat k, args ! nat k) (cand mat_data val (offset + c * K + k)) e) \<and>
      (\<forall>k. j \<le> k \<longrightarrow> k < K \<longrightarrow> fst st ! nat k = vals ! nat k \<and> snd st ! nat k = args ! nat k)"
  let ?body = "\<lambda>k st.
       bind_err (read_at mat_data (offset + c * K + k)) (\<lambda>x.
         let va = update sg R (fst st ! nat k, snd st ! nat k)
                    (case val of Some w \<Rightarrow> w * x | None \<Rightarrow> x) e
         in Inr ((fst st)[nat k := fst va], (snd st)[nat k := snd va]))"
  have "\<exists>t. for_loop 0 K ?body (vals, args) = Inr t \<and> ?I K t"
  proof (rule for_loop_rule [where I = ?I])
    show "0 \<le> K" "K \<le> 2147483647" by fact+
    show "?I 0 (vals, args)" using len by simp
  next
    fix j t assume j: "0 \<le> j" "j < K" and I: "?I j t"
    let ?va = "update sg R (fst t ! nat j, snd t ! nat j) (cand mat_data val (offset + c * K + j)) e"
    let ?t' = "((fst t)[nat j := fst ?va], (snd t)[nat j := snd ?va])"
    have b: "?body j t = Inr ?t'"
      using rd [OF j] by (simp add: read_at_in_range cand_def Let_def)
    have jl: "nat j < length (fst t)" "nat j < length (snd t)" using j I by auto
    have old: "fst t ! nat j = vals ! nat j" "snd t ! nat j = args ! nat j" using j I by auto
    have "?I (j + 1) ?t'"
      using I j jl old by (auto simp: nth_list_update eq_nat_nat_iff)
    with b show "\<exists>t'. ?body j t = Inr t' \<and> ?I (j + 1) t'"
      by blast
  qed
  then show ?thesis
    unfolding update_features_def by auto
qed

lemma row_acc_empty: "re \<le> rs \<Longrightarrow> row_acc sg R f va rs re = va"
  by (simp add: row_acc_def)

lemma row_acc_step:
  "rs \<le> e \<Longrightarrow> row_acc sg R f va rs (e + 1) = update sg R (row_acc sg R f va rs e) (f e) e"
  by (simp add: row_acc_def upto_rec2)

lemma reduce_row_ok:
  assumes K: "0 \<le> K" "K \<le> 2147483647"
    and len: "length vals = nat K" "length args = nat K"
    and rng: "0 \<le> rs" "rs \<le> re" "re \<le> int (length col_data)" "re \<le> 2147483647"
    and vd: "\<And>vd. value_data = Some vd \<Longrightarrow> re \<le> int (length vd)"
    and cl: "\<And>e. rs \<le> e \<Longrightarrow> e < re \<Longrightarrow> 0 \<le> col_data ! nat e \<and> col_data ! nat e < N"
    and off: "0 \<le> offset" "offset + N * K \<le> int (length mat_data)"
  shows "\<exists>vals' args'.
           reduce_row sg R col_data value_data mat_data offset K rs re (vals, args) = Inr (vals', args') \<and>
           length vals' = nat K \<and> length args' = nat K \<and>
           (\<forall>k. 0 \<le> k \<longrightarrow> k < K \<longrightarrow>
              (vals' ! nat k, args' ! nat k) =
                row_acc sg R
                  (\<lambda>e. cand mat_data (map_option (\<lambda>vd. vd ! nat e) value_data)
                         (offset + col_data ! nat e * K + k))
                  (vals ! nat k, args ! nat k) rs re)"
proof -
  let ?f = "\<lambda>k e. cand mat_data (map_option (\<lambda>vd. vd ! nat e) value_data)
                         (offset + col_data ! nat e * K + k)"
  let ?I = "\<lambda>e st. length (fst st) = nat K \<and> length (snd st) = nat K \<and>
      (\<forall>k. 0 \<le> k \<longrightarrow> k < K \<longrightarrow>
         (fst st ! nat k, snd st ! nat k) = row_acc sg R (?f k) (vals ! nat k, args ! nat k) rs e)"
  let ?body = "\<lambda>e st.
       bind_err (read_at col_data e) (\<lambda>c.
         bind_err (case value_data of
                     Some vd \<Rightarrow> bind_err (read_at vd e) (\<lambda>w. Inr (Some w))
                   | None \<Rightarrow> Inr None) (\<lambda>val.
           update_features sg R mat_data val offset c K e st))"
  have rs32: "to_int32 rs = rs"
    using rng by (intro to_int32_id) auto
  have "\<exists>t. for_loop rs re ?body (vals, args) = Inr t \<and> ?I re t"
  proof (rule for_loop_rule [where I = ?I])
    show "rs \<le> re" "re \<le> 2147483647" by fact+
    show "?I rs (vals, args)" using len by (simp add: row_acc_empty)
  next
    fix e t assume e: "rs \<le> e" "e < re" and I: "?I e t"
    let ?c = "col_data ! nat e"
    let ?val = "map_option (\<lambda>vd. vd ! nat e) value_data"
    have r1: "read_at col_data e = Inr ?c"
      using e rng by (intro read_at_in_range) auto
    have r2: "(case value_data of
                     Some vd \<Rightarrow> bind_err (read_at vd e) (\<lambda>w. Inr (Some w))
                   | None \<Rightarrow> Inr None) = Inr ?val"
    proof (cases value_data)
      case None then show ?thesis by simp
    next
      case (Some vd)
      with vd [OF Some] e rng show ?thesis by (simp add: read_at_in_range)
    qed
    have b: "?body e t = update_features sg R mat_data ?val offset ?c K e (fst t, snd t)"
      by (simp add: r1 r2)
    have "\<exists>vals' args'.
           update_features sg R mat_data ?val offset ?c K e (fst t, snd t) = Inr (vals', args') \<and>
           length vals' = nat K \<and> length args' = nat K \<and>
           (\<forall>k. 0 \<le> k \<longrightarrow> k < K \<longrightarrow>
              (vals' ! nat k, args' ! nat k) =
                update sg R (fst t ! nat k, snd t ! nat k) (cand mat_data ?val (offset + ?c * K + k)) e)"
    proof (rule update_features_ok [OF K])
      show "length (fst t) = nat K" "length (snd t) = nat K" using I by auto
    next
      fix k assume k: "0 \<le> k" "k < K"
      from cl [OF e] have c: "0 \<le> ?c" "?c < N" by auto
      from flat_index_bound [OF c k] off
      show "0 \<le> offset + ?c * K + k \<and> offset + ?c * K + k < int (length mat_data)"
        by auto
    qed
    then obtain vals' args' where
      u: "update_features sg R mat_data ?val offset ?c K e (fst t, snd t) = Inr (vals', args')"
      and l: "length vals' = nat K" "length args' = nat K"
      and p: "\<And>k. 0 \<le> k \<Longrightarrow> k < K \<Longrightarrow> (vals' ! nat k, args' ! nat k) =
                update sg R (fst t ! nat k, snd t ! nat k) (cand mat_data ?val (offset + ?c * K + k)) e"
      by blast
    have "?I (e + 1) (vals', args')"
      using l p I e(1) by (simp add: row_acc_step)
    with b u show "\<exists>t'. ?body e t = Inr t' \<and> ?I (e + 1) t'"
      by auto
  qed
  then show ?thesis
    unfolding reduce_row_def rs32 by auto
qed

subsection \<open>The loops over the features\<close>

lemma init_loop_ok:
  assumes "0 \<le> K" "K \<le> 2147483647" "length vals = nat K"
  shows "for_loop 0 K (\<lambda>k vals. Inr (vals[nat k := x])) vals = Inr (replicate (nat K) x)"
proof -
  let ?I = "\<lambda>j v. length v = nat K \<and> (\<forall>k. 0 \<le> k \<longrightarrow> k < j \<longrightarrow> v ! nat k = x)"
  have "\<exists>t. for_loop 0 K (\<lambda>k vals. Inr (vals[nat k := x])) vals = Inr t \<and> ?I K t"
  proof (rule for_loop_rule [where I = ?I])
    show "0 \<le> K" "K \<le> 2147483647" by fact+
    show "?I 0 vals" using assms by simp
  next
    fix j t assume "0 \<le> j" "j < K" "?I j t"
    then have "?I (j + 1) (t[nat j := x])"
      by (auto simp: nth_list_update eq_nat_nat_iff)
    then show "\<exists>t'. Inr (t[nat j := x]) = Inr t' \<and> ?I (j + 1) t'"
      by blast
  qed
  then obtain t where t: "for_loop 0 K (\<lambda>k vals. Inr (vals[nat k := x])) vals = Inr t"
    and l: "length t = nat K" and p: "\<And>k. 0 \<le> k \<Longrightarrow> k < K \<Longrightarrow> t ! nat k = x"
    by blast
  have "t = replicate (nat K) x"
  proof (rule nth_equalityI)
    show "length t = length (replicate (nat K) x)" using l by simp
  next
    fix i assume "i < length t"
    with l p [of "int i"] show "t ! i = replicate (nat K) x ! i" by simp
  qed
  with t show ?thesis by simp
qed

lemma block_upd_start: "block_upd xs xs off 0 g"
  by (simp add: block_upd_def)

lemma block_upd_step:
  assumes "block_upd xs' xs off j g" "0 \<le> off" "0 \<le> j" "off + j < int (length xs)"
  shows "block_upd (xs'[nat (off + j) := g j]) xs off (j + 1) g"
  using assms unfolding block_upd_def
  by (auto simp: nth_list_update eq_nat_nat_iff)

lemma block_upd_keep:
  assumes "block_upd xs' xs off j g" "0 \<le> off" "0 \<le> j" "g j = xs ! nat (off + j)"
  shows "block_upd xs' xs off (j + 1) g"
  unfolding block_upd_def
proof (intro conjI allI impI)
  show "length xs' = length xs" using assms by (simp add: block_upd_def)
next
  fix k assume k: "0 \<le> k" "k < j + 1"
  show "xs' ! nat (off + k) = g k"
  proof (cases "k < j")
    case True
    with assms k show ?thesis by (simp add: block_upd_def)
  next
    case False
    with k have kj: "k = j" by simp
    have "off + j \<le> int (nat (off + j))" using assms by simp
    with assms(1) have "xs' ! nat (off + j) = xs ! nat (off + j)"
      unfolding block_upd_def by blast
    with kj assms(4) show ?thesis by simp
  qed
next
  fix i assume "int i < off \<or> off + (j + 1) \<le> int i"
  then have "int i < off \<or> off + j \<le> int i" by auto
  with assms(1) show "xs' ! i = xs ! i"
    unfolding block_upd_def by blast
qed

lemma write_at_ok:
  assumes "0 \<le> i" "i < int (length out)"
    and "\<And>a0. ao = Some a0 \<Longrightarrow> length a0 = length out"
    and "R = MIN_R \<or> R = MAX_R \<Longrightarrow> ao \<noteq> None"
  shows "write_at sg R (out, ao) i v a count =
           Inr (out[nat i := written_value sg R v count],
                map_option (\<lambda>a0. if (R = MIN_R \<or> R = MAX_R) \<and> count > 0 then a0[nat i := a] else a0) ao)"
  using assms
  by (cases ao; cases R) (auto simp: write_at_def written_value_def store_at_in_range)

lemma write_loop_ok:
  assumes K: "0 \<le> K" "K \<le> 2147483647"
    and off: "0 \<le> off" "off + K \<le> int (length out)"
    and ao1: "\<And>a0. ao = Some a0 \<Longrightarrow> length a0 = length out"
    and ao2: "R = MIN_R \<or> R = MAX_R \<Longrightarrow> ao \<noteq> None"
  shows "\<exists>out' ao'.
     for_loop 0 K (\<lambda>k bufs. write_at sg R bufs (off + k) (v k) (a k) count) (out, ao) = Inr (out', ao') \<and>
     block_upd out' out off K (\<lambda>k. written_value sg R (v k) count) \<and>
     (case ao of
        None \<Rightarrow> ao' = None
      | Some a0 \<Rightarrow> \<exists>a'. ao' = Some a' \<and>
          block_upd a' a0 off K
            (\<lambda>k. if (R = MIN_R \<or> R = MAX_R) \<and> count > 0 then a k else a0 ! nat (off + k)))"
proof -
  let ?g = "\<lambda>k. written_value sg R (v k) count"
  let ?c = "(R = MIN_R \<or> R = MAX_R) \<and> count > 0"
  let ?ga = "\<lambda>a0 k. if ?c then a k else a0 ! nat (off + k)"
  let ?I = "\<lambda>j bufs. block_upd (fst bufs) out off j ?g \<and>
     (case ao of
        None \<Rightarrow> snd bufs = None
      | Some a0 \<Rightarrow> \<exists>a'. snd bufs = Some a' \<and> block_upd a' a0 off j (?ga a0))"
  let ?body = "\<lambda>k bufs. write_at sg R bufs (off + k) (v k) (a k) count"
  have "\<exists>t. for_loop 0 K ?body (out, ao) = Inr t \<and> ?I K t"
  proof (rule for_loop_rule [where I = ?I])
    show "0 \<le> K" "K \<le> 2147483647" by fact+
    show "?I 0 (out, ao)" by (cases ao) (simp_all add: block_upd_start)
  next
    fix j t assume j: "0 \<le> j" "j < K" and I: "?I j t"
    obtain o' ao' where t: "t = (o', ao')" by (cases t)
    from I t have bo: "block_upd o' out off j ?g" by simp
    then have lo: "length o' = length out" by (simp add: block_upd_def)
    have rng: "0 \<le> off + j" "off + j < int (length out)" using j off by auto
    have la: "\<And>a1. ao' = Some a1 \<Longrightarrow> length a1 = length o'"
      using I t ao1 lo by (cases ao) (auto simp: block_upd_def)
    have na: "R = MIN_R \<or> R = MAX_R \<Longrightarrow> ao' \<noteq> None"
      using I t ao2 by (cases ao) auto
    let ?t' = "(o'[nat (off + j) := ?g j],
                map_option (\<lambda>a0. if ?c then a0[nat (off + j) := a j] else a0) ao')"
    have b: "?body j t = Inr ?t'"
      unfolding t using rng lo la na by (intro write_at_ok) auto
    have "block_upd (fst ?t') out off (j + 1) ?g"
      using block_upd_step [OF bo off(1) j(1) rng(2)] by simp
    moreover have "case ao of
        None \<Rightarrow> snd ?t' = None
      | Some a0 \<Rightarrow> \<exists>a'. snd ?t' = Some a' \<and> block_upd a' a0 off (j + 1) (?ga a0)"
    proof (cases ao)
      case None
      with I t show ?thesis by simp
    next
      case (Some a0)
      with I t obtain a' where a': "ao' = Some a'" "block_upd a' a0 off j (?ga a0)" by auto
      from ao1 [OF Some] rng have r2: "off + j < int (length a0)" by simp
      show ?thesis
      proof (cases ?c)
        case True
        from block_upd_step [OF a'(2) off(1) j(1) r2] True Some a'(1)
        show ?thesis by simp
      next
        case False
        have "block_upd a' a0 off (j + 1) (?ga a0)"
          by (rule block_upd_keep [OF a'(2) off(1) j(1)]) (use False in auto)
        with False Some a'(1) show ?thesis by auto
      qed
    qed
    ultimately have "?I (j + 1) ?t'" by simp
    with b show "\<exists>t'. ?body j t = Inr t' \<and> ?I (j + 1) t'" by blast
  qed
  then obtain t where t: "for_loop 0 K ?body (out, ao) = Inr t" and I: "?I K t" by blast
  obtain o' ao' where "t = (o', ao')" by (cases t)
  with t I show ?thesis by (cases ao) auto
qed

subsection \<open>One row of the output\<close>

lemma block_upd_cong:
  assumes "block_upd xs' xs off j g" "\<And>k. 0 \<le> k \<Longrightarrow> k < j \<Longrightarrow> g k = g' k"
  shows "block_upd xs' xs off j g'"
  using assms unfolding block_upd_def by auto

lemma spmm_row_ok:
  fixes rowptr_data col_data :: "int list" and vals mat_data :: "'w::len word list"
    and value_data :: "'w word list option" and args :: "int list"
    and m b M N K :: int and sg :: signedness and R :: ReductionType
  defines "rs \<equiv> rowptr_data ! nat m" and "re \<equiv> rowptr_data ! nat (m + 1)"
  defines "off \<equiv> b * M * K + m * K"
  defines "RR \<equiv> \<lambda>k. row_acc sg R
       (\<lambda>e. cand mat_data (map_option (\<lambda>vd. vd ! nat e) value_data)
              (b * N * K + col_data ! nat e * K + k))
       (init sg R, args ! nat k) rs re"
  assumes K: "0 \<le> K" "K \<le> 2147483647"
    and len: "length vals = nat K" "length args = nat K"
    and m: "0 \<le> m" "m + 1 < int (length rowptr_data)"
    and rng: "0 \<le> rs" "rs \<le> re" "re \<le> int (length col_data)" "re \<le> 2147483647"
    and vd: "\<And>vd. value_data = Some vd \<Longrightarrow> re \<le> int (length vd)"
    and cl: "\<And>e. rs \<le> e \<Longrightarrow> e < re \<Longrightarrow> 0 \<le> col_data ! nat e \<and> col_data ! nat e < N"
    and boff: "0 \<le> b * N * K" "b * N * K < 2147483648" "b * N * K + N * K \<le> int (length mat_data)"
    and ooff: "0 \<le> off" "off < 2147483648" "off + K \<le> int (length out)"
    and ao1: "\<And>a0. ao = Some a0 \<Longrightarrow> length a0 = length out"
    and ao2: "R = MIN_R \<or> R = MAX_R \<Longrightarrow> ao \<noteq> None"
  shows "\<exists>vals' args' out' ao'.
     spmm_row sg R rowptr_data col_data value_data mat_data M N K b m ((vals, args), (out, ao))
       = Inr ((vals', args'), (out', ao')) \<and>
     length vals' = nat K \<and> length args' = nat K \<and>
     block_upd out' out off K (\<lambda>k. written_value sg R (fst (RR k)) (re - rs)) \<and>
     (case ao of
        None \<Rightarrow> ao' = None
      | Some a0 \<Rightarrow> \<exists>a'. ao' = Some a' \<and>
          block_upd a' a0 off K
            (\<lambda>k. if (R = MIN_R \<or> R = MAX_R) \<and> re - rs > 0 then snd (RR k)
                 else a0 ! nat (off + k)))"
proof -
  have r1: "read_at rowptr_data m = Inr rs" "read_at rowptr_data (m + 1) = Inr re"
    using m by (simp_all add: read_at_in_range rs_def re_def)
  have i1: "for_loop 0 K (\<lambda>k vals. Inr (vals[nat k := init sg R])) vals
              = Inr (replicate (nat K) (init sg R))"
    by (rule init_loop_ok [OF K len(1)])
  have c1: "to_int32 (b * N * K) = b * N * K"
    using boff by (intro to_int32_id) auto
  have c2: "to_int32 (b * M * K + m * K) = off"
    using ooff unfolding off_def by (intro to_int32_id) auto
  have c3: "to_int32 (re - rs) = re - rs"
    using rng by (intro to_int32_id) auto
  have "\<exists>vals' args'.
           reduce_row sg R col_data value_data mat_data (b * N * K) K rs re
             (replicate (nat K) (init sg R), args) = Inr (vals', args') \<and>
           length vals' = nat K \<and> length args' = nat K \<and>
           (\<forall>k. 0 \<le> k \<longrightarrow> k < K \<longrightarrow>
              (vals' ! nat k, args' ! nat k) =
                row_acc sg R
                  (\<lambda>e. cand mat_data (map_option (\<lambda>vd. vd ! nat e) value_data)
                         (b * N * K + col_data ! nat e * K + k))
                  (replicate (nat K) (init sg R) ! nat k, args ! nat k) rs re)"
    by (rule reduce_row_ok [OF K _ len(2) rng vd cl boff(1) boff(3)]) simp_all
  then obtain vals' args' where
    rr: "reduce_row sg R col_data value_data mat_data (b * N * K) K rs re
             (replicate (nat K) (init sg R), args) = Inr (vals', args')"
    and l: "length vals' = nat K" "length args' = nat K"
    and p: "\<And>k. 0 \<le> k \<Longrightarrow> k < K \<Longrightarrow> (vals' ! nat k, args' ! nat k) = RR k"
    unfolding RR_def by (auto simp: nat_less_iff)
  from write_loop_ok [OF K ooff(1) ooff(3) ao1 ao2, where sg = sg and v = "\<lambda>k. vals' ! nat k"
      and a = "\<lambda>k. args' ! nat k" and count = "re - rs"]
  obtain out' ao' where
    w: "for_loop 0 K (\<lambda>k bufs. write_at sg R bufs (off + k) (vals' ! nat k) (args' ! nat k) (re - rs))
          (out, ao) = Inr (out', ao')"
    and bo: "block_upd out' out off K (\<lambda>k. written_value sg R (vals' ! nat k) (re - rs))"
    and ba: "case ao of
        None \<Rightarrow> ao' = None
      | Some a0 \<Rightarrow> \<exists>a'. ao' = Some a' \<and>
          block_upd a' a0 off K
            (\<lambda>k. if (R = MIN_R \<or> R = MAX_R) \<and> re - rs > 0 then args' ! nat k
                 else a0 ! nat (off + k))"
    by blast
  have fs: "\<And>k. 0 \<le> k \<Longrightarrow> k < K \<Longrightarrow> vals' ! nat k = fst (RR k)"
    and sn: "\<And>k. 0 \<le> k \<Longrightarrow> k < K \<Longrightarrow> args' ! nat k = snd (RR k)"
    using p by (metis fst_conv, metis snd_conv)
  have e: "spmm_row sg R rowptr_data col_data value_data mat_data M N K b m ((vals, args), (out, ao))
       = Inr ((vals', args'), (out', ao'))"
    unfolding spmm_row_def by (simp add: r1 i1 c1 c2 c3 rr w)
  have bo': "block_upd out' out off K (\<lambda>k. written_value sg R (fst (RR k)) (re - rs))"
    by (rule block_upd_cong [OF bo]) (simp add: fs)
  have ba': "case ao of
        None \<Rightarrow> ao' = None
      | Some a0 \<Rightarrow> \<exists>a'. ao' = Some a' \<and>
          block_upd a' a0 off K
            (\<lambda>k. if (R = MIN_R \<or> R = MAX_R) \<and> re - rs > 0 then snd (RR k)
                 else a0 ! nat (off + k))"
  proof (cases ao)
    case None
    with ba show ?thesis by simp
  next
    case (Some a0)
    with ba obtain a' where a': "ao' = Some a'"
      "block_upd a' a0 off K
            (\<lambda>k. if (R = MIN_R \<or> R = MAX_R) \<and> re - rs > 0 then args' ! nat k
                 else a0 ! nat (off + k))" by auto
    have "block_upd a' a0 off K
            (\<lambda>k. if (R = MIN_R \<or> R = MAX_R) \<and> re - rs > 0 then snd (RR k)
                 else a0 ! nat (off + k))"
      by (rule block_upd_cong [OF a'(2)]) (simp add: sn)
    with Some a'(1) show ?thesis by simp
  qed
  from e l bo' ba' show ?thesis by blast
qed

lemma update_fst_indep: "fst (update sg R (v, a) c e) = fst (update sg R (v, a') c e)"
  by (simp add: update_def)

lemma foldl_update_fst_indep:
  "fst (foldl (\<lambda>va e. update sg R va (f e) e) (v, a) es) =
   fst (foldl (\<lambda>va e. update sg R va (f e) e) (v, a') es)"
proof (induction es arbitrary: v a a')
  case Nil
  show ?case by simp
next
  case (Cons e es)
  obtain v1 a1 where u1: "update sg R (v, a) (f e) e = (v1, a1)" by (cases "update sg R (v, a) (f e) e")
  obtain v2 a2 where u2: "update sg R (v, a') (f e) e = (v2, a2)" by (cases "update sg R (v, a') (f e) e")
  from update_fst_indep [of sg R v a "f e" e a'] u1 u2 have "v1 = v2" by simp
  with Cons.IH [of v1 a1 a2] u1 u2 show ?case by simp
qed

lemma acc_result_fst_indep:
  "fst (acc_result sg R rp cd vd md N K arg0 b m k) = fst (acc_result sg R rp cd vd md N K 0 b m k)"
  unfolding acc_result_def row_acc_def by (rule foldl_update_fst_indep)

lemma grid_index:
  fixes b m M :: int
  assumes "0 \<le> m" "m < M"
  shows "(b * M + m) div M = b" and "(b * M + m) mod M = m"
  using assms by simp_all

lemma grid_bound:
  fixes b m B M :: int
  assumes "0 \<le> b" "b < B" "0 \<le> m" "m < M"
  shows "0 \<le> b * M + m" and "b * M + m + 1 \<le> B * M"
proof -
  show "0 \<le> b * M + m" using assms by simp
  have "(b + 1) * M \<le> B * M" using assms by (intro mult_right_mono) auto
  then show "b * M + m + 1 \<le> B * M" using assms by (simp add: algebra_simps)
qed

lemma spmm_inv_step:
  fixes rp cd :: "int list" and md :: "'w::len word list" and out0 :: "'w word list"
  assumes ok: "kernel_ok rp cd vd md B M N K"
    and L: "int (length out0) = B * M * K"
    and a1: "\<And>a0. ao0 = Some a0 \<Longrightarrow> length a0 = length out0"
    and a2: "R = MIN_R \<or> R = MAX_R \<Longrightarrow> ao0 \<noteq> None"
    and b: "0 \<le> b" "b < B" and m: "0 \<le> m" "m < M"
    and inv: "spmm_inv sg R rp cd vd md M N K out0 ao0 (b * M + m) st"
  shows "\<exists>st'. spmm_row sg R rp cd vd md M N K b m st = Inr st' \<and>
               spmm_inv sg R rp cd vd md M N K out0 ao0 (b * M + m + 1) st'"
proof -
  obtain vals args out ao where st: "st = ((vals, args), (out, ao))"
    by (metis prod.collapse)
  define r where "r = b * M + m"
  let ?rs = "rp ! nat m"
  let ?re = "rp ! nat (m + 1)"
  have K: "0 \<le> K" "K \<le> 2147483647" and N: "0 \<le> N"
    using ok by (auto simp: kernel_ok_def)
  have len: "length vals = nat K" "length args = nat K" "length out = length out0"
    using inv st by (auto simp: spmm_inv_def)
  have rpl: "m + 1 < int (length rp)" using ok m by (auto simp: kernel_ok_def)
  have rng: "0 \<le> ?rs" "?rs \<le> ?re" "?re \<le> int (length cd)" "?re \<le> 2147483647"
    using ok m unfolding kernel_ok_def by force+
  have vdl: "\<And>v. vd = Some v \<Longrightarrow> ?re \<le> int (length v)"
    using ok rng(3) by (auto simp: kernel_ok_def)
  have cl: "\<And>e. ?rs \<le> e \<Longrightarrow> e < ?re \<Longrightarrow> 0 \<le> cd ! nat e \<and> cd ! nat e < N"
    using ok rng by (auto simp: kernel_ok_def)
  have r0: "0 \<le> r" and r1: "r + 1 \<le> B * M"
    using grid_bound [OF b m] by (simp_all add: r_def)
  have rK: "(r + 1) * K \<le> B * M * K"
    using r1 K by (intro mult_right_mono) auto
  have off: "b * M * K + m * K = r * K" by (simp add: r_def algebra_simps)
  have NK: "0 \<le> N * K" using N K by simp
  have bN: "(b + 1) * (N * K) \<le> B * (N * K)"
    using b NK by (intro mult_right_mono) auto
  have bN0: "0 \<le> b * (N * K)" using b NK by simp
  have BNK: "B * (N * K) \<le> int (length md)" "B * (N * K) < 2147483648"
    using ok by (auto simp: kernel_ok_def mult.assoc)
  have boff: "0 \<le> b * N * K" "b * N * K < 2147483648" "b * N * K + N * K \<le> int (length md)"
  proof -
    have e: "b * N * K = b * (N * K)" by (simp add: mult.assoc)
    have f: "(b + 1) * (N * K) = b * (N * K) + N * K" by (simp add: algebra_simps)
    show "0 \<le> b * N * K" unfolding e by (rule bN0)
    show "b * N * K < 2147483648" unfolding e using bN BNK NK f by linarith
    show "b * N * K + N * K \<le> int (length md)" unfolding e using bN BNK f by linarith
  qed
  have BMK: "B * M * K < 2147483648" using ok by (simp add: kernel_ok_def)
  have rK0: "0 \<le> r * K" using r0 K by simp
  have rK1: "(r + 1) * K = r * K + K" by (simp add: algebra_simps)
  have ooff: "0 \<le> b * M * K + m * K" "b * M * K + m * K < 2147483648"
    "b * M * K + m * K + K \<le> int (length out)"
    unfolding off len(3) L using rK rK0 rK1 BMK K by linarith+
  have ao_1: "\<And>a. ao = Some a \<Longrightarrow> length a = length out"
    using inv st a1 len(3) by (cases ao0) (auto simp: spmm_inv_def)
  have ao_2: "R = MIN_R \<or> R = MAX_R \<Longrightarrow> ao \<noteq> None"
    using inv st a2 by (cases ao0) (auto simp: spmm_inv_def)
  let ?RR = "\<lambda>k. acc_result sg R rp cd vd md N K (args ! nat k) b m k"
  let ?c = "(R = MIN_R \<or> R = MAX_R) \<and> ?re - ?rs > 0"
  have "\<exists>vals' args' out' ao'.
     spmm_row sg R rp cd vd md M N K b m ((vals, args), (out, ao))
       = Inr ((vals', args'), (out', ao')) \<and>
     length vals' = nat K \<and> length args' = nat K \<and>
     block_upd out' out (b * M * K + m * K) K (\<lambda>k. written_value sg R (fst (?RR k)) (?re - ?rs)) \<and>
     (case ao of
        None \<Rightarrow> ao' = None
      | Some a0 \<Rightarrow> \<exists>a'. ao' = Some a' \<and>
          block_upd a' a0 (b * M * K + m * K) K
            (\<lambda>k. if ?c then snd (?RR k) else a0 ! nat (b * M * K + m * K + k)))"
    unfolding acc_result_def
    by (rule spmm_row_ok [OF K len(1,2) m(1) rpl rng vdl cl boff ooff ao_1 ao_2])
  then obtain vals' args' out' ao' where
    run: "spmm_row sg R rp cd vd md M N K b m st = Inr ((vals', args'), (out', ao'))"
    and l': "length vals' = nat K" "length args' = nat K"
    and bo: "block_upd out' out (r * K) K (\<lambda>k. written_value sg R (fst (?RR k)) (?re - ?rs))"
    and ba: "case ao of
        None \<Rightarrow> ao' = None
      | Some a0 \<Rightarrow> \<exists>a'. ao' = Some a' \<and>
          block_upd a' a0 (r * K) K (\<lambda>k. if ?c then snd (?RR k) else a0 ! nat (r * K + k))"
    unfolding st off by blast
  have gi: "r div M = b" "r mod M = m"
    unfolding r_def using grid_index [OF m] by simp_all
  have before: "\<And>r' k. 0 \<le> r' \<Longrightarrow> r' < r \<Longrightarrow> 0 \<le> k \<Longrightarrow> k < K \<Longrightarrow>
      int (nat (r' * K + k)) < r * K"
    using flat_index_bound by simp
  have cur: "\<And>k. 0 \<le> k \<Longrightarrow> k < K \<Longrightarrow>
      row_value sg R rp cd vd md M N K r k = written_value sg R (fst (?RR k)) (?re - ?rs)"
    unfolding row_value_def gi by (simp add: acc_result_fst_indep [of _ _ _ _ _ _ _ _ "args ! nat _"])
  have v: "\<forall>r' k. 0 \<le> r' \<longrightarrow> r' < r + 1 \<longrightarrow> 0 \<le> k \<longrightarrow> k < K \<longrightarrow>
        out' ! nat (r' * K + k) = row_value sg R rp cd vd md M N K r' k"
  proof (intro allI impI)
    fix r' k assume h: "0 \<le> r'" "r' < r + 1" "0 \<le> k" "k < K"
    show "out' ! nat (r' * K + k) = row_value sg R rp cd vd md M N K r' k"
    proof (cases "r' < r")
      case True
      from before [OF h(1) True h(3,4)] bo
      have "out' ! nat (r' * K + k) = out ! nat (r' * K + k)"
        unfolding block_upd_def by blast
      also have "\<dots> = row_value sg R rp cd vd md M N K r' k"
        using inv h True unfolding st spmm_inv_def r_def by simp
      finally show ?thesis .
    next
      case False
      with h have "r' = r" by simp
      with bo h cur show ?thesis unfolding block_upd_def by simp
    qed
  qed
  have a: "case ao0 of
        None \<Rightarrow> ao' = None
      | Some a0 \<Rightarrow> \<exists>a'. ao' = Some a' \<and> length a' = length a0 \<and>
          (\<forall>r' k. 0 \<le> r' \<longrightarrow> r' < r + 1 \<longrightarrow> 0 \<le> k \<longrightarrow> k < K \<longrightarrow>
             row_arg_ok sg R rp cd vd md M N K a0 r' k (a' ! nat (r' * K + k))) \<and>
          (\<forall>i. (r + 1) * K \<le> int i \<longrightarrow> a' ! i = a0 ! i)"
  proof (cases ao0)
    case None
    with inv st have "ao = None" by (simp add: spmm_inv_def)
    with ba None show ?thesis by simp
  next
    case (Some a0)
    with inv st obtain a1 where a1: "ao = Some a1" "length a1 = length a0"
      and dn: "\<And>r' k. 0 \<le> r' \<Longrightarrow> r' < r \<Longrightarrow> 0 \<le> k \<Longrightarrow> k < K \<Longrightarrow>
             row_arg_ok sg R rp cd vd md M N K a0 r' k (a1 ! nat (r' * K + k))"
      and rest: "\<And>i. r * K \<le> int i \<Longrightarrow> a1 ! i = a0 ! i"
      unfolding spmm_inv_def r_def by auto
    from ba a1 obtain a' where a': "ao' = Some a'"
      and ba': "block_upd a' a1 (r * K) K (\<lambda>k. if ?c then snd (?RR k) else a1 ! nat (r * K + k))"
      by auto
    have "length a' = length a0" using ba' a1 by (simp add: block_upd_def)
    moreover have "row_arg_ok sg R rp cd vd md M N K a0 r' k (a' ! nat (r' * K + k))"
      if h: "0 \<le> r'" "r' < r + 1" "0 \<le> k" "k < K" for r' k
    proof (cases "r' < r")
      case True
      from before [OF h(1) True h(3,4)] ba'
      have "a' ! nat (r' * K + k) = a1 ! nat (r' * K + k)"
        unfolding block_upd_def by blast
      with dn [OF h(1) True h(3,4)] show ?thesis by simp
    next
      case False
      with h have e: "r' = r" by simp
      from ba' h have x: "a' ! nat (r * K + k) = (if ?c then snd (?RR k) else a1 ! nat (r * K + k))"
        unfolding block_upd_def by simp
      have "r * K \<le> int (nat (r * K + k))" using h rK0 by simp
      from rest [OF this] have y: "a1 ! nat (r * K + k) = a0 ! nat (r * K + k)" .
      show ?thesis
        unfolding e row_arg_ok_def gi x y by auto
    qed
    moreover have "a' ! i = a0 ! i" if "(r + 1) * K \<le> int i" for i
    proof -
      from that rK1 K have "r * K + K \<le> int i" "r * K \<le> int i" by simp_all
      with ba' rest [of i] show ?thesis unfolding block_upd_def by simp
    qed
    ultimately show ?thesis using Some a' by simp
  qed
  have "spmm_inv sg R rp cd vd md M N K out0 ao0 (b * M + m + 1) ((vals', args'), (out', ao'))"
    unfolding spmm_inv_def r_def [symmetric]
    using l' v a bo len(3) by (cases ao0) (simp_all add: block_upd_def)
  with run show ?thesis by blast
qed

subsection \<open>The loops over batches and rows\<close>

lemma spmm_inv_start:
  assumes "0 \<le> K"
  shows "spmm_inv sg R rp cd vd md M N K out0 ao0 0
           ((replicate (nat K) 0, replicate (nat K) 0), (out0, ao0))"
  unfolding spmm_inv_def by (cases ao0) simp_all

lemma spmm_loops_ok:
  fixes rp cd :: "int list" and md :: "'w::len word list" and out0 :: "'w word list"
  assumes ok: "kernel_ok rp cd vd md B M N K"
    and L: "int (length out0) = B * M * K"
    and a1: "\<And>a0. ao0 = Some a0 \<Longrightarrow> length a0 = length out0"
    and a2: "R = MIN_R \<or> R = MAX_R \<Longrightarrow> ao0 \<noteq> None"
    and inv: "spmm_inv sg R rp cd vd md M N K out0 ao0 0 st0"
  shows "\<exists>st'. for_loop 0 B (\<lambda>b. for_loop 0 M (\<lambda>m. spmm_row sg R rp cd vd md M N K b m)) st0 = Inr st' \<and>
               spmm_inv sg R rp cd vd md M N K out0 ao0 (B * M) st'"
proof -
  let ?Inv = "spmm_inv sg R rp cd vd md M N K out0 ao0"
  have B: "0 \<le> B" "B \<le> 2147483647" and M: "0 \<le> M" "M \<le> 2147483647"
    using ok by (auto simp: kernel_ok_def)
  have inner: "\<exists>st'. for_loop 0 M (\<lambda>m. spmm_row sg R rp cd vd md M N K b m) st = Inr st' \<and>
                 ?Inv ((b + 1) * M) st'"
    if b: "0 \<le> b" "b < B" and i: "?Inv (b * M) st" for b st
  proof -
    have "\<exists>st'. for_loop 0 M (\<lambda>m. spmm_row sg R rp cd vd md M N K b m) st = Inr st' \<and>
                 ?Inv (b * M + M) st'"
    proof (rule for_loop_rule [where I = "\<lambda>m. ?Inv (b * M + m)"])
      show "0 \<le> M" "M \<le> 2147483647" by fact+
      show "?Inv (b * M + 0) st" using i by simp
    next
      fix m t assume "0 \<le> m" "m < M" "?Inv (b * M + m) t"
      from spmm_inv_step [OF ok L a1 a2 b this]
      show "\<exists>t'. spmm_row sg R rp cd vd md M N K b m t = Inr t' \<and> ?Inv (b * M + (m + 1)) t'"
        by (simp add: add.assoc)
    qed
    then show ?thesis by (simp add: algebra_simps)
  qed
  show ?thesis
  proof (rule for_loop_rule [where I = "\<lambda>b. ?Inv (b * M)"])
    show "0 \<le> B" "B \<le> 2147483647" by fact+
    show "?Inv (0 * M) st0" using inv by simp
  next
    fix b t assume "0 \<le> b" "b < B" "?Inv (b * M) t"
    then show "\<exists>t'. for_loop 0 M (\<lambda>m. spmm_row sg R rp cd vd md M N K b m) t = Inr t' \<and>
                    ?Inv ((b + 1) * M) t'"
      by (rule inner)
  qed
qed

subsection \<open>From the tensors to the buffers\<close>

lemma last_two:
  assumes "2 \<le> length xs"
  obtains ys a b where "xs = ys @ [a, b]"
proof -
  from assms obtain zs b where 1: "xs = zs @ [b]"
    by (cases xs rule: rev_cases) auto
  with assms obtain ys a where 2: "zs = ys @ [a]"
    by (cases zs rule: rev_cases) auto
  from 1 2 have "xs = ys @ [a, b]" by simp
  then show thesis by (rule that)
qed

lemma dims_of_shape:
  fixes mat :: "'a tensor"
  assumes r: "2 \<le> length (sizes mat)" and nk: "0 < dim_N mat * dim_K mat"
  shows "numel mat = dim_B mat * dim_N mat * dim_K mat"
    and "int (prod_list ((sizes mat)[length (sizes mat) - 2 := nat M])) = dim_B mat * int (nat M) * dim_K mat"
    and "0 \<le> dim_B mat"
proof -
  from r obtain ys a b where xs: "sizes mat = ys @ [a, b]" by (rule last_two)
  have N: "dim_N mat = int a" and K: "dim_K mat = int b"
    unfolding dim_N_def dim_K_def xs by (simp_all add: nth_append)
  have ne: "numel mat = int (prod_list ys) * (int a * int b)"
    unfolding numel_def xs by simp
  have ab: "int a * int b \<noteq> 0" using nk [unfolded N K] by linarith
  have B: "dim_B mat = int (prod_list ys)"
    unfolding dim_B_def ne N K using ab by (rule nonzero_mult_div_cancel_right)
  show "numel mat = dim_B mat * dim_N mat * dim_K mat"
    unfolding B N K ne by simp
  have "(ys @ [a, b])[length (ys @ [a, b]) - 2 := nat M] = ys @ [nat M, b]"
    by (simp add: list_update_append)
  then show "int (prod_list ((sizes mat)[length (sizes mat) - 2 := nat M])) = dim_B mat * int (nat M) * dim_K mat"
    unfolding xs B K by simp
  show "0 \<le> dim_B mat" unfolding B by simp
qed

lemma size_at_last_two:
  assumes "2 \<le> length (sizes mat)"
  shows "size_at mat (- 2) = Inr (dim_N mat)" and "size_at mat (- 1) = Inr (dim_K mat)"
  using assms unfolding size_at_def dim_def dim_N_def dim_K_def
  by (simp_all add: nat_diff_distrib')

lemma cand_contribution:
  "cand (data mat) (map_option (\<lambda>vd. vd ! nat e) (map_option data value_opt))
     (b * dim_N mat * dim_K mat + data col ! nat e * dim_K mat + k)
   = contribution col value_opt mat b k e"
  unfolding cand_def contribution_def weight_def dense_at_def
  by (cases value_opt) simp_all

lemma spmm_wf_kernel_ok:
  assumes wf: "spmm_wf rowptr col value_opt mat"
  shows "kernel_ok (data rowptr) (data col) (map_option data value_opt) (data mat)
           (dim_B mat) (dim_M rowptr) (dim_N mat) (dim_K mat)"
proof -
  have r: "2 \<le> length (sizes mat)" and nk: "0 < dim_N mat * dim_K mat"
    using wf by (auto simp: spmm_wf_def)
  note d = dims_of_shape [OF r nk]
  have N0: "0 \<le> dim_N mat" and K0: "0 \<le> dim_K mat"
    by (simp_all add: dim_N_def dim_K_def)
  have lrp: "int (length (data rowptr)) = dim_M rowptr + 1"
    using wf by (simp add: spmm_wf_def storage_ok_def dim_M_def numel_def)
  have lcol: "int (length (data col)) = numel col"
    using wf by (simp add: spmm_wf_def storage_ok_def numel_def)
  have lmat: "int (length (data mat)) = numel mat"
    using wf by (simp add: spmm_wf_def storage_ok_def numel_def)
  have M0: "0 \<le> dim_M rowptr" "dim_M rowptr \<le> 2147483647"
    using wf by (auto simp: spmm_wf_def dim_M_def)
  have nm: "numel mat < 2147483648" and Kb: "dim_K mat \<le> 2147483647"
    using wf by (auto simp: spmm_wf_def)
  have "dim_B mat * 1 \<le> dim_B mat * (dim_N mat * dim_K mat)"
    using d(3) nk by (intro mult_left_mono) auto
  with d(1) nm have Bb: "dim_B mat \<le> 2147483647" by (simp add: mult.assoc)
  have rows: "0 \<le> data rowptr ! nat m \<and> data rowptr ! nat m \<le> data rowptr ! nat (m + 1) \<and>
        data rowptr ! nat (m + 1) \<le> int (length (data col))"
    if "0 \<le> m" "m < dim_M rowptr" for m
  proof -
    have i: "nat m < length (data rowptr)" "nat (m + 1) < length (data rowptr)"
      using that lrp by auto
    then have "data rowptr ! nat m \<in> set (data rowptr)" "data rowptr ! nat (m + 1) \<in> set (data rowptr)"
      by simp_all
    moreover have "sorted (data rowptr)" using wf by (simp add: spmm_wf_def)
    then have "data rowptr ! nat m \<le> data rowptr ! nat (m + 1)"
      using i that by (intro sorted_nth_mono) auto
    ultimately show ?thesis using wf lcol by (auto simp: spmm_wf_def)
  qed
  have cols: "0 \<le> data col ! nat e \<and> data col ! nat e < dim_N mat"
    if "0 \<le> e" "e < int (length (data col))" for e
  proof -
    have "data col ! nat e \<in> set (data col)" using that by simp
    then show ?thesis using wf by (auto simp: spmm_wf_def)
  qed
  have vl: "length vd = length (data col)" if "map_option data value_opt = Some vd" for vd
    using that wf lcol by (cases value_opt) (auto simp: spmm_wf_def storage_ok_def numel_def)
  have cb: "int (length (data col)) \<le> 2147483647"
    using wf lcol by (simp add: spmm_wf_def)
  have bmk: "dim_B mat * dim_M rowptr * dim_K mat < 2147483648"
    using wf by (simp add: spmm_wf_def)
  show ?thesis
    unfolding kernel_ok_def
    using d(1,3) N0 K0 M0 Bb Kb lrp rows cols vl cb lmat nm bmk by auto
qed

lemma reduce_at_Some: "reduce2REDUCE reduce = Some R \<Longrightarrow> reduce_at reduce = Inr R"
  by (simp add: reduce_at_def)

lemma spmm_run:
  fixes mat :: "'w::len word tensor" and junk :: "nat \<Rightarrow> 'w word" and rowptr col :: "int tensor"
    and R :: ReductionType
  assumes wf: "spmm_wf rowptr col value_opt mat"
    and red: "reduce2REDUCE reduce = Some R"
  defines "osz \<equiv> (sizes mat)[length (sizes mat) - 2 := nat (dim_M rowptr)]"
  defines "out0 \<equiv> map junk [0..<prod_list osz]"
  defines "ao0 \<equiv> (if R = MIN_R \<or> R = MAX_R then Some (replicate (length out0) (numel col)) else None)"
  shows "\<exists>st'. spmm sg junk rowptr col value_opt mat reduce =
           Inr (\<lparr>is_cuda = False, sizes = osz, data = fst (snd st')\<rparr>,
                map_option (\<lambda>a. \<lparr>is_cuda = False, sizes = osz, data = a\<rparr>) (snd (snd st'))) \<and>
           int (length out0) = dim_B mat * dim_M rowptr * dim_K mat \<and>
           spmm_inv sg R (data rowptr) (data col) (map_option data value_opt) (data mat)
             (dim_M rowptr) (dim_N mat) (dim_K mat) out0 ao0 (dim_B mat * dim_M rowptr) st'"
proof -
  have r: "2 \<le> length (sizes mat)" and nk: "0 < dim_N mat * dim_K mat"
    using wf by (auto simp: spmm_wf_def)
  have M0: "0 \<le> dim_M rowptr" using wf by (auto simp: spmm_wf_def dim_M_def)
  have L: "int (length out0) = dim_B mat * dim_M rowptr * dim_K mat"
    unfolding out0_def osz_def using dims_of_shape(2) [OF r nk, of "dim_M rowptr"] M0 by simp
  have ok: "kernel_ok (data rowptr) (data col) (map_option data value_opt) (data mat)
           (dim_B mat) (dim_M rowptr) (dim_N mat) (dim_K mat)"
    by (rule spmm_wf_kernel_ok [OF wf])
  have K0: "0 \<le> dim_K mat" by (simp add: dim_K_def)
  have a1: "\<And>a0. ao0 = Some a0 \<Longrightarrow> length a0 = length out0"
    by (auto simp: ao0_def split: if_splits)
  have a2: "R = MIN_R \<or> R = MAX_R \<Longrightarrow> ao0 \<noteq> None"
    by (auto simp: ao0_def)
  from spmm_loops_ok [OF ok L a1 a2 spmm_inv_start [OF K0], where sg = sg]
  obtain st' where
    run: "for_loop 0 (dim_B mat) (\<lambda>b. for_loop 0 (dim_M rowptr) (\<lambda>m.
            spmm_row sg R (data rowptr) (data col) (map_option data value_opt) (data mat)
              (dim_M rowptr) (dim_N mat) (dim_K mat) b m))
            ((replicate (nat (dim_K mat)) 0, replicate (nat (dim_K mat)) 0), (out0, ao0)) = Inr st'"
    and inv: "spmm_inv sg R (data rowptr) (data col) (map_option data value_opt) (data mat)
             (dim_M rowptr) (dim_N mat) (dim_K mat) out0 ao0 (dim_B mat * dim_M rowptr) st'"
    by blast
  have chk: "\<not> is_cuda rowptr" "\<not> is_cuda col" "\<not> is_cuda mat" "dim rowptr = 1" "dim col = 1"
    "\<not> dim mat < 2" "\<not> (case value_opt of Some v \<Rightarrow> is_cuda v | None \<Rightarrow> False)"
    "\<not> (case value_opt of Some v \<Rightarrow> dim v \<noteq> 1 | None \<Rightarrow> False)" "\<not> numel rowptr - 1 < 0"
    using wf by (auto simp: spmm_wf_def dim_def split: option.splits)
  have nk0: "dim_N mat * dim_K mat \<noteq> 0" using nk by linarith
  note run' = run [unfolded ao0_def out0_def osz_def dim_M_def dim_B_def]
  have "spmm sg junk rowptr col value_opt mat reduce =
           Inr (\<lparr>is_cuda = False, sizes = osz, data = fst (snd st')\<rparr>,
                map_option (\<lambda>a. \<lparr>is_cuda = False, sizes = osz, data = a\<rparr>) (snd (snd st')))"
    unfolding spmm_def osz_def dim_M_def
    by (simp only: chk if_False if_True not_False_eq_True simp_thms reduce_at_Some [OF red]
        size_at_last_two [OF r] nk0 Let_def bind_err_Inr run')
  with L inv show ?thesis by blast
qed

lemma acc_result_row_reduce:
  "acc_result sg R (data rowptr) (data col) (map_option data value_opt) (data mat)
     (dim_N mat) (dim_K mat) arg0 b m k = row_reduce sg R rowptr col value_opt mat arg0 b m k"
  unfolding acc_result_def row_reduce_def by (simp only: cand_contribution)

lemma spmm_result:
  fixes mat :: "'w::len word tensor"
  assumes wf: "spmm_wf rowptr col value_opt mat"
    and red: "reduce2REDUCE reduce = Some R"
  shows "\<exists>out ao. spmm sg junk rowptr col value_opt mat reduce = Inr (out, ao) \<and>
     sizes out = (sizes mat)[length (sizes mat) - 2 := nat (dim_M rowptr)] \<and>
     int (length (data out)) = dim_B mat * dim_M rowptr * dim_K mat \<and>
     (\<forall>b m k. 0 \<le> b \<longrightarrow> b < dim_B mat \<longrightarrow> 0 \<le> m \<longrightarrow> m < dim_M rowptr \<longrightarrow>
              0 \<le> k \<longrightarrow> k < dim_K mat \<longrightarrow>
        data out ! out_index rowptr mat b m k =
          written_value sg R (fst (row_reduce sg R rowptr col value_opt mat 0 b m k)) (degree rowptr m)) \<and>
     (ao = None \<longleftrightarrow> \<not> (R = MIN_R \<or> R = MAX_R)) \<and>
     (\<forall>a. ao = Some a \<longrightarrow>
        sizes a = sizes out \<and> length (data a) = length (data out) \<and>
        (\<forall>b m k. 0 \<le> b \<longrightarrow> b < dim_B mat \<longrightarrow> 0 \<le> m \<longrightarrow> m < dim_M rowptr \<longrightarrow>
                 0 \<le> k \<longrightarrow> k < dim_K mat \<longrightarrow>
           (if degree rowptr m > 0
            then \<exists>arg0. data a ! out_index rowptr mat b m k =
                          snd (row_reduce sg R rowptr col value_opt mat arg0 b m k)
            else data a ! out_index rowptr mat b m k = numel col)))"
proof -
  let ?B = "dim_B mat" and ?M = "dim_M rowptr" and ?N = "dim_N mat" and ?K = "dim_K mat"
  let ?osz = "(sizes mat)[length (sizes mat) - 2 := nat ?M]"
  let ?out0 = "map junk [0..<prod_list ?osz]"
  let ?ao0 = "if R = MIN_R \<or> R = MAX_R then Some (replicate (length ?out0) (numel col)) else None"
  from spmm_run [OF wf red, of sg junk]
  obtain st' where
    run: "spmm sg junk rowptr col value_opt mat reduce =
           Inr (\<lparr>is_cuda = False, sizes = ?osz, data = fst (snd st')\<rparr>,
                map_option (\<lambda>a. \<lparr>is_cuda = False, sizes = ?osz, data = a\<rparr>) (snd (snd st')))"
    and L: "int (length ?out0) = ?B * ?M * ?K"
    and inv: "spmm_inv sg R (data rowptr) (data col) (map_option data value_opt) (data mat)
             ?M ?N ?K ?out0 ?ao0 (?B * ?M) st'"
    by blast
  have K0: "0 \<le> ?K" by (simp add: dim_K_def)
  have lo: "length (fst (snd st')) = length ?out0"
    using inv unfolding spmm_inv_def by blast
  have idx: "0 \<le> b * ?M + m \<and> b * ?M + m < ?B * ?M \<and> (b * ?M + m) div ?M = b \<and>
             (b * ?M + m) mod ?M = m \<and>
             nat ((b * ?M + m) * ?K + k) < length ?out0"
    if "0 \<le> b" "b < ?B" "0 \<le> m" "m < ?M" "0 \<le> k" "k < ?K" for b m k
  proof -
    from grid_bound [OF that(1-4)] have g: "0 \<le> b * ?M + m" "b * ?M + m < ?B * ?M" by simp_all
    from flat_index_bound [OF g that(5,6)]
    have "0 \<le> (b * ?M + m) * ?K + k" "(b * ?M + m) * ?K + k < int (length ?out0)"
      unfolding L by simp_all
    then have "nat ((b * ?M + m) * ?K + k) < length ?out0"
      by linarith
    with g grid_index [OF that(3,4)] show ?thesis by blast
  qed
  have vals: "data \<lparr>is_cuda = False, sizes = ?osz, data = fst (snd st')\<rparr> ! out_index rowptr mat b m k =
          written_value sg R (fst (row_reduce sg R rowptr col value_opt mat 0 b m k)) (degree rowptr m)"
    if h: "0 \<le> b" "b < ?B" "0 \<le> m" "m < ?M" "0 \<le> k" "k < ?K" for b m k
  proof -
    from inv idx [OF h] h(5,6)
    have "fst (snd st') ! nat ((b * ?M + m) * ?K + k) =
            row_value sg R (data rowptr) (data col) (map_option data value_opt) (data mat) ?M ?N ?K
              (b * ?M + m) k"
      unfolding spmm_inv_def by blast
    then show ?thesis
      using idx [OF h]
      by (simp add: row_value_def out_index_def acc_result_row_reduce degree_def)
  qed
  have args: "if degree rowptr m > 0
            then \<exists>arg0. a' ! out_index rowptr mat b m k =
                          snd (row_reduce sg R rowptr col value_opt mat arg0 b m k)
            else a' ! out_index rowptr mat b m k = numel col"
    if h: "0 \<le> b" "b < ?B" "0 \<le> m" "m < ?M" "0 \<le> k" "k < ?K"
      and a': "snd (snd st') = Some a'" for b m k a'
  proof -
    have mm: "R = MIN_R \<or> R = MAX_R"
      using inv a' unfolding spmm_inv_def by (auto split: if_splits)
    then have a0: "?ao0 = Some (replicate (length ?out0) (numel col))" by simp
    from idx [OF h] have r: "0 \<le> b * ?M + m" "b * ?M + m < ?B * ?M"
      and gi: "(b * ?M + m) div ?M = b" "(b * ?M + m) mod ?M = m"
      and il: "nat ((b * ?M + m) * ?K + k) < length ?out0" by blast+
    from inv [unfolded spmm_inv_def a0] a' r h(5,6)
    have "row_arg_ok sg R (data rowptr) (data col) (map_option data value_opt) (data mat) ?M ?N ?K
            (replicate (length ?out0) (numel col)) (b * ?M + m) k (a' ! nat ((b * ?M + m) * ?K + k))"
      by auto
    then have "if degree rowptr m > 0
            then \<exists>arg0. a' ! nat ((b * ?M + m) * ?K + k) =
                          snd (row_reduce sg R rowptr col value_opt mat arg0 b m k)
            else a' ! nat ((b * ?M + m) * ?K + k) =
                   replicate (length ?out0) (numel col) ! nat ((b * ?M + m) * ?K + k)"
      unfolding row_arg_ok_def gi acc_result_row_reduce degree_def using mm by simp
    then show ?thesis
      unfolding out_index_def nth_replicate [OF il] .
  qed
  have none: "snd (snd st') = None \<longleftrightarrow> \<not> (R = MIN_R \<or> R = MAX_R)"
    using inv unfolding spmm_inv_def by (auto split: if_splits)
  have la: "length a' = length (fst (snd st'))" if "snd (snd st') = Some a'" for a'
    using inv that lo unfolding spmm_inv_def by (auto split: if_splits)
  show ?thesis
    using run L lo vals args none la
    by (intro exI conjI; (assumption | simp)?) auto
qed

section \<open>The backward kernel\<close>

lemma sum_int_snoc:
  fixes f :: "int \<Rightarrow> 'a::comm_monoid_add"
  assumes "a \<le> j"
  shows "(\<Sum>k = a..<j + 1. f k) = (\<Sum>k = a..<j. f k) + f j"
proof -
  have "{a..<j + 1} = insert j {a..<j}" using assms by auto
  then show ?thesis by (simp add: add.commute)
qed

lemma dot_loop_ok:
  fixes md gd :: "'w::len word list"
  assumes K: "0 \<le> K" "K \<le> 2147483647"
    and rd: "\<And>k. 0 \<le> k \<Longrightarrow> k < K \<Longrightarrow>
               0 \<le> im k \<and> im k < int (length md) \<and> 0 \<le> ig k \<and> ig k < int (length gd)"
  shows "for_loop 0 K (\<lambda>k val.
           bind_err (read_at md (im k)) (\<lambda>x.
           bind_err (read_at gd (ig k)) (\<lambda>g.
             Inr (val + x * g)))) 0
         = Inr (\<Sum>k = 0..<K. md ! nat (im k) * gd ! nat (ig k))"
proof -
  let ?body = "\<lambda>k val.
           bind_err (read_at md (im k)) (\<lambda>x.
           bind_err (read_at gd (ig k)) (\<lambda>g.
             Inr (val + x * g)))"
  let ?I = "\<lambda>j v. v = (\<Sum>k = 0..<j. md ! nat (im k) * gd ! nat (ig k))"
  have "\<exists>t. for_loop 0 K ?body 0 = Inr t \<and> ?I K t"
  proof (rule for_loop_rule [where I = ?I])
    show "0 \<le> K" "K \<le> 2147483647" by fact+
    show "?I 0 0" by simp
  next
    fix j t assume j: "0 \<le> j" "j < K" and I: "?I j t"
    from rd [OF j] have "?body j t = Inr (t + md ! nat (im j) * gd ! nat (ig j))"
      by (simp add: read_at_in_range)
    moreover have "?I (j + 1) (t + md ! nat (im j) * gd ! nat (ig j))"
      using I j(1) by (simp add: sum_int_snoc)
    ultimately show "\<exists>t'. ?body j t = Inr t' \<and> ?I (j + 1) t'" by blast
  qed
  then show ?thesis by auto
qed

lemma batch_index_bound:
  fixes b c k B N K :: int
  assumes "0 \<le> b" "b < B" "0 \<le> c" "c < N" "0 \<le> k" "k < K" "0 \<le> K" "0 \<le> N"
  shows "0 \<le> b * N * K + c * K + k" and "b * N * K + c * K + k < B * N * K"
proof -
  have NK: "0 \<le> N * K" using assms by simp
  have 1: "0 \<le> b * (N * K)" using assms NK by simp
  have 2: "(b + 1) * (N * K) \<le> B * (N * K)" using assms NK by (intro mult_right_mono) auto
  note 3 = flat_index_bound [OF assms(3-6)]
  show "0 \<le> b * N * K + c * K + k" using 1 3 by (simp add: mult.assoc)
  have "(b + 1) * (N * K) = b * (N * K) + N * K" by (simp add: algebra_simps)
  with 2 3 show "b * N * K + c * K + k < B * N * K" by (simp add: mult.assoc)
qed

lemma normalize_ok:
  fixes val :: "'w::len word"
  assumes "0 \<le> row" "row + 1 < int (length rp)"
    and "sval sg (mean_divisor sg (rp ! nat row) (rp ! nat (row + 1)) :: 'w word) \<noteq> 0"
  shows "normalize sg rp row val = Inr (bw_norm sg MEAN_R rp row val)"
  using assms by (simp add: normalize_def bw_norm_def read_at_in_range Let_def)

lemma val_bw_entry_ok:
  fixes md gd out :: "'w::len word list"
  assumes ok: "bw_ok sg R rd rp cd md gd B E M N K"
    and b: "0 \<le> b" "b < B" and e: "0 \<le> e" "e < E"
    and len: "int (length out) = E"
  shows "val_bw_entry sg R rd rp cd md gd M N K b e out =
           Inr (out[nat e := out ! nat e + bw_term sg R rd rp cd md gd M N K b e])"
proof -
  let ?row = "rd ! nat e" and ?col = "cd ! nat e"
  have K: "0 \<le> K" "K \<le> 2147483647" and N: "0 \<le> N" and M: "0 \<le> M"
    using ok unfolding bw_ok_def by blast+
  have ent: "\<And>e. 0 \<le> e \<Longrightarrow> e < E \<Longrightarrow>
        0 \<le> rd ! nat e \<and> rd ! nat e < M \<and> 0 \<le> cd ! nat e \<and> cd ! nat e < N"
    using ok unfolding bw_ok_def by blast
  from ent [OF e] have rc: "0 \<le> ?row" "?row < M" "0 \<le> ?col" "?col < N"
    by blast+
  have lr: "int (length rd) = E" "E \<le> int (length cd)"
    using ok unfolding bw_ok_def by blast+
  have r1: "read_at rd e = Inr ?row" "read_at cd e = Inr ?col"
    using lr e by (simp_all add: read_at_in_range)
  have lm: "B * N * K \<le> int (length md)" and lg: "B * M * K \<le> int (length gd)"
    using ok unfolding bw_ok_def by blast+
  have dot: "for_loop 0 K (\<lambda>k val.
                 bind_err (read_at md (b * N * K + ?col * K + k)) (\<lambda>x.
                 bind_err (read_at gd (b * M * K + ?row * K + k)) (\<lambda>g.
                   Inr (val + x * g)))) 0 = Inr (bw_dot md gd M N K b ?row ?col)"
    unfolding bw_dot_def
  proof (rule dot_loop_ok [OF K])
    fix k assume k: "0 \<le> k" "k < K"
    from batch_index_bound [OF b rc(3,4) k K(1) N] batch_index_bound [OF b rc(1,2) k K(1) M] lm lg
    show "0 \<le> b * N * K + ?col * K + k \<and> b * N * K + ?col * K + k < int (length md) \<and>
          0 \<le> b * M * K + ?row * K + k \<and> b * M * K + ?row * K + k < int (length gd)"
      by simp
  qed
  have nrm: "(if R = MEAN_R then normalize sg rp ?row (bw_dot md gd M N K b ?row ?col)
              else Inr (bw_dot md gd M N K b ?row ?col))
             = Inr (bw_term sg R rd rp cd md gd M N K b e)"
  proof (cases "R = MEAN_R")
    case True
    with ok have mn: "int (length rp) = M + 1"
      "\<And>e. 0 \<le> e \<Longrightarrow> e < E \<Longrightarrow>
           sval sg (mean_divisor sg (rp ! nat (rd ! nat e)) (rp ! nat (rd ! nat e + 1)) :: 'w word) \<noteq> 0"
      unfolding bw_ok_def by blast+
    from mn(1) rc have "?row + 1 < int (length rp)" by simp
    from normalize_ok [OF rc(1) this mn(2) [OF e]] True show ?thesis
      by (simp add: bw_term_def)
  next
    case False
    then show ?thesis by (simp add: bw_term_def bw_norm_def)
  qed
  have r2: "read_at out e = Inr (out ! nat e)"
    using e len by (intro read_at_in_range) auto
  have st: "store_at out e v = Inr (out[nat e := v])" for v
    using e len by (intro store_at_in_range) auto
  show ?thesis
    unfolding val_bw_entry_def by (simp only: r1 bind_err_Inr dot nrm r2 st)
qed

lemma val_bw_batch_ok:
  fixes md gd out :: "'w::len word list"
  assumes ok: "bw_ok sg R rd rp cd md gd B E M N K"
    and b: "0 \<le> b" "b < B"
    and len: "int (length out) = E"
  shows "\<exists>out'. for_loop 0 E (\<lambda>e. val_bw_entry sg R rd rp cd md gd M N K b e) out = Inr out' \<and>
           length out' = length out \<and>
           (\<forall>e. 0 \<le> e \<longrightarrow> e < E \<longrightarrow>
              out' ! nat e = out ! nat e + bw_term sg R rd rp cd md gd M N K b e)"
proof -
  let ?t = "bw_term sg R rd rp cd md gd M N K b"
  let ?I = "\<lambda>j t. length t = length out \<and>
     (\<forall>e. 0 \<le> e \<longrightarrow> e < j \<longrightarrow> t ! nat e = out ! nat e + ?t e) \<and>
     (\<forall>e. j \<le> e \<longrightarrow> e < E \<longrightarrow> t ! nat e = out ! nat e)"
  have E: "0 \<le> E" "E \<le> 2147483647"
    using ok len unfolding bw_ok_def by linarith+
  have "\<exists>t. for_loop 0 E (\<lambda>e. val_bw_entry sg R rd rp cd md gd M N K b e) out = Inr t \<and> ?I E t"
  proof (rule for_loop_rule [where I = ?I])
    show "0 \<le> E" "E \<le> 2147483647" by fact+
    show "?I 0 out" by simp
  next
    fix j t assume j: "0 \<le> j" "j < E" and I: "?I j t"
    from I len have lt: "int (length t) = E" by simp
    let ?t' = "t[nat j := t ! nat j + ?t j]"
    have run: "val_bw_entry sg R rd rp cd md gd M N K b j t = Inr ?t'"
      by (rule val_bw_entry_ok [OF ok b j lt])
    have jl: "nat j < length t" using j lt by linarith
    have cur: "t ! nat j = out ! nat j" using I j by simp
    have "?I (j + 1) ?t'"
      using I j jl cur by (auto simp: nth_list_update eq_nat_nat_iff)
    with run show "\<exists>t'. val_bw_entry sg R rd rp cd md gd M N K b j t = Inr t' \<and> ?I (j + 1) t'"
      by blast
  qed
  then show ?thesis by auto
qed

lemma val_bw_loops_ok:
  fixes md gd out :: "'w::len word list"
  assumes ok: "bw_ok sg R rd rp cd md gd B E M N K"
    and len: "int (length out) = E"
    and zero: "\<And>e. 0 \<le> e \<Longrightarrow> e < E \<Longrightarrow> out ! nat e = 0"
  shows "\<exists>out'. for_loop 0 B (\<lambda>b. for_loop 0 E (\<lambda>e. val_bw_entry sg R rd rp cd md gd M N K b e)) out
             = Inr out' \<and>
           length out' = length out \<and>
           (\<forall>e. 0 \<le> e \<longrightarrow> e < E \<longrightarrow>
              out' ! nat e = (\<Sum>b = 0..<B. bw_term sg R rd rp cd md gd M N K b e))"
proof -
  let ?t = "bw_term sg R rd rp cd md gd M N K"
  let ?I = "\<lambda>b t. length t = length out \<and>
     (\<forall>e. 0 \<le> e \<longrightarrow> e < E \<longrightarrow> t ! nat e = (\<Sum>b' = 0..<b. ?t b' e))"
  have B: "0 \<le> B" "B \<le> 2147483647"
    using ok unfolding bw_ok_def by blast+
  show ?thesis
  proof (rule for_loop_rule [where I = ?I])
    show "0 \<le> B" "B \<le> 2147483647" by fact+
    show "?I 0 out" using zero by simp
  next
    fix b t assume b: "0 \<le> b" "b < B" and I: "?I b t"
    from I len have lt: "int (length t) = E" by simp
    from val_bw_batch_ok [OF ok b lt]
    obtain t' where run: "for_loop 0 E (\<lambda>e. val_bw_entry sg R rd rp cd md gd M N K b e) t = Inr t'"
      and l: "length t' = length t"
      and v: "\<And>e. 0 \<le> e \<Longrightarrow> e < E \<Longrightarrow> t' ! nat e = t ! nat e + ?t b e"
      by blast
    have "?I (b + 1) t'"
      using I l v b(1) by (simp add: sum_int_snoc)
    with run show "\<exists>t'. for_loop 0 E (\<lambda>e. val_bw_entry sg R rd rp cd md gd M N K b e) t = Inr t' \<and>
                     ?I (b + 1) t'"
      by blast
  qed
qed

lemma bw_dot_entry_dot:
  assumes "dim_K grad = dim_K mat"
  shows "bw_dot (data mat) (data grad) (dim_N grad) (dim_N mat) (dim_K mat) b (data row ! nat e)
           (data col ! nat e) = entry_dot row col mat grad b e"
  unfolding bw_dot_def entry_dot_def dense_at_def assms ..

lemma val_bw_wf_bw_ok:
  fixes mat grad :: "'w::len word tensor"
  assumes wf: "val_bw_wf row rowptr col mat grad"
    and dv: "R = MEAN_R \<Longrightarrow> \<forall>r \<in> set (data row).
               sval sg (mean_divisor sg (data rowptr ! nat r) (data rowptr ! nat (r + 1)) :: 'w word) \<noteq> 0"
  shows "bw_ok sg R (data row) (data rowptr) (data col) (data mat) (data grad)
           (dim_B mat) (numel row) (dim_N grad) (dim_N mat) (dim_K mat)"
proof -
  have r: "2 \<le> length (sizes mat)" and nk: "0 < dim_N mat * dim_K mat"
    using wf by (simp_all add: val_bw_wf_def)
  note d = dims_of_shape [OF r nk]
  have N0: "0 \<le> dim_N mat" and K0: "0 \<le> dim_K mat" and M0: "0 \<le> dim_N grad"
    by (simp_all add: dim_N_def dim_K_def)
  have st: "int (length (data row)) = numel row" "int (length (data col)) = numel row"
    "int (length (data mat)) = numel mat" "int (length (data grad)) = numel grad"
    "int (length (data rowptr)) = dim_N grad + 1"
    using wf by (simp_all add: val_bw_wf_def storage_ok_def numel_def)
  have bd: "numel mat < 2147483648" "dim_K mat < 2147483648" "numel row < 2147483648"
    and ng: "numel grad = dim_B mat * dim_N grad * dim_K mat"
    using wf by (simp_all add: val_bw_wf_def)
  have "dim_B mat * 1 \<le> dim_B mat * (dim_N mat * dim_K mat)"
    using d(3) nk by (intro mult_left_mono) auto
  with d(1) bd(1) have Bb: "dim_B mat \<le> 2147483647" by (simp add: mult.assoc)
  have ent: "0 \<le> data row ! nat e \<and> data row ! nat e < dim_N grad \<and>
             0 \<le> data col ! nat e \<and> data col ! nat e < dim_N mat"
    if "0 \<le> e" "e < numel row" for e
  proof -
    have "data row ! nat e \<in> set (data row)" "data col ! nat e \<in> set (data col)"
      using that st by simp_all
    then show ?thesis using wf by (simp add: val_bw_wf_def)
  qed
  have mean: "sval sg (mean_divisor sg (data rowptr ! nat (data row ! nat e))
                      (data rowptr ! nat (data row ! nat e + 1)) :: 'w word) \<noteq> 0"
    if "R = MEAN_R" "0 \<le> e" "e < numel row" for e
  proof -
    have "data row ! nat e \<in> set (data row)" using that st by simp
    with dv [OF that(1)] show ?thesis by blast
  qed
  show ?thesis
    unfolding bw_ok_def
    using d(1,3) N0 K0 M0 Bb bd st ng ent mean by simp
qed

lemma val_bw_result:
  fixes mat grad :: "'w::len word tensor"
  assumes wf: "val_bw_wf row rowptr col mat grad"
    and red: "reduce2REDUCE reduce = Some R"
    and dv: "R = MEAN_R \<Longrightarrow> \<forall>r \<in> set (data row).
               sval sg (mean_divisor sg (data rowptr ! nat r) (data rowptr ! nat (r + 1)) :: 'w word) \<noteq> 0"
  shows "\<exists>out. spmm_val_bw sg row rowptr col mat grad reduce = Inr out \<and>
           sizes out = [nat (numel row)] \<and> int (length (data out)) = numel row \<and>
           (\<forall>e. 0 \<le> e \<longrightarrow> e < numel row \<longrightarrow>
              data out ! nat e =
                (\<Sum>b = 0..<dim_B mat.
                   bw_norm sg R (data rowptr) (data row ! nat e) (entry_dot row col mat grad b e)))"
proof -
  have r: "2 \<le> length (sizes mat)" "2 \<le> length (sizes grad)"
    and nk0: "0 < dim_N mat * dim_K mat"
    and kk: "dim_K grad = dim_K mat"
    and c: "\<not> is_cuda row" "\<not> is_cuda rowptr" "\<not> is_cuda col" "\<not> is_cuda mat" "\<not> is_cuda grad"
    using wf by (simp_all add: val_bw_wf_def)
  have nk: "dim_N mat * dim_K mat \<noteq> 0" using nk0 by linarith
  have E0: "0 \<le> numel row" by (simp add: numel_def)
  note ok = val_bw_wf_bw_ok [OF wf dv]
  let ?out0 = "replicate (nat (numel row)) (0 :: 'w word)"
  have len: "int (length ?out0) = numel row" using E0 by simp
  have zero: "?out0 ! nat e = 0" if "0 \<le> e" "e < numel row" for e
    using that by simp
  from val_bw_loops_ok [OF ok len zero]
  obtain out' where
    run: "for_loop 0 (dim_B mat) (\<lambda>b. for_loop 0 (numel row) (\<lambda>e.
            val_bw_entry sg R (data row) (data rowptr) (data col) (data mat) (data grad)
              (dim_N grad) (dim_N mat) (dim_K mat) b e)) ?out0 = Inr out'"
    and l: "length out' = length ?out0"
    and v: "\<And>e. 0 \<le> e \<Longrightarrow> e < numel row \<Longrightarrow>
              out' ! nat e = (\<Sum>b = 0..<dim_B mat.
                 bw_term sg R (data row) (data rowptr) (data col) (data mat) (data grad)
                   (dim_N grad) (dim_N mat) (dim_K mat) b e)"
    by blast
  note run' = run [unfolded dim_B_def]
  have "spmm_val_bw sg row rowptr col mat grad reduce =
          Inr \<lparr>is_cuda = False, sizes = [nat (numel row)], data = out'\<rparr>"
    unfolding spmm_val_bw_def
    by (simp only: c if_False size_at_last_two [OF r(1)] size_at_last_two [OF r(2)] nk Let_def
        bind_err_Inr reduce_at_Some [OF red] run')
  moreover have "int (length out') = numel row" using l len by simp
  moreover have "out' ! nat e =
      (\<Sum>b = 0..<dim_B mat.
         bw_norm sg R (data rowptr) (data row ! nat e) (entry_dot row col mat grad b e))"
    if "0 \<le> e" "e < numel row" for e
    using v [OF that] by (simp only: bw_term_def bw_dot_entry_dot [OF kk])
  ultimately show ?thesis by simp
qed

section \<open>The claims\<close>

subsection \<open>Sum\<close>

lemma fst_foldl_update_sum:
  assumes "R = SUM_R \<or> R = MEAN_R"
  shows "fst (foldl (\<lambda>va e. update sg R va (f e) e) (v, a) es) = v + sum_list (map f es)"
  using assms
proof (induction es arbitrary: v a)
  case Nil
  show ?case by simp
next
  case (Cons e es)
  have "update sg R (v, a) (f e) e = (v + f e, a)"
    using Cons.prems by (auto simp: update_def)
  with Cons.IH [OF Cons.prems, of "v + f e" a] show ?case
    by (simp add: add.assoc)
qed

lemma sum_int_interval: "(\<Sum>e = rs..<re. f e) = sum_list (map f [rs..re - 1])"
proof -
  have "{rs..<re} = set [rs..re - 1]" by auto
  then show ?thesis by (simp only: sum.distinct_set_conv_list [OF distinct_upto])
qed

lemma row_acc_sum:
  assumes "R = SUM_R \<or> R = MEAN_R"
  shows "fst (row_acc sg R f (v, a) rs re) = v + (\<Sum>e = rs..<re. f e)"
proof -
  show ?thesis
    unfolding row_acc_def sum_int_interval by (rule fst_foldl_update_sum [OF assms])
qed

lemma reduce2REDUCE_sum: "reduce = ''sum'' \<or> reduce = ''add'' \<Longrightarrow> reduce2REDUCE reduce = Some SUM_R"
  by (auto simp: reduce2REDUCE_def)

text \<open>
  C1. With the reduction \<open>sum\<close> (or \<open>add\<close>), on well-formed inputs, the kernel returns an
  output and no index tensor, and for every batch \<open>b\<close>, row \<open>m\<close> and feature \<open>k\<close> the
  output element \<open>[b, m, k]\<close> is the sum, over the entries \<open>e\<close> of row \<open>m\<close>, of
  \<open>weight e * dense[b, col[e], k]\<close>; a row without entries gives 0. Sums and products
  are those of the element type.
\<close>

theorem spmm_sum_rows:
  fixes mat :: "'w::len word tensor"
  assumes wf: "spmm_wf rowptr col value_opt mat"
    and red: "reduce = ''sum'' \<or> reduce = ''add''"
  shows "\<exists>out. spmm sg junk rowptr col value_opt mat reduce = Inr (out, None) \<and>
     (\<forall>b m k. 0 \<le> b \<longrightarrow> b < dim_B mat \<longrightarrow> 0 \<le> m \<longrightarrow> m < dim_M rowptr \<longrightarrow>
              0 \<le> k \<longrightarrow> k < dim_K mat \<longrightarrow>
        data out ! out_index rowptr mat b m k =
          (\<Sum>e = data rowptr ! nat m ..< data rowptr ! nat (m + 1).
             weight value_opt e * dense_at mat b (data col ! nat e) k) \<and>
        (degree rowptr m = 0 \<longrightarrow> data out ! out_index rowptr mat b m k = 0))"
proof -
  from spmm_result [OF wf reduce2REDUCE_sum [OF red], of sg junk]
  obtain out ao where run: "spmm sg junk rowptr col value_opt mat reduce = Inr (out, ao)"
    and v: "\<And>b m k. 0 \<le> b \<Longrightarrow> b < dim_B mat \<Longrightarrow> 0 \<le> m \<Longrightarrow> m < dim_M rowptr \<Longrightarrow>
              0 \<le> k \<Longrightarrow> k < dim_K mat \<Longrightarrow>
        data out ! out_index rowptr mat b m k =
          written_value sg SUM_R (fst (row_reduce sg SUM_R rowptr col value_opt mat 0 b m k)) (degree rowptr m)"
    and none: "ao = None"
    by auto
  have s: "written_value sg SUM_R (fst (row_reduce sg SUM_R rowptr col value_opt mat 0 b m k)) (degree rowptr m)
      = (\<Sum>e = data rowptr ! nat m ..< data rowptr ! nat (m + 1).
             weight value_opt e * dense_at mat b (data col ! nat e) k)" for b m k
    by (simp add: written_value_def row_reduce_def row_acc_sum init_def contribution_def)
  have z: "(\<Sum>e = data rowptr ! nat m ..< data rowptr ! nat (m + 1).
             weight value_opt e * dense_at mat b (data col ! nat e) k) = 0"
    if "degree rowptr m = 0" for b m k
    using that by (simp add: degree_def)
  show ?thesis
    using run none v s z by (intro exI [of _ out]) simp
qed

lemma ex_wf: "spmm_wf ex_rowptr ex_col (Some ex_value) ex_mat"
  by (simp add: spmm_wf_def ex_rowptr_def ex_col_def ex_value_def ex_mat_def storage_ok_def
      numel_def dim_N_def dim_K_def dim_B_def dim_M_def)

theorem spmm_sum_rows_witness:
  "spmm_wf ex_rowptr ex_col (Some ex_value) ex_mat \<and>
   (\<exists>out. spmm Signed (\<lambda>_. 0) ex_rowptr ex_col (Some ex_value) ex_mat ''sum'' = Inr (out, None) \<and>
      data out ! 0 = 1 * 5 + 2 * 7 \<and> data out ! 1 = 3 * 5)"
proof -
  have wf: "spmm_wf ex_rowptr ex_col (Some ex_value) ex_mat" by (rule ex_wf)
  from spmm_sum_rows [OF wf, of "''sum''" Signed "\<lambda>_. 0"]
  obtain out where run: "spmm Signed (\<lambda>_. 0) ex_rowptr ex_col (Some ex_value) ex_mat ''sum'' = Inr (out, None)"
    and v: "\<And>b m k. 0 \<le> b \<Longrightarrow> b < dim_B ex_mat \<Longrightarrow> 0 \<le> m \<Longrightarrow> m < dim_M ex_rowptr \<Longrightarrow>
              0 \<le> k \<Longrightarrow> k < dim_K ex_mat \<Longrightarrow>
        data out ! out_index ex_rowptr ex_mat b m k =
          (\<Sum>e = data ex_rowptr ! nat m ..< data ex_rowptr ! nat (m + 1).
             weight (Some ex_value) e * dense_at ex_mat b (data ex_col ! nat e) k)"
    by auto
  have d: "dim_B ex_mat = 1" "dim_M ex_rowptr = 2" "dim_K ex_mat = 1" "dim_N ex_mat = 2"
    by (simp_all add: ex_rowptr_def ex_mat_def numel_def dim_N_def dim_K_def dim_B_def dim_M_def)
  have "data out ! 0 = 1 * 5 + 2 * 7"
    using v [of 0 0 0, unfolded d out_index_def dense_at_def weight_def sum_int_interval]
    by (simp add: ex_rowptr_def ex_col_def ex_value_def ex_mat_def upto_rec1)
  moreover have "data out ! 1 = 3 * 5"
    using v [of 0 1 0, unfolded d out_index_def dense_at_def weight_def sum_int_interval]
    by (simp add: ex_rowptr_def ex_col_def ex_value_def ex_mat_def upto_rec1)
  ultimately show ?thesis using wf run by blast
qed

subsection \<open>The reduction token\<close>

lemma reduce_at_sum_add: "reduce_at ''sum'' = Inr SUM_R" "reduce_at ''add'' = Inr SUM_R"
  by (simp_all add: reduce_at_def reduce2REDUCE_def)

text \<open>
  C7. On the same inputs, the tokens \<open>sum\<close> and \<open>add\<close> give the same result, whether it
  is an output or an error.
\<close>

theorem spmm_sum_add_identical:
  "spmm sg junk rowptr col value_opt mat ''sum'' = spmm sg junk rowptr col value_opt mat ''add''"
  unfolding spmm_def by (simp only: reduce_at_sum_add)

theorem spmm_sum_add_identical_witness:
  "spmm Signed (\<lambda>_. 0) ex_rowptr ex_col (Some ex_value) ex_mat ''sum'' =
   spmm Signed (\<lambda>_. 0) ex_rowptr ex_col (Some ex_value) ex_mat ''add''"
  by (rule spmm_sum_add_identical)

lemma reduce_at_unknown:
  "reduce \<notin> {''sum'', ''add'', ''mean'', ''min'', ''max''} \<Longrightarrow> reduce_at reduce = Inl OutOfRange"
  by (simp add: reduce_at_def reduce2REDUCE_def)

lemma spmm_unknown:
  assumes "reduce_at reduce = Inl OutOfRange"
  shows "\<exists>e. spmm sg junk rowptr col value_opt mat reduce = Inl e"
    and "spmm_passes_checks rowptr col value_opt mat \<Longrightarrow>
           spmm sg junk rowptr col value_opt mat reduce = Inl OutOfRange"
  unfolding spmm_def spmm_passes_checks_def
  by (auto simp: assms Let_def split: option.splits)

lemma val_bw_unknown:
  assumes "reduce_at reduce = Inl OutOfRange"
  shows "\<exists>e. spmm_val_bw sg row rowptr col mat grad reduce = Inl e"
    and "val_bw_passes_checks row rowptr col mat grad \<Longrightarrow>
           spmm_val_bw sg row rowptr col mat grad reduce = Inl OutOfRange"
proof -
  show "\<exists>e. spmm_val_bw sg row rowptr col mat grad reduce = Inl e"
    unfolding spmm_val_bw_def
    by (cases "size_at grad (- 2)"; cases "size_at mat (- 2)"; cases "size_at mat (- 1)")
       (simp_all add: assms Let_def)
  assume "val_bw_passes_checks row rowptr col mat grad"
  then have c: "\<not> is_cuda row" "\<not> is_cuda rowptr" "\<not> is_cuda col" "\<not> is_cuda mat" "\<not> is_cuda grad"
    and r: "2 \<le> length (sizes grad)" "2 \<le> length (sizes mat)"
    and nk: "dim_N mat * dim_K mat \<noteq> 0"
    by (auto simp: val_bw_passes_checks_def dim_def)
  show "spmm_val_bw sg row rowptr col mat grad reduce = Inl OutOfRange"
    unfolding spmm_val_bw_def
    by (simp only: c if_False size_at_last_two [OF r(1)] size_at_last_two [OF r(2)] bind_err_Inr
        bind_err_Inl nk Let_def assms)
qed

text \<open>
  C5. A token other than \<open>sum\<close>, \<open>add\<close>, \<open>mean\<close>, \<open>min\<close>, \<open>max\<close> never yields a result:
  both operators end in an error, and when the checks ahead of the lookup pass, the
  error is the \<^verbatim>\<open>std::out_of_range\<close> of the lookup.
\<close>

theorem unknown_reduction_rejected:
  assumes "reduce \<notin> {''sum'', ''add'', ''mean'', ''min'', ''max''}"
  shows "(\<exists>e. spmm sg junk rowptr col value_opt mat reduce = Inl e) \<and>
         (spmm_passes_checks rowptr col value_opt mat \<longrightarrow>
            spmm sg junk rowptr col value_opt mat reduce = Inl OutOfRange) \<and>
         (\<exists>e. spmm_val_bw sg row rowptr col mat grad reduce = Inl e) \<and>
         (val_bw_passes_checks row rowptr col mat grad \<longrightarrow>
            spmm_val_bw sg row rowptr col mat grad reduce = Inl OutOfRange)"
proof -
  note r = reduce_at_unknown [OF assms]
  show ?thesis
    by (intro conjI impI spmm_unknown [OF r] val_bw_unknown [OF r])
qed

theorem unknown_reduction_rejected_witness:
  "''prod'' \<notin> {''sum'', ''add'', ''mean'', ''min'', ''max''} \<and>
   spmm_passes_checks ex_rowptr ex_col (Some ex_value) ex_mat \<and>
   val_bw_passes_checks ex_row ex_rowptr ex_col ex_mat ex_grad \<and>
   spmm Signed (\<lambda>_. 0) ex_rowptr ex_col (Some ex_value) ex_mat ''prod'' = Inl OutOfRange \<and>
   spmm_val_bw Signed ex_row ex_rowptr ex_col ex_mat ex_grad ''prod'' = Inl OutOfRange"
proof -
  have h: "''prod'' \<notin> {''sum'', ''add'', ''mean'', ''min'', ''max''}" by simp
  have p1: "spmm_passes_checks ex_rowptr ex_col (Some ex_value) ex_mat"
    by (simp add: spmm_passes_checks_def ex_rowptr_def ex_col_def ex_value_def ex_mat_def
        dim_def numel_def)
  have p2: "val_bw_passes_checks ex_row ex_rowptr ex_col ex_mat ex_grad"
    by (simp add: val_bw_passes_checks_def ex_row_def ex_rowptr_def ex_col_def ex_mat_def
        ex_grad_def dim_def dim_N_def dim_K_def)
  from unknown_reduction_rejected [OF h, where sg = Signed and junk = "\<lambda>_. 0"
      and rowptr = ex_rowptr and col = ex_col and value_opt = "Some ex_value" and mat = ex_mat
      and row = ex_row and grad = ex_grad] h p1 p2
  show ?thesis by blast
qed

subsection \<open>What the backward kernel checks\<close>

lemma for_loop_error:
  assumes "for_loop i n body s = Inl e"
    and "\<And>j t e. body j t = Inl e \<Longrightarrow> e = Undefined"
  shows "e = Undefined"
  using assms
proof (induction i n body s rule: for_loop.induct)
  case (1 i n body s)
  from 1(2) have lt: "i < n"
    by (subst (asm) for_loop.simps) (auto split: if_splits)
  show ?case
  proof (cases "body i s")
    case (Inl e')
    from 1(2) lt Inl have "e' = e"
      by (subst (asm) for_loop.simps) simp
    with 1(3) [of i s e'] Inl show ?thesis by simp
  next
    case (Inr s')
    show ?thesis
    proof (cases "i = 2147483647")
      case True
      from 1(2) lt Inr True show ?thesis
        by (subst (asm) for_loop.simps) simp
    next
      case False
      from 1(2) lt Inr False have "for_loop (i + 1) n body s' = Inl e"
        by (subst (asm) for_loop.simps) simp
      from 1(1) [OF lt Inr False this 1(3)] show ?thesis .
    qed
  qed
qed

lemma read_at_error: "read_at xs i = Inl e \<Longrightarrow> e = Undefined"
  by (simp add: read_at_def split: if_splits)

lemma store_at_error: "store_at xs i v = Inl e \<Longrightarrow> e = Undefined"
  by (simp add: store_at_def split: if_splits)

lemma bind_err_error:
  assumes "bind_err m f = Inl e"
    and "\<And>e. m = Inl e \<Longrightarrow> P e"
    and "\<And>x e. m = Inr x \<Longrightarrow> f x = Inl e \<Longrightarrow> P e"
  shows "P e"
  using assms by (cases m) auto

lemma normalize_error: "normalize sg rp r v = Inl e \<Longrightarrow> e = Undefined"
  unfolding normalize_def
  by (auto elim!: bind_err_error dest: read_at_error simp: Let_def split: if_splits)

lemma dot_loop_error:
  "for_loop 0 K (\<lambda>k val.
                 bind_err (read_at mat_data (f k)) (\<lambda>x.
                 bind_err (read_at grad_data (g k)) (\<lambda>y.
                   Inr (val + x * y)))) v = Inl e \<Longrightarrow> e = Undefined"
  by (erule for_loop_error) (auto elim!: bind_err_error dest: read_at_error)

lemma val_bw_entry_error:
  "val_bw_entry sg R rd rp cd md gd M N K b e' out = Inl e \<Longrightarrow> e = Undefined"
  unfolding val_bw_entry_def
  by (auto elim!: bind_err_error dest: read_at_error store_at_error normalize_error dot_loop_error
      split: if_splits)

lemma val_bw_loops_error:
  "for_loop 0 B (\<lambda>b. for_loop 0 E (\<lambda>e. val_bw_entry sg R rd rp cd md gd M N K b e)) out = Inl e
   \<Longrightarrow> e = Undefined"
  by (erule for_loop_error) (erule for_loop_error, erule val_bw_entry_error)

lemma size_at_error: "size_at t d = Inl e \<Longrightarrow> e = IndexError \<and> \<not> (- dim t \<le> d \<and> d < dim t)"
  by (simp add: size_at_def split: if_splits)

lemma reduce_at_error:
  "reduce_at reduce = Inl e \<Longrightarrow>
     e = OutOfRange \<and> reduce \<notin> {''sum'', ''add'', ''mean'', ''min'', ''max''}"
  by (simp add: reduce_at_def reduce2REDUCE_def split: if_splits)

lemma val_bw_error_kinds:
  assumes "spmm_val_bw sg row rowptr col mat grad reduce = Inl e"
  shows "e = NotCPU \<and> (is_cuda row \<or> is_cuda rowptr \<or> is_cuda col \<or> is_cuda mat \<or> is_cuda grad) \<or>
         e = IndexError \<and> (dim grad < 2 \<or> dim mat < 2) \<or>
         e = OutOfRange \<and> reduce \<notin> {''sum'', ''add'', ''mean'', ''min'', ''max''} \<or>
         e = Undefined"
proof (cases "is_cuda row \<or> is_cuda rowptr \<or> is_cuda col \<or> is_cuda mat \<or> is_cuda grad")
  case True
  with assms show ?thesis by (auto simp: spmm_val_bw_def split: if_splits)
next
  case False
  with assms have run: "bind_err (size_at grad (- 2)) (\<lambda>M.
        bind_err (size_at mat (- 2)) (\<lambda>N.
        bind_err (size_at mat (- 1)) (\<lambda>K.
          if N * K = 0 then Inl Undefined
          else
            bind_err (reduce_at reduce) (\<lambda>REDUCE.
            bind_err
              (for_loop 0 (numel mat div (N * K)) (\<lambda>b.
                 for_loop 0 (numel row) (\<lambda>e.
                   val_bw_entry sg REDUCE (data row) (data rowptr) (data col) (data mat)
                     (data grad) M N K b e))
                 (replicate (nat (numel row)) 0))
              (\<lambda>out'. Inr \<lparr>is_cuda = False, sizes = [nat (numel row)], data = out'\<rparr>))))) = Inl e"
    by (simp add: spmm_val_bw_def Let_def cong: if_cong)
  show ?thesis
  proof (cases "size_at grad (- 2)")
    case (Inl e1)
    with run size_at_error [OF Inl] show ?thesis by auto
  next
    case M: (Inr M)
    show ?thesis
    proof (cases "size_at mat (- 2)")
      case (Inl e1)
      with run M size_at_error [OF Inl] show ?thesis by auto
    next
      case N: (Inr N)
      show ?thesis
      proof (cases "size_at mat (- 1)")
        case (Inl e1)
        with run M N size_at_error [OF Inl] show ?thesis by auto
      next
        case K: (Inr K)
        show ?thesis
        proof (cases "N * K = 0")
          case True
          with run M N K show ?thesis by simp
        next
          case nz: False
          show ?thesis
          proof (cases "reduce_at reduce")
            case (Inl e1)
            with run M N K nz reduce_at_error [OF Inl] show ?thesis by simp
          next
            case (Inr R)
            with run M N K nz have
              "bind_err
                (for_loop 0 (numel mat div (N * K)) (\<lambda>b.
                   for_loop 0 (numel row) (\<lambda>e.
                     val_bw_entry sg R (data row) (data rowptr) (data col) (data mat)
                       (data grad) M N K b e))
                   (replicate (nat (numel row)) 0))
                (\<lambda>out'. Inr \<lparr>is_cuda = False, sizes = [nat (numel row)], data = out'\<rparr>) = Inl e"
              by simp
            then have "e = Undefined"
              by (rule bind_err_error) (erule val_bw_loops_error, simp)
            then show ?thesis by simp
          qed
        qed
      qed
    qed
  qed
qed

lemma val_bw_rank_rejected:
  assumes "\<not> is_cuda row" "\<not> is_cuda rowptr" "\<not> is_cuda col" "\<not> is_cuda mat" "\<not> is_cuda grad"
    and "dim grad < 2 \<or> dim mat < 2"
  shows "spmm_val_bw sg row rowptr col mat grad reduce = Inl IndexError"
proof (cases "dim grad < 2")
  case True
  then have "size_at grad (- 2) = Inl IndexError" by (simp add: size_at_def)
  with assms show ?thesis by (simp add: spmm_val_bw_def)
next
  case False
  with assms have "dim mat < 2" by simp
  then have m: "size_at mat (- 2) = Inl IndexError" by (simp add: size_at_def)
  from False obtain M where "size_at grad (- 2) = Inr M" by (simp add: size_at_def)
  with m assms show ?thesis by (simp add: spmm_val_bw_def)
qed

text \<open>
  C6, as the specification states it, fails: inputs whose shapes disagree (two column
  indices for one row index, a row pointer of four elements for one row) are accepted,
  and the kernel returns a gradient.
\<close>

theorem val_bw_accepts_mismatch:
  "\<not> spec_val_bw_shapes_ok bad_row bad_rowptr bad_col bad_mat bad_grad \<and>
   spmm_val_bw Signed bad_row bad_rowptr bad_col bad_mat bad_grad ''sum'' =
     Inr \<lparr>is_cuda = False, sizes = [1], data = [6]\<rparr>"
proof
  show "\<not> spec_val_bw_shapes_ok bad_row bad_rowptr bad_col bad_mat bad_grad"
    by (simp add: spec_val_bw_shapes_ok_def bad_row_def bad_col_def numel_def)
  show "spmm_val_bw Signed bad_row bad_rowptr bad_col bad_mat bad_grad ''sum'' =
     Inr \<lparr>is_cuda = False, sizes = [1], data = [6]\<rparr>"
    unfolding bad_row_def bad_rowptr_def bad_col_def bad_mat_def bad_grad_def
    by code_simp
qed

lemma val_bw_not_cpu:
  assumes "is_cuda row \<or> is_cuda rowptr \<or> is_cuda col \<or> is_cuda mat \<or> is_cuda grad"
  shows "spmm_val_bw sg row rowptr col mat grad reduce = Inl NotCPU"
  using assms by (auto simp: spmm_val_bw_def)

lemma val_bw_empty_dense:
  assumes "\<not> is_cuda row" "\<not> is_cuda rowptr" "\<not> is_cuda col" "\<not> is_cuda mat" "\<not> is_cuda grad"
    and r: "2 \<le> dim grad" "2 \<le> dim mat"
    and nk: "dim_N mat * dim_K mat = 0"
  shows "spmm_val_bw sg row rowptr col mat grad reduce = Inl Undefined"
proof -
  from r have l: "2 \<le> length (sizes grad)" "2 \<le> length (sizes mat)" by (simp_all add: dim_def)
  show ?thesis
    unfolding spmm_val_bw_def
    by (simp only: assms(1-5) if_False size_at_last_two [OF l(1)] size_at_last_two [OF l(2)]
        bind_err_Inr nk Let_def refl if_True)
qed

lemma val_bw_out_of_range_iff:
  "spmm_val_bw sg row rowptr col mat grad reduce = Inl OutOfRange \<longleftrightarrow>
     val_bw_passes_checks row rowptr col mat grad \<and>
     reduce \<notin> {''sum'', ''add'', ''mean'', ''min'', ''max''}"
proof
  assume run: "spmm_val_bw sg row rowptr col mat grad reduce = Inl OutOfRange"
  from val_bw_error_kinds [OF run]
  have tok: "reduce \<notin> {''sum'', ''add'', ''mean'', ''min'', ''max''}" by simp
  have cpu: "\<not> (is_cuda row \<or> is_cuda rowptr \<or> is_cuda col \<or> is_cuda mat \<or> is_cuda grad)"
    using val_bw_not_cpu [of row rowptr col mat grad sg reduce] run by auto
  have rk: "\<not> (dim grad < 2 \<or> dim mat < 2)"
    using val_bw_rank_rejected [of row rowptr col mat grad sg reduce] cpu run by auto
  have "dim_N mat * dim_K mat \<noteq> 0"
    using val_bw_empty_dense [of row rowptr col mat grad sg reduce] cpu rk run by auto
  with cpu rk tok
  show "val_bw_passes_checks row rowptr col mat grad \<and>
     reduce \<notin> {''sum'', ''add'', ''mean'', ''min'', ''max''}"
    by (simp add: val_bw_passes_checks_def)
next
  assume "val_bw_passes_checks row rowptr col mat grad \<and>
     reduce \<notin> {''sum'', ''add'', ''mean'', ''min'', ''max''}"
  then show "spmm_val_bw sg row rowptr col mat grad reduce = Inl OutOfRange"
    using val_bw_unknown(2) [OF reduce_at_unknown] by blast
qed

text \<open>
  C6, amended. The backward kernel checks the device of its five tensors and nothing
  else of its own. On index tensors of type \<^verbatim>\<open>int64_t\<close> and a dense operand and a
  gradient of one integral element type, it ends in an exception in exactly three cases,
  each before any computation: a tensor is not on the CPU; all are on the CPU and the
  gradient or the dense operand has rank below 2 (the exception of \<^verbatim>\<open>Tensor::size\<close>);
  all are on the CPU, the two ranks are at least 2, \<open>N * K\<close> of the dense operand is not
  0 and the reduction token is unknown (the exception of the lookup). No other exception
  is raised: shapes that disagree are not rejected. Where \<open>N * K\<close> is 0, the division
  of line 194 is undefined, whatever the token.
\<close>

theorem val_bw_exceptions:
  "(spmm_val_bw sg row rowptr col mat grad reduce = Inl NotCPU \<longleftrightarrow>
      is_cuda row \<or> is_cuda rowptr \<or> is_cuda col \<or> is_cuda mat \<or> is_cuda grad) \<and>
   (spmm_val_bw sg row rowptr col mat grad reduce = Inl IndexError \<longleftrightarrow>
      \<not> is_cuda row \<and> \<not> is_cuda rowptr \<and> \<not> is_cuda col \<and> \<not> is_cuda mat \<and> \<not> is_cuda grad \<and>
      (dim grad < 2 \<or> dim mat < 2)) \<and>
   (spmm_val_bw sg row rowptr col mat grad reduce = Inl OutOfRange \<longleftrightarrow>
      \<not> is_cuda row \<and> \<not> is_cuda rowptr \<and> \<not> is_cuda col \<and> \<not> is_cuda mat \<and> \<not> is_cuda grad \<and>
      2 \<le> dim grad \<and> 2 \<le> dim mat \<and> dim_N mat * dim_K mat \<noteq> 0 \<and>
      reduce \<notin> {''sum'', ''add'', ''mean'', ''min'', ''max''}) \<and>
   spmm_val_bw sg row rowptr col mat grad reduce \<noteq> Inl InputMismatch \<and>
   spmm_val_bw sg row rowptr col mat grad reduce \<noteq> Inl NegativeDimension \<and>
   (\<not> is_cuda row \<and> \<not> is_cuda rowptr \<and> \<not> is_cuda col \<and> \<not> is_cuda mat \<and> \<not> is_cuda grad \<and>
      2 \<le> dim grad \<and> 2 \<le> dim mat \<and> dim_N mat * dim_K mat = 0 \<longrightarrow>
      spmm_val_bw sg row rowptr col mat grad reduce = Inl Undefined)"
proof (intro conjI)
  let ?run = "spmm_val_bw sg row rowptr col mat grad reduce"
  let ?cuda = "is_cuda row \<or> is_cuda rowptr \<or> is_cuda col \<or> is_cuda mat \<or> is_cuda grad"
  show "?run = Inl NotCPU \<longleftrightarrow> ?cuda"
    using val_bw_error_kinds [of sg row rowptr col mat grad reduce NotCPU]
      val_bw_not_cpu [of row rowptr col mat grad sg reduce]
    by blast
  show "?run = Inl IndexError \<longleftrightarrow>
      \<not> is_cuda row \<and> \<not> is_cuda rowptr \<and> \<not> is_cuda col \<and> \<not> is_cuda mat \<and> \<not> is_cuda grad \<and>
      (dim grad < 2 \<or> dim mat < 2)"
  proof
    assume run: "?run = Inl IndexError"
    from val_bw_error_kinds [OF run] have "dim grad < 2 \<or> dim mat < 2" by simp
    moreover have "\<not> ?cuda"
      using val_bw_not_cpu [of row rowptr col mat grad sg reduce] run by auto
    ultimately show "\<not> is_cuda row \<and> \<not> is_cuda rowptr \<and> \<not> is_cuda col \<and> \<not> is_cuda mat \<and>
      \<not> is_cuda grad \<and> (dim grad < 2 \<or> dim mat < 2)"
      by simp
  next
    assume "\<not> is_cuda row \<and> \<not> is_cuda rowptr \<and> \<not> is_cuda col \<and> \<not> is_cuda mat \<and>
      \<not> is_cuda grad \<and> (dim grad < 2 \<or> dim mat < 2)"
    then show "?run = Inl IndexError"
      using val_bw_rank_rejected [of row rowptr col mat grad sg reduce] by blast
  qed
  show "?run = Inl OutOfRange \<longleftrightarrow>
      \<not> is_cuda row \<and> \<not> is_cuda rowptr \<and> \<not> is_cuda col \<and> \<not> is_cuda mat \<and> \<not> is_cuda grad \<and>
      2 \<le> dim grad \<and> 2 \<le> dim mat \<and> dim_N mat * dim_K mat \<noteq> 0 \<and>
      reduce \<notin> {''sum'', ''add'', ''mean'', ''min'', ''max''}"
    unfolding val_bw_out_of_range_iff val_bw_passes_checks_def by simp
  show "?run \<noteq> Inl InputMismatch"
    using val_bw_error_kinds [of sg row rowptr col mat grad reduce InputMismatch] by auto
  show "?run \<noteq> Inl NegativeDimension"
    using val_bw_error_kinds [of sg row rowptr col mat grad reduce NegativeDimension] by auto
  show "\<not> is_cuda row \<and> \<not> is_cuda rowptr \<and> \<not> is_cuda col \<and> \<not> is_cuda mat \<and> \<not> is_cuda grad \<and>
      2 \<le> dim grad \<and> 2 \<le> dim mat \<and> dim_N mat * dim_K mat = 0 \<longrightarrow> ?run = Inl Undefined"
    using val_bw_empty_dense [of row rowptr col mat grad sg reduce] by blast
qed

theorem val_bw_exceptions_witness:
  "spmm_val_bw Signed cuda_row bad_rowptr bad_col bad_mat bad_grad ''sum'' = Inl NotCPU \<and>
   spmm_val_bw Signed bad_row bad_rowptr bad_col flat_mat bad_grad ''sum'' = Inl IndexError \<and>
   spmm_val_bw Signed bad_row bad_rowptr bad_col bad_mat bad_grad ''prod'' = Inl OutOfRange \<and>
   spmm_val_bw Signed bad_row bad_rowptr bad_col empty_mat bad_grad ''prod'' = Inl Undefined \<and>
   spmm_val_bw Signed bad_row bad_rowptr bad_col bad_mat bad_grad ''sum'' \<noteq> Inl InputMismatch"
proof -
  have cpu: "\<not> is_cuda bad_row" "\<not> is_cuda bad_rowptr" "\<not> is_cuda bad_col" "\<not> is_cuda bad_mat"
    "\<not> is_cuda bad_grad" "\<not> is_cuda flat_mat" "\<not> is_cuda empty_mat" "is_cuda cuda_row"
    by (simp_all add: bad_row_def bad_rowptr_def bad_col_def bad_mat_def bad_grad_def flat_mat_def
        empty_mat_def cuda_row_def)
  have rk: "2 \<le> dim bad_grad" "2 \<le> dim bad_mat" "dim flat_mat < 2" "2 \<le> dim empty_mat"
    by (simp_all add: bad_mat_def bad_grad_def flat_mat_def empty_mat_def dim_def)
  have nk: "dim_N bad_mat * dim_K bad_mat \<noteq> 0" "dim_N empty_mat * dim_K empty_mat = 0"
    by (simp_all add: bad_mat_def empty_mat_def dim_N_def dim_K_def)
  have tok: "''prod'' \<notin> {''sum'', ''add'', ''mean'', ''min'', ''max''}" by simp
  have "spmm_val_bw Signed cuda_row bad_rowptr bad_col bad_mat bad_grad ''sum'' = Inl NotCPU"
    using val_bw_exceptions [where sg = Signed and row = cuda_row and rowptr = bad_rowptr
      and col = bad_col and mat = bad_mat and grad = bad_grad and reduce = "''sum''"] cpu
    by blast
  moreover have "spmm_val_bw Signed bad_row bad_rowptr bad_col flat_mat bad_grad ''sum'' = Inl IndexError"
    using val_bw_exceptions [where sg = Signed and row = bad_row and rowptr = bad_rowptr
      and col = bad_col and mat = flat_mat and grad = bad_grad and reduce = "''sum''"] cpu rk
    by blast
  moreover have "spmm_val_bw Signed bad_row bad_rowptr bad_col bad_mat bad_grad ''prod'' = Inl OutOfRange"
    using val_bw_exceptions [where sg = Signed and row = bad_row and rowptr = bad_rowptr
      and col = bad_col and mat = bad_mat and grad = bad_grad and reduce = "''prod''"] cpu rk nk tok
    by blast
  moreover have "spmm_val_bw Signed bad_row bad_rowptr bad_col empty_mat bad_grad ''prod'' = Inl Undefined"
    using val_bw_exceptions [where sg = Signed and row = bad_row and rowptr = bad_rowptr
      and col = bad_col and mat = empty_mat and grad = bad_grad and reduce = "''prod''"] cpu rk nk
    by blast
  moreover have "spmm_val_bw Signed bad_row bad_rowptr bad_col bad_mat bad_grad ''sum'' \<noteq> Inl InputMismatch"
    using val_bw_exceptions [where sg = Signed and row = bad_row and rowptr = bad_rowptr
      and col = bad_col and mat = bad_mat and grad = bad_grad and reduce = "''sum''"]
    by blast
  ultimately show ?thesis by blast
qed

subsection \<open>The row pointer in the backward kernel\<close>

lemma reduce_at_not_mean: "reduce \<noteq> ''mean'' \<Longrightarrow> reduce_at reduce = Inr R \<Longrightarrow> R \<noteq> MEAN_R"
  by (auto simp: reduce_at_def reduce2REDUCE_def split: if_splits)

lemma val_bw_entry_no_rowptr:
  "R \<noteq> MEAN_R \<Longrightarrow>
     val_bw_entry sg R rd rp cd md gd M N K b = val_bw_entry sg R rd rp' cd md gd M N K b"
  by (intro ext) (simp add: val_bw_entry_def)

text \<open>
  C9. For every token other than \<open>mean\<close>, the result of the backward kernel does not
  depend on the shape or the elements of \<open>rowptr\<close>: two calls that differ only there (the
  two row pointers on the same device) return the same gradient, or the same error.
\<close>

theorem val_bw_rowptr_irrelevant:
  assumes "reduce \<noteq> ''mean''" and "is_cuda rowptr' = is_cuda rowptr"
  shows "spmm_val_bw sg row rowptr' col mat grad reduce = spmm_val_bw sg row rowptr col mat grad reduce"
proof (cases "reduce_at reduce")
  case (Inl e)
  with assms(2) show ?thesis by (simp add: spmm_val_bw_def Let_def cong: if_cong)
next
  case (Inr R)
  from reduce_at_not_mean [OF assms(1) Inr]
  have "\<And>M N K b. val_bw_entry sg R (data row) (data rowptr') (data col) (data mat) (data grad) M N K b
      = val_bw_entry sg R (data row) (data rowptr) (data col) (data mat) (data grad) M N K b"
    by (rule val_bw_entry_no_rowptr)
  with Inr assms(2) show ?thesis by (simp add: spmm_val_bw_def Let_def cong: if_cong)
qed

theorem val_bw_rowptr_irrelevant_witness:
  "''sum'' \<noteq> ''mean'' \<and> is_cuda bad_rowptr = is_cuda ex_rowptr \<and>
   spmm_val_bw Signed ex_row bad_rowptr ex_col ex_mat ex_grad ''sum'' =
   spmm_val_bw Signed ex_row ex_rowptr ex_col ex_mat ex_grad ''sum''"
proof -
  have h: "''sum'' \<noteq> ''mean''" "is_cuda bad_rowptr = is_cuda ex_rowptr"
    by (simp_all add: bad_rowptr_def ex_rowptr_def)
  from val_bw_rowptr_irrelevant [OF h] h show ?thesis by blast
qed

subsection \<open>Mean\<close>

lemma sval_word_of_int_signed:
  "- (2 ^ (LENGTH('w) - 1)) \<le> x \<Longrightarrow> x < 2 ^ (LENGTH('w) - 1) \<Longrightarrow>
     sval Signed (word_of_int x :: 'w::len word) = x"
  by (simp add: sval_def signed_of_int signed_take_bit_int_eq_self)

lemma sval_word_of_int_unsigned:
  "0 \<le> x \<Longrightarrow> x < 2 ^ LENGTH('w) \<Longrightarrow> sval Unsigned (word_of_int x :: 'w::len word) = x"
  by (simp add: sval_def uint_word_of_int_eq take_bit_int_eq_self)

lemma sval_word_of_int_between:
  fixes v :: "'w::len word"
  assumes "(0 \<le> q \<and> q \<le> sval sg v) \<or> (sval sg v \<le> q \<and> q \<le> 0)"
  shows "sval sg (word_of_int q :: 'w word) = q"
proof (cases sg)
  case Signed
  from sint_ge [of v] sint_lt [of v] assms Signed
  have "- (2 ^ (LENGTH('w) - 1)) \<le> q" "q < 2 ^ (LENGTH('w) - 1)"
    by (auto simp: sval_def)
  then show ?thesis unfolding Signed by (rule sval_word_of_int_signed)
next
  case Unsigned
  have "0 \<le> uint v" "uint v < 2 ^ LENGTH('w)" by simp_all
  moreover from assms Unsigned
  have "(0 \<le> q \<and> q \<le> uint v) \<or> (uint v \<le> q \<and> q \<le> 0)" by (simp add: sval_def)
  ultimately have "0 \<le> q" "q < 2 ^ LENGTH('w)"
    by linarith+
  then show ?thesis unfolding Unsigned by (rule sval_word_of_int_unsigned)
qed

lemma sdiv_between:
  fixes a d :: int
  assumes "1 \<le> d"
  shows "(0 \<le> a sdiv d \<and> a sdiv d \<le> a) \<or> (a \<le> a sdiv d \<and> a sdiv d \<le> 0)"
proof (cases "0 \<le> a")
  case True
  with assms have "a sdiv d = a div d" by (simp add: signed_divide_int_def sgn_if)
  moreover have "0 \<le> a div d" using True assms by (simp add: pos_imp_zdiv_nonneg_iff)
  moreover have "a div d \<le> a" using zdiv_mono2 [of a 1 d] True assms by simp
  ultimately show ?thesis by simp
next
  case False
  with assms have e: "a sdiv d = - ((- a) div d)" by (simp add: signed_divide_int_def sgn_if)
  have "0 \<le> (- a) div d" using False assms by (simp add: pos_imp_zdiv_nonneg_iff)
  moreover have "(- a) div d \<le> - a" using zdiv_mono2 [of "- a" 1 d] False assms by simp
  ultimately show ?thesis unfolding e by simp
qed

lemma sval_scalar_div:
  "1 \<le> d \<Longrightarrow> sval sg (scalar_div sg a d) = sval sg a sdiv d"
  unfolding scalar_div_def by (rule sval_word_of_int_between) (rule sdiv_between)

lemma truncated_quotient_sdiv:
  fixes a d :: int
  assumes "d \<noteq> 0"
  shows "truncated_quotient a d (a sdiv d)"
proof -
  have r: "a - a sdiv d * d = a smod d" by (rule minus_sdiv_mult_eq_smod)
  from smod_int_range [OF assms, of a] have "\<bar>a smod d\<bar> < \<bar>d\<bar>" by auto
  moreover have "0 \<le> (a smod d) * a"
  proof -
    have "0 \<le> \<bar>a\<bar> mod \<bar>d\<bar>" using assms by simp
    moreover have "(a smod d) * a = (\<bar>a\<bar> mod \<bar>d\<bar>) * \<bar>a\<bar>"
      by (simp add: smod_int_alt_def sgn_if)
    ultimately show ?thesis by simp
  qed
  ultimately show ?thesis unfolding truncated_quotient_def r by simp
qed

lemma reduce2REDUCE_mean: "reduce2REDUCE ''mean'' = Some MEAN_R"
  by (simp add: reduce2REDUCE_def)

lemma mean_accumulates_sum:
  "fst (row_reduce sg MEAN_R rowptr col value_opt mat a b m k) =
   fst (row_reduce sg SUM_R rowptr col value_opt mat a' b m k)"
  by (simp add: row_reduce_def row_acc_sum init_def)

lemma written_value_mean:
  "written_value sg MEAN_R v count = scalar_div sg v (max count 1)"
proof -
  have "(if count > 0 then count else 1) = max count 1" by auto
  then show ?thesis by (simp add: written_value_def)
qed

lemma scalar_div_zero: "scalar_div sg 0 1 = 0"
  by (cases sg) (simp_all add: scalar_div_def sval_def)

text \<open>
  C2. With the reduction \<open>mean\<close>, on well-formed inputs, the kernel returns an output and
  no index tensor; it does not end in an error, so no division by zero occurs. For every
  batch \<open>b\<close>, row \<open>m\<close> and feature \<open>k\<close>, the value of the output element \<open>[b, m, k]\<close> is
  the value of the element that the reduction \<open>sum\<close> returns there, which is the sum of
  the weighted contributions of the row, divided by \<open>max (degree m) 1\<close>; the quotient of
  the two integers is rounded toward zero. A row without entries gives 0.
\<close>

theorem spmm_mean_rows:
  fixes mat :: "'w::len word tensor"
  assumes wf: "spmm_wf rowptr col value_opt mat"
  shows "\<exists>out_mean out_sum.
     spmm sg junk rowptr col value_opt mat ''mean'' = Inr (out_mean, None) \<and>
     spmm sg junk rowptr col value_opt mat ''sum'' = Inr (out_sum, None) \<and>
     (\<forall>b m k. 0 \<le> b \<longrightarrow> b < dim_B mat \<longrightarrow> 0 \<le> m \<longrightarrow> m < dim_M rowptr \<longrightarrow>
              0 \<le> k \<longrightarrow> k < dim_K mat \<longrightarrow>
        data out_sum ! out_index rowptr mat b m k =
          (\<Sum>e = data rowptr ! nat m ..< data rowptr ! nat (m + 1).
             weight value_opt e * dense_at mat b (data col ! nat e) k) \<and>
        sval sg (data out_mean ! out_index rowptr mat b m k) =
          sval sg (data out_sum ! out_index rowptr mat b m k) sdiv max (degree rowptr m) 1 \<and>
        (degree rowptr m = 0 \<longrightarrow> data out_mean ! out_index rowptr mat b m k = 0))"
proof -
  from spmm_result [OF wf reduce2REDUCE_mean, of sg junk]
  obtain om ao where rm: "spmm sg junk rowptr col value_opt mat ''mean'' = Inr (om, ao)"
    and vm: "\<And>b m k. 0 \<le> b \<Longrightarrow> b < dim_B mat \<Longrightarrow> 0 \<le> m \<Longrightarrow> m < dim_M rowptr \<Longrightarrow>
              0 \<le> k \<Longrightarrow> k < dim_K mat \<Longrightarrow>
        data om ! out_index rowptr mat b m k =
          written_value sg MEAN_R (fst (row_reduce sg MEAN_R rowptr col value_opt mat 0 b m k)) (degree rowptr m)"
    and nm: "ao = None"
    by auto
  from spmm_result [OF wf reduce2REDUCE_sum, of "''sum''" sg junk]
  obtain os ao' where rs: "spmm sg junk rowptr col value_opt mat ''sum'' = Inr (os, ao')"
    and vs: "\<And>b m k. 0 \<le> b \<Longrightarrow> b < dim_B mat \<Longrightarrow> 0 \<le> m \<Longrightarrow> m < dim_M rowptr \<Longrightarrow>
              0 \<le> k \<Longrightarrow> k < dim_K mat \<Longrightarrow>
        data os ! out_index rowptr mat b m k =
          written_value sg SUM_R (fst (row_reduce sg SUM_R rowptr col value_opt mat 0 b m k)) (degree rowptr m)"
    and ns: "ao' = None"
    by auto
  have "data os ! out_index rowptr mat b m k =
          (\<Sum>e = data rowptr ! nat m ..< data rowptr ! nat (m + 1).
             weight value_opt e * dense_at mat b (data col ! nat e) k) \<and>
        sval sg (data om ! out_index rowptr mat b m k) =
          sval sg (data os ! out_index rowptr mat b m k) sdiv max (degree rowptr m) 1 \<and>
        (degree rowptr m = 0 \<longrightarrow> data om ! out_index rowptr mat b m k = 0)"
    if h: "0 \<le> b" "b < dim_B mat" "0 \<le> m" "m < dim_M rowptr" "0 \<le> k" "k < dim_K mat" for b m k
  proof -
    let ?S = "\<Sum>e = data rowptr ! nat m ..< data rowptr ! nat (m + 1).
             weight value_opt e * dense_at mat b (data col ! nat e) k"
    have r: "fst (row_reduce sg SUM_R rowptr col value_opt mat 0 b m k) = ?S"
      by (simp add: row_reduce_def row_acc_sum init_def contribution_def)
    have s: "data os ! out_index rowptr mat b m k = ?S"
      using vs [OF h] r by (simp add: written_value_def)
    have m: "data om ! out_index rowptr mat b m k = scalar_div sg ?S (max (degree rowptr m) 1)"
      using vm [OF h] r
      by (simp only: written_value_mean mean_accumulates_sum [of sg _ _ _ _ 0 _ _ _ 0])
    have q: "sval sg (data om ! out_index rowptr mat b m k) = sval sg ?S sdiv max (degree rowptr m) 1"
      unfolding m by (rule sval_scalar_div) simp
    have z: "data om ! out_index rowptr mat b m k = 0" if "degree rowptr m = 0"
    proof -
      from that have "?S = 0" by (simp add: degree_def)
      with m that show ?thesis by (simp add: scalar_div_zero)
    qed
    show ?thesis
      using s q z by simp
  qed
  with rm rs nm ns show ?thesis by blast
qed

lemma gap_wf: "spmm_wf gap_rowptr ex_col (Some ex_value) ex_mat"
  by (simp add: spmm_wf_def gap_rowptr_def ex_col_def ex_value_def ex_mat_def storage_ok_def
      numel_def dim_N_def dim_K_def dim_B_def dim_M_def)

theorem spmm_mean_rows_witness:
  "spmm_wf gap_rowptr ex_col (Some ex_value) ex_mat \<and>
   (\<exists>out_mean out_sum.
      spmm Signed (\<lambda>_. 0) gap_rowptr ex_col (Some ex_value) ex_mat ''mean'' = Inr (out_mean, None) \<and>
      spmm Signed (\<lambda>_. 0) gap_rowptr ex_col (Some ex_value) ex_mat ''sum'' = Inr (out_sum, None) \<and>
      data out_sum ! 0 = 19 \<and> sval Signed (data out_mean ! 0) = 9 \<and>
      data out_sum ! 1 = 0 \<and> data out_mean ! 1 = 0 \<and>
      data out_sum ! 2 = 15 \<and> sval Signed (data out_mean ! 2) = 15)"
proof -
  have wf: "spmm_wf gap_rowptr ex_col (Some ex_value) ex_mat" by (rule gap_wf)
  from spmm_mean_rows [OF wf, of Signed "\<lambda>_. 0"]
  obtain om os where
    r: "spmm Signed (\<lambda>_. 0) gap_rowptr ex_col (Some ex_value) ex_mat ''mean'' = Inr (om, None)"
       "spmm Signed (\<lambda>_. 0) gap_rowptr ex_col (Some ex_value) ex_mat ''sum'' = Inr (os, None)"
    and v: "\<And>b m k. 0 \<le> b \<Longrightarrow> b < dim_B ex_mat \<Longrightarrow> 0 \<le> m \<Longrightarrow> m < dim_M gap_rowptr \<Longrightarrow>
              0 \<le> k \<Longrightarrow> k < dim_K ex_mat \<Longrightarrow>
        data os ! out_index gap_rowptr ex_mat b m k =
          (\<Sum>e = data gap_rowptr ! nat m ..< data gap_rowptr ! nat (m + 1).
             weight (Some ex_value) e * dense_at ex_mat b (data ex_col ! nat e) k) \<and>
        sval Signed (data om ! out_index gap_rowptr ex_mat b m k) =
          sval Signed (data os ! out_index gap_rowptr ex_mat b m k) sdiv max (degree gap_rowptr m) 1 \<and>
        (degree gap_rowptr m = 0 \<longrightarrow> data om ! out_index gap_rowptr ex_mat b m k = 0)"
    by blast
  have d: "dim_B ex_mat = 1" "dim_M gap_rowptr = 3" "dim_K ex_mat = 1" "dim_N ex_mat = 2"
    by (simp_all add: gap_rowptr_def ex_mat_def numel_def dim_N_def dim_K_def dim_B_def dim_M_def)
  have g: "degree gap_rowptr 0 = 2" "degree gap_rowptr 1 = 0" "degree gap_rowptr 2 = 1"
    by (simp_all add: degree_def gap_rowptr_def)
  have s0: "data os ! 0 = 19" and m0: "sval Signed (data om ! 0) = sval Signed (data os ! 0) sdiv 2"
    using v [of 0 0 0, unfolded d out_index_def dense_at_def weight_def sum_int_interval g]
    by (simp_all add: gap_rowptr_def ex_col_def ex_value_def ex_mat_def upto_rec1)
  have s1: "data os ! 1 = 0" and m1: "data om ! 1 = 0"
    using v [of 0 1 0, unfolded d out_index_def dense_at_def weight_def sum_int_interval g]
    by (simp_all add: gap_rowptr_def ex_col_def ex_value_def ex_mat_def upto_rec1)
  have s2: "data os ! 2 = 15" and m2: "sval Signed (data om ! 2) = sval Signed (data os ! 2) sdiv 1"
    using v [of 0 2 0, unfolded d out_index_def dense_at_def weight_def sum_int_interval g]
    by (simp_all add: gap_rowptr_def ex_col_def ex_value_def ex_mat_def upto_rec1)
  have "sval Signed (data om ! 0) = 9" "sval Signed (data om ! 2) = 15"
    using m0 m2 unfolding s0 s2 by (simp_all add: sval_def signed_divide_int_def)
  with wf r s0 s1 s2 m1 show ?thesis by blast
qed
subsection \<open>The mean in the backward kernel\<close>

lemma wide_wf: "val_bw_wf wide_row wide_rowptr wide_col wide_mat wide_grad"
  by (simp add: val_bw_wf_def wide_row_def wide_rowptr_def wide_col_def wide_mat_def wide_grad_def
      storage_ok_def numel_def dim_N_def dim_K_def dim_B_def)

lemma mean_divisor_value:
  fixes mat grad :: "'w::len word tensor"
  assumes wf: "val_bw_wf row rowptr col mat grad"
    and r: "r \<in> set (data row)"
    and fit: "max (degree rowptr r) 1 \<le> sval sg (numeric_max sg :: 'w word)"
  shows "sval sg (mean_divisor sg (data rowptr ! nat r) (data rowptr ! nat (r + 1)) :: 'w word)
           = max (degree rowptr r) 1"
proof -
  let ?rs = "data rowptr ! nat r" and ?re = "data rowptr ! nat (r + 1)"
  from wf r have rb: "0 \<le> r" "r < dim_N grad" by (auto simp: val_bw_wf_def)
  have lp: "int (length (data rowptr)) = dim_N grad + 1"
    using wf by (simp add: val_bw_wf_def storage_ok_def numel_def)
  have "?rs \<in> set (data rowptr)" "?re \<in> set (data rowptr)"
    using rb lp by simp_all
  with wf have b: "0 \<le> ?rs" "?rs \<le> numel row" "0 \<le> ?re" "?re \<le> numel row"
    by (auto simp: val_bw_wf_def)
  have E: "numel row < 2147483648" using wf by (simp add: val_bw_wf_def)
  have c: "to_int32 ?rs = ?rs" "to_int32 ?re = ?re" "to_int32 (?re - ?rs) = ?re - ?rs"
    using b E by (simp_all add: to_int32_id)
  have "sval sg (word_of_int (max (degree rowptr r) 1) :: 'w word) = max (degree rowptr r) 1"
    by (rule sval_word_of_int_between [where v = "numeric_max sg"]) (use fit in simp)
  then show ?thesis
    unfolding mean_divisor_def c degree_def .
qed

lemma bw_norm_mean_truncates:
  fixes v :: "'w::len word"
  assumes "sval sg (mean_divisor sg (rp ! nat r) (rp ! nat (r + 1)) :: 'w word) = d" and "1 \<le> d"
  shows "truncated_quotient (sval sg v) d (sval sg (bw_norm sg MEAN_R rp r v))"
proof -
  have "sval sg (bw_norm sg MEAN_R rp r v) = sval sg v sdiv d"
    unfolding bw_norm_def assms(1) using sval_scalar_div [OF assms(2), of sg v]
    by (simp add: scalar_div_def)
  moreover have "d \<noteq> 0" using assms(2) by simp
  ultimately show ?thesis by (simp add: truncated_quotient_sdiv)
qed

text \<open>
  The division of \<^verbatim>\<open>Reducer::write\<close> rounds toward zero: on well-formed inputs the
  value of the output element \<open>[b, m, k]\<close> of \<open>mean\<close> is the quotient, rounded toward
  zero, of the row sum by \<open>max (degree m) 1\<close>.
\<close>

lemma spmm_mean_truncates:
  fixes mat :: "'w::len word tensor"
  assumes wf: "spmm_wf rowptr col value_opt mat"
  shows "\<exists>out. spmm sg junk rowptr col value_opt mat ''mean'' = Inr (out, None) \<and>
     (\<forall>b m k. 0 \<le> b \<longrightarrow> b < dim_B mat \<longrightarrow> 0 \<le> m \<longrightarrow> m < dim_M rowptr \<longrightarrow>
              0 \<le> k \<longrightarrow> k < dim_K mat \<longrightarrow>
        truncated_quotient
          (sval sg (\<Sum>e = data rowptr ! nat m ..< data rowptr ! nat (m + 1).
                     weight value_opt e * dense_at mat b (data col ! nat e) k))
          (max (degree rowptr m) 1)
          (sval sg (data out ! out_index rowptr mat b m k)))"
proof -
  from spmm_result [OF wf reduce2REDUCE_mean, of sg junk]
  obtain om ao where rm: "spmm sg junk rowptr col value_opt mat ''mean'' = Inr (om, ao)"
    and vm: "\<And>b m k. 0 \<le> b \<Longrightarrow> b < dim_B mat \<Longrightarrow> 0 \<le> m \<Longrightarrow> m < dim_M rowptr \<Longrightarrow>
              0 \<le> k \<Longrightarrow> k < dim_K mat \<Longrightarrow>
        data om ! out_index rowptr mat b m k =
          written_value sg MEAN_R (fst (row_reduce sg MEAN_R rowptr col value_opt mat 0 b m k)) (degree rowptr m)"
    and nm: "ao = None"
    by auto
  have s: "fst (row_reduce sg MEAN_R rowptr col value_opt mat 0 b m k) =
      (\<Sum>e = data rowptr ! nat m ..< data rowptr ! nat (m + 1).
                     weight value_opt e * dense_at mat b (data col ! nat e) k)" for b m k
    by (simp add: row_reduce_def row_acc_sum init_def contribution_def)
  have "truncated_quotient
          (sval sg (\<Sum>e = data rowptr ! nat m ..< data rowptr ! nat (m + 1).
                     weight value_opt e * dense_at mat b (data col ! nat e) k))
          (max (degree rowptr m) 1)
          (sval sg (data om ! out_index rowptr mat b m k))"
    if h: "0 \<le> b" "b < dim_B mat" "0 \<le> m" "m < dim_M rowptr" "0 \<le> k" "k < dim_K mat" for b m k
  proof -
    have d: "1 \<le> max (degree rowptr m) 1" "max (degree rowptr m) 1 \<noteq> 0" by simp_all
    show ?thesis
      unfolding vm [OF h] written_value_mean s sval_scalar_div [OF d(1)]
      by (rule truncated_quotient_sdiv [OF d(2)])
  qed
  with rm nm show ?thesis by blast
qed

text \<open>
  The division of line 218 does the same where \<open>max (degree, 1)\<close> of every row is a value
  of the element type: the gradient of entry \<open>e\<close> is the sum over the batches of the
  quotients, rounded toward zero, of the dot products by \<open>max (degree, 1)\<close>.
\<close>

lemma val_bw_mean_truncates:
  fixes mat grad :: "'w::len word tensor"
  assumes wf: "val_bw_wf row rowptr col mat grad"
    and fit: "\<forall>r \<in> set (data row). max (degree rowptr r) 1 \<le> sval sg (numeric_max sg :: 'w word)"
  shows "\<exists>out t. spmm_val_bw sg row rowptr col mat grad ''mean'' = Inr out \<and>
     (\<forall>e. 0 \<le> e \<longrightarrow> e < numel row \<longrightarrow>
        data out ! nat e = (\<Sum>b = 0..<dim_B mat. t b e) \<and>
        (\<forall>b. 0 \<le> b \<longrightarrow> b < dim_B mat \<longrightarrow>
           truncated_quotient (sval sg (entry_dot row col mat grad b e))
             (max (degree rowptr (data row ! nat e)) 1) (sval sg (t b e))))"
proof -
  have dv: "sval sg (mean_divisor sg (data rowptr ! nat r) (data rowptr ! nat (r + 1)) :: 'w word)
              = max (degree rowptr r) 1" if "r \<in> set (data row)" for r
    using mean_divisor_value [OF wf that] fit that by blast
  have nz: "MEAN_R = MEAN_R \<Longrightarrow> \<forall>r \<in> set (data row).
               sval sg (mean_divisor sg (data rowptr ! nat r) (data rowptr ! nat (r + 1)) :: 'w word) \<noteq> 0"
  proof (intro ballI)
    fix r assume "r \<in> set (data row)"
    from dv [OF this] have "1 \<le> sval sg (mean_divisor sg (data rowptr ! nat r) (data rowptr ! nat (r + 1)) :: 'w word)"
      by simp
    then show "sval sg (mean_divisor sg (data rowptr ! nat r) (data rowptr ! nat (r + 1)) :: 'w word) \<noteq> 0"
      by linarith
  qed
  let ?t = "\<lambda>b e. bw_norm sg MEAN_R (data rowptr) (data row ! nat e) (entry_dot row col mat grad b e)"
  from val_bw_result [OF wf reduce2REDUCE_mean nz]
  obtain out where run: "spmm_val_bw sg row rowptr col mat grad ''mean'' = Inr out"
    and v: "\<And>e. 0 \<le> e \<Longrightarrow> e < numel row \<Longrightarrow> data out ! nat e = (\<Sum>b = 0..<dim_B mat. ?t b e)"
    by blast
  have lr: "int (length (data row)) = numel row"
    using wf by (simp add: val_bw_wf_def storage_ok_def numel_def)
  have tq: "truncated_quotient (sval sg (entry_dot row col mat grad b e))
             (max (degree rowptr (data row ! nat e)) 1) (sval sg (?t b e))"
    if "0 \<le> e" "e < numel row" for b e
  proof -
    have "data row ! nat e \<in> set (data row)" using that lr by simp
    from dv [OF this] show ?thesis by (rule bw_norm_mean_truncates) simp
  qed
  show ?thesis
    by (rule exI [of _ out], rule exI [of _ ?t]) (simp add: run v tq)
qed

text \<open>
  Where the gradient is the one of the specification: for \<open>sum\<close>, \<open>add\<close>, \<open>min\<close> and
  \<open>max\<close> the gradient of entry \<open>e\<close> is the sum over the batches of the dot products; for
  \<open>mean\<close>, when \<open>max (degree, 1)\<close> of every row is a value of the element type, each dot
  product is first divided by \<open>max (degree, 1)\<close>.
\<close>

lemma val_bw_gradient:
  fixes mat grad :: "'w::len word tensor"
  assumes wf: "val_bw_wf row rowptr col mat grad"
    and red: "reduce2REDUCE reduce = Some R"
    and fit: "R = MEAN_R \<Longrightarrow>
       \<forall>r \<in> set (data row). max (degree rowptr r) 1 \<le> sval sg (numeric_max sg :: 'w word)"
  shows "\<exists>out. spmm_val_bw sg row rowptr col mat grad reduce = Inr out \<and>
     sizes out = [nat (numel row)] \<and> int (length (data out)) = numel row \<and>
     (\<forall>e. 0 \<le> e \<longrightarrow> e < numel row \<longrightarrow>
        data out ! nat e =
          (\<Sum>b = 0..<dim_B mat.
             if R = MEAN_R
             then scalar_div sg (entry_dot row col mat grad b e)
                    (max (degree rowptr (data row ! nat e)) 1)
             else entry_dot row col mat grad b e))"
proof -
  have dv: "sval sg (mean_divisor sg (data rowptr ! nat r) (data rowptr ! nat (r + 1)) :: 'w word)
              = max (degree rowptr r) 1" if "R = MEAN_R" "r \<in> set (data row)" for r
    using mean_divisor_value [OF wf that(2)] fit [OF that(1)] that(2) by blast
  have nz: "R = MEAN_R \<Longrightarrow> \<forall>r \<in> set (data row).
               sval sg (mean_divisor sg (data rowptr ! nat r) (data rowptr ! nat (r + 1)) :: 'w word) \<noteq> 0"
  proof (intro ballI)
    fix r assume "R = MEAN_R" "r \<in> set (data row)"
    from dv [OF this] have "1 \<le> sval sg (mean_divisor sg (data rowptr ! nat r) (data rowptr ! nat (r + 1)) :: 'w word)"
      by simp
    then show "sval sg (mean_divisor sg (data rowptr ! nat r) (data rowptr ! nat (r + 1)) :: 'w word) \<noteq> 0"
      by linarith
  qed
  from val_bw_result [OF wf red nz]
  obtain out where run: "spmm_val_bw sg row rowptr col mat grad reduce = Inr out"
    and sz: "sizes out = [nat (numel row)]" "int (length (data out)) = numel row"
    and v: "\<And>e. 0 \<le> e \<Longrightarrow> e < numel row \<Longrightarrow> data out ! nat e =
        (\<Sum>b = 0..<dim_B mat.
           bw_norm sg R (data rowptr) (data row ! nat e) (entry_dot row col mat grad b e))"
    by blast
  have lr: "int (length (data row)) = numel row"
    using wf by (simp add: val_bw_wf_def storage_ok_def numel_def)
  have "bw_norm sg R (data rowptr) (data row ! nat e) x =
          (if R = MEAN_R then scalar_div sg x (max (degree rowptr (data row ! nat e)) 1) else x)"
    if "0 \<le> e" "e < numel row" for e and x :: "'w word"
  proof (cases "R = MEAN_R")
    case True
    have "data row ! nat e \<in> set (data row)" using that lr by simp
    from dv [OF True this] True show ?thesis by (simp add: bw_norm_def scalar_div_def)
  next
    case False
    then show ?thesis by (simp add: bw_norm_def)
  qed
  with run sz v show ?thesis by simp
qed

text \<open>
  C4 fails on the code for the element type \<^verbatim>\<open>int8_t\<close> and a row of 128 entries, an
  input that is well-formed (lemma \<open>wide_wf\<close>). The
  dot product of every entry is \<open>-128\<close> and \<open>max (degree, 1)\<close> is 128, so the claim asks
  for \<open>-128 / 128 = -1\<close>, which is also what the forward kernel's division gives. The
  backward kernel casts the divisor to the element type first, \<open>(int8_t)128 = -128\<close>,
  and returns \<open>-128 / -128 = 1\<close>.
\<close>

theorem val_bw_mean_int8_wide_row:
  "spmm_val_bw Signed wide_row wide_rowptr wide_col wide_mat wide_grad ''mean'' =
     Inr \<lparr>is_cuda = False, sizes = [128], data = replicate 128 1\<rparr> \<and>
   entry_dot wide_row wide_col wide_mat wide_grad 0 0 = - 128 \<and>
   max (degree wide_rowptr 0) 1 = 128 \<and>
   scalar_div Signed (- 128 :: 8 word) 128 = - 1 \<and>
   sval Signed (mean_divisor Signed 0 128 :: 8 word) = - 128"
proof (intro conjI)
  show "spmm_val_bw Signed wide_row wide_rowptr wide_col wide_mat wide_grad ''mean'' =
     Inr \<lparr>is_cuda = False, sizes = [128], data = replicate 128 1\<rparr>"
    unfolding wide_row_def wide_rowptr_def wide_col_def wide_mat_def wide_grad_def
    by code_simp
  show "entry_dot wide_row wide_col wide_mat wide_grad 0 0 = - 128"
    by (simp add: entry_dot_def dense_at_def sum_int_interval wide_row_def wide_col_def
        wide_mat_def wide_grad_def dim_N_def dim_K_def)
  show "max (degree wide_rowptr 0) 1 = 128"
    by (simp add: degree_def wide_rowptr_def)
  show "scalar_div Signed (- 128 :: 8 word) 128 = - 1"
    by (simp add: scalar_div_def sval_def)
  show "sval Signed (mean_divisor Signed 0 128 :: 8 word) = - 128"
    by (simp add: mean_divisor_def to_int32_def sval_def)
qed

lemma long_wf: "val_bw_wf long_row long_rowptr long_col long_mat long_grad"
  by (simp add: val_bw_wf_def long_row_def long_rowptr_def long_col_def long_mat_def long_grad_def
      storage_ok_def numel_def dim_N_def dim_K_def dim_B_def)

text \<open>
  C10 holds for the division in \<^verbatim>\<open>spmm\<close> (lemma \<open>spmm_mean_truncates\<close>) and fails on
  the code for the one in \<^verbatim>\<open>spmm_val_bw\<close>, for the element type \<^verbatim>\<open>int8_t\<close> and a
  row of 200 entries, an input that is well-formed (lemma \<open>long_wf\<close>). The dot product of
  every entry is 100 and \<open>max (degree, 1)\<close> is 200, so the quotient rounded toward zero
  is 0, which is what \<^verbatim>\<open>Reducer::write\<close> stores for these two operands. The backward
  kernel divides by \<open>(int8_t)200 = -56\<close> and emits \<open>-1\<close>, which is not the quotient of
  100 by 200 under any rounding. The defect is the cast of line 218, as for C4; where
  \<open>max (degree, 1)\<close> is a value of the element type the backward division rounds toward
  zero as well (lemma \<open>val_bw_mean_truncates\<close>).
\<close>

theorem val_bw_mean_int8_not_truncated:
  "spmm_val_bw Signed long_row long_rowptr long_col long_mat long_grad ''mean'' =
     Inr \<lparr>is_cuda = False, sizes = [200], data = replicate 200 (- 1)\<rparr> \<and>
   sval Signed (entry_dot long_row long_col long_mat long_grad 0 0) = 100 \<and>
   max (degree long_rowptr 0) 1 = 200 \<and>
   truncated_quotient 100 200 0 \<and>
   \<not> truncated_quotient 100 200 (sval Signed (- 1 :: 8 word)) \<and>
   write_at Signed MEAN_R ([5 :: 8 word], None) 0 100 0 200 = Inr ([0], None) \<and>
   sval Signed (mean_divisor Signed 0 200 :: 8 word) = - 56"
proof (intro conjI)
  show "spmm_val_bw Signed long_row long_rowptr long_col long_mat long_grad ''mean'' =
     Inr \<lparr>is_cuda = False, sizes = [200], data = replicate 200 (- 1)\<rparr>"
    unfolding long_row_def long_rowptr_def long_col_def long_mat_def long_grad_def
    by code_simp
  show "sval Signed (entry_dot long_row long_col long_mat long_grad 0 0) = 100"
    by (simp add: entry_dot_def dense_at_def sum_int_interval long_row_def long_col_def
        long_mat_def long_grad_def dim_N_def dim_K_def sval_def)
  show "max (degree long_rowptr 0) 1 = 200"
    by (simp add: degree_def long_rowptr_def)
  show "truncated_quotient 100 200 0"
    by (simp add: truncated_quotient_def)
  show "\<not> truncated_quotient 100 200 (sval Signed (- 1 :: 8 word))"
    by (simp add: truncated_quotient_def sval_def)
  show "write_at Signed MEAN_R ([5 :: 8 word], None) 0 100 0 200 = Inr ([0], None)"
    by (simp add: write_at_def store_at_def scalar_div_def sval_def signed_divide_int_def)
  show "sval Signed (mean_divisor Signed 0 200 :: 8 word) = - 56"
    by (simp add: mean_divisor_def to_int32_def sval_def)
qed
subsection \<open>Minimum and maximum\<close>

lemma better_irrefl: "\<not> better sg R x x"
  by (auto simp: better_def scalar_less_def)

lemma better_trans: "better sg R x y \<Longrightarrow> better sg R y z \<Longrightarrow> better sg R x z"
  by (auto simp: better_def scalar_less_def)

lemma better_not_trans: "better sg R x y \<Longrightarrow> \<not> better sg R z y \<Longrightarrow> better sg R x z"
  by (auto simp: better_def scalar_less_def)

lemma not_better_trans: "\<not> better sg R x y \<Longrightarrow> better sg R z y \<Longrightarrow> \<not> better sg R x z"
  by (auto simp: better_def scalar_less_def)

lemma update_minmax:
  "R = MIN_R \<or> R = MAX_R \<Longrightarrow>
     update sg R va c e = (if better sg R c (fst va) then (c, e) else va)"
  by (auto simp: update_def better_def)

lemma foldl_update_minmax:
  fixes f :: "int \<Rightarrow> 'w::len word" and v0 :: "'w word" and a0 :: int and sg :: signedness
    and R :: ReductionType
  assumes R: "R = MIN_R \<or> R = MAX_R"
  defines "F \<equiv> \<lambda>es. foldl (\<lambda>va e. update sg R va (f e) e) (v0, a0) es"
  shows "(\<forall>e \<in> set es. \<not> better sg R (f e) (fst (F es))) \<and>
         ((fst (F es) = v0 \<and> snd (F es) = a0 \<and> (\<forall>e \<in> set es. \<not> better sg R (f e) v0)) \<or>
          (\<exists>i < length es. snd (F es) = es ! i \<and> fst (F es) = f (es ! i) \<and>
             better sg R (f (es ! i)) v0 \<and>
             (\<forall>j < i. better sg R (f (es ! i)) (f (es ! j)))))"
proof (induction es rule: rev_induct)
  case Nil
  show ?case by (simp add: F_def)
next
  case (snoc x es)
  let ?v = "fst (F es)" and ?a = "snd (F es)"
  have step: "F (es @ [x]) = (if better sg R (f x) ?v then (f x, x) else F es)"
    by (simp add: F_def update_minmax [OF R])
  from snoc have low: "\<forall>e \<in> set es. \<not> better sg R (f e) ?v"
    and alt: "(?v = v0 \<and> ?a = a0 \<and> (\<forall>e \<in> set es. \<not> better sg R (f e) v0)) \<or>
          (\<exists>i < length es. ?a = es ! i \<and> ?v = f (es ! i) \<and> better sg R (f (es ! i)) v0 \<and>
             (\<forall>j < i. better sg R (f (es ! i)) (f (es ! j))))"
    by blast+
  have nb: "\<not> better sg R v0 ?v"
    using alt better_irrefl [of sg R v0] better_trans [of sg R v0 ?v v0] by auto
  show ?case
  proof (cases "better sg R (f x) ?v")
    case True
    have 1: "\<forall>e \<in> set (es @ [x]). \<not> better sg R (f e) (f x)"
      using low True not_better_trans [of sg R _ ?v "f x"] better_irrefl [of sg R "f x"] by auto
    have 2: "better sg R (f x) v0"
      using True nb by (rule better_not_trans)
    have 3: "\<forall>j < length es. better sg R (f x) (f (es ! j))"
      using low True better_not_trans [of sg R "f x" ?v] by auto
    have "\<exists>i < length (es @ [x]). x = (es @ [x]) ! i \<and> f x = f ((es @ [x]) ! i) \<and>
             better sg R (f ((es @ [x]) ! i)) v0 \<and>
             (\<forall>j < i. better sg R (f ((es @ [x]) ! i)) (f ((es @ [x]) ! j)))"
      using 2 3 by (intro exI [of _ "length es"]) (simp add: nth_append)
    with 1 True show ?thesis by (simp add: step)
  next
    case False
    have 1: "\<forall>e \<in> set (es @ [x]). \<not> better sg R (f e) ?v"
      using low False by simp
    from alt have "(?v = v0 \<and> ?a = a0 \<and> (\<forall>e \<in> set (es @ [x]). \<not> better sg R (f e) v0)) \<or>
          (\<exists>i < length (es @ [x]). ?a = (es @ [x]) ! i \<and> ?v = f ((es @ [x]) ! i) \<and>
             better sg R (f ((es @ [x]) ! i)) v0 \<and>
             (\<forall>j < i. better sg R (f ((es @ [x]) ! i)) (f ((es @ [x]) ! j))))"
    proof
      assume "?v = v0 \<and> ?a = a0 \<and> (\<forall>e \<in> set es. \<not> better sg R (f e) v0)"
      with False show ?thesis by auto
    next
      assume "\<exists>i < length es. ?a = es ! i \<and> ?v = f (es ! i) \<and> better sg R (f (es ! i)) v0 \<and>
             (\<forall>j < i. better sg R (f (es ! i)) (f (es ! j)))"
      then obtain i where i: "i < length es" "?a = es ! i" "?v = f (es ! i)"
        "better sg R (f (es ! i)) v0" "\<forall>j < i. better sg R (f (es ! i)) (f (es ! j))" by blast
      have "i < length (es @ [x]) \<and> ?a = (es @ [x]) ! i \<and> ?v = f ((es @ [x]) ! i) \<and>
             better sg R (f ((es @ [x]) ! i)) v0 \<and>
             (\<forall>j < i. better sg R (f ((es @ [x]) ! i)) (f ((es @ [x]) ! j)))"
        using i by (simp add: nth_append)
      then show ?thesis by blast
    qed
    with 1 False show ?thesis by (simp add: step)
  qed
qed

lemma row_acc_minmax:
  fixes f :: "int \<Rightarrow> 'w::len word" and v0 :: "'w word" and a0 rs re :: int
    and sg :: signedness and R :: ReductionType
  assumes R: "R = MIN_R \<or> R = MAX_R"
  defines "F \<equiv> row_acc sg R f (v0, a0) rs re"
  shows "\<forall>e. rs \<le> e \<longrightarrow> e < re \<longrightarrow> \<not> better sg R (f e) (fst F)"
    and "(fst F = v0 \<and> snd F = a0 \<and> (\<forall>e. rs \<le> e \<longrightarrow> e < re \<longrightarrow> \<not> better sg R (f e) v0)) \<or>
         (\<exists>i. rs \<le> i \<and> i < re \<and> snd F = i \<and> fst F = f i \<and> better sg R (f i) v0 \<and>
            (\<forall>e. rs \<le> e \<longrightarrow> e < i \<longrightarrow> better sg R (f i) (f e)))"
proof -
  let ?es = "[rs..re - 1]"
  have F: "F = foldl (\<lambda>va e. update sg R va (f e) e) (v0, a0) ?es"
    by (simp add: F_def row_acc_def)
  note L = foldl_update_minmax [OF R, where sg = sg and f = f and ?v0.0 = v0 and ?a0.0 = a0
      and es = ?es, folded F]
  have mem: "e \<in> set ?es \<longleftrightarrow> rs \<le> e \<and> e < re" for e by auto
  from L show "\<forall>e. rs \<le> e \<longrightarrow> e < re \<longrightarrow> \<not> better sg R (f e) (fst F)"
    by (simp add: mem)
  from L have "(fst F = v0 \<and> snd F = a0 \<and> (\<forall>e \<in> set ?es. \<not> better sg R (f e) v0)) \<or>
          (\<exists>i < length ?es. snd F = ?es ! i \<and> fst F = f (?es ! i) \<and>
             better sg R (f (?es ! i)) v0 \<and>
             (\<forall>j < i. better sg R (f (?es ! i)) (f (?es ! j))))"
    by blast
  then show "(fst F = v0 \<and> snd F = a0 \<and> (\<forall>e. rs \<le> e \<longrightarrow> e < re \<longrightarrow> \<not> better sg R (f e) v0)) \<or>
         (\<exists>i. rs \<le> i \<and> i < re \<and> snd F = i \<and> fst F = f i \<and> better sg R (f i) v0 \<and>
            (\<forall>e. rs \<le> e \<longrightarrow> e < i \<longrightarrow> better sg R (f i) (f e)))"
  proof
    assume "fst F = v0 \<and> snd F = a0 \<and> (\<forall>e \<in> set ?es. \<not> better sg R (f e) v0)"
    then show ?thesis by (simp add: mem)
  next
    assume "\<exists>i < length ?es. snd F = ?es ! i \<and> fst F = f (?es ! i) \<and>
             better sg R (f (?es ! i)) v0 \<and>
             (\<forall>j < i. better sg R (f (?es ! i)) (f (?es ! j)))"
    then obtain i where i: "i < length ?es" "snd F = ?es ! i" "fst F = f (?es ! i)"
      "better sg R (f (?es ! i)) v0" "\<And>j. j < i \<Longrightarrow> better sg R (f (?es ! i)) (f (?es ! j))"
      by blast
    from i(1) have ir: "rs + int i \<le> re - 1" by simp
    then have n: "?es ! i = rs + int i" by simp
    have "better sg R (f (rs + int i)) (f e)" if "rs \<le> e" "e < rs + int i" for e
    proof -
      have j: "nat (e - rs) < i" using that by linarith
      have "rs + int (nat (e - rs)) \<le> re - 1" using that ir by linarith
      then have "?es ! nat (e - rs) = e" using that by simp
      with i(5) [OF j] n show ?thesis by simp
    qed
    with i n ir show ?thesis
      by (intro disjI2 exI [of _ "rs + int i"]) simp
  qed
qed

lemma sval_inject: "sval sg x = sval sg y \<Longrightarrow> x = y"
  by (cases sg) (auto simp: sval_def intro: signed_word_eqI word_uint_eqI)

lemma sval_numeric_max: "sval sg (x :: 'w::len word) \<le> sval sg (numeric_max sg :: 'w word)"
proof (cases sg)
  case Signed
  have "sval Signed (word_of_int (2 ^ (LENGTH('w) - 1) - 1) :: 'w word) = 2 ^ (LENGTH('w) - 1) - 1"
    by (rule sval_word_of_int_signed) simp_all
  moreover have "sint x < 2 ^ (LENGTH('w) - 1)" by (rule sint_lt)
  ultimately show ?thesis using Signed by (simp add: numeric_max_def sval_def)
next
  case Unsigned
  have "uint (- 1 :: 'w word) = 2 ^ LENGTH('w) - 1"
    by (simp add: unsigned_minus_1_eq_mask mask_eq_exp_minus_1)
  moreover have "uint x < 2 ^ LENGTH('w)" by simp
  ultimately show ?thesis using Unsigned by (simp add: numeric_max_def sval_def)
qed

lemma sval_numeric_lowest: "sval sg (numeric_lowest sg :: 'w word) \<le> sval sg (x :: 'w::len word)"
proof (cases sg)
  case Signed
  have "sval Signed (word_of_int (- (2 ^ (LENGTH('w) - 1))) :: 'w word) = - (2 ^ (LENGTH('w) - 1))"
    by (rule sval_word_of_int_signed) simp_all
  moreover have "- (2 ^ (LENGTH('w) - 1)) \<le> sint x" by (rule sint_ge)
  ultimately show ?thesis using Signed by (simp add: numeric_lowest_def sval_def)
next
  case Unsigned
  then show ?thesis by (simp add: numeric_lowest_def sval_def)
qed

lemma init_not_better: "R = MIN_R \<or> R = MAX_R \<Longrightarrow> \<not> better sg R (init sg R) x"
  using sval_numeric_max [of sg x] sval_numeric_lowest [of sg x]
  by (auto simp: better_def init_def scalar_less_def)

lemma not_better_init_eq:
  fixes x :: "'w::len word"
  assumes "R = MIN_R \<or> R = MAX_R" and "\<not> better sg R x (init sg R)"
  shows "x = init sg R"
proof (rule sval_inject [of sg])
  from assms sval_numeric_max [of sg x] sval_numeric_lowest [of sg x]
  show "sval sg x = sval sg (init sg R :: 'w word)"
    by (auto simp: better_def init_def scalar_less_def)
qed

lemma row_reduce_fst_indep:
  "fst (row_reduce sg R rowptr col value_opt mat arg0 b m k) =
   fst (row_reduce sg R rowptr col value_opt mat 0 b m k)"
  unfolding row_reduce_def row_acc_def by (rule foldl_update_fst_indep)

lemma written_value_minmax:
  "R = MIN_R \<or> R = MAX_R \<Longrightarrow> written_value sg R v count = (if count > 0 then v else 0)"
  by (auto simp: written_value_def)

text \<open>
  For \<open>min\<close> and \<open>max\<close> on well-formed inputs: a row without entries gives the value 0
  and the index \<open>E\<close>; a row with entries gives a value that some entry of the row
  contributes and that no entry of the row is strictly better than; and when some entry
  of the row is strictly better than \<^verbatim>\<open>Reducer::init\<close>, the index is the first entry
  of the row that contributes this value.
\<close>

lemma spmm_minmax_rows:
  fixes mat :: "'w::len word tensor"
  assumes wf: "spmm_wf rowptr col value_opt mat"
    and red: "reduce2REDUCE reduce = Some R" and R: "R = MIN_R \<or> R = MAX_R"
  shows "\<exists>out arg_out. spmm sg junk rowptr col value_opt mat reduce = Inr (out, Some arg_out) \<and>
     (\<forall>b m k. 0 \<le> b \<longrightarrow> b < dim_B mat \<longrightarrow> 0 \<le> m \<longrightarrow> m < dim_M rowptr \<longrightarrow>
              0 \<le> k \<longrightarrow> k < dim_K mat \<longrightarrow>
        (degree rowptr m = 0 \<longrightarrow>
           data out ! out_index rowptr mat b m k = 0 \<and>
           data arg_out ! out_index rowptr mat b m k = numel col) \<and>
        (0 < degree rowptr m \<longrightarrow>
           (\<forall>e. data rowptr ! nat m \<le> e \<longrightarrow> e < data rowptr ! nat (m + 1) \<longrightarrow>
              \<not> better sg R (contribution col value_opt mat b k e)
                    (data out ! out_index rowptr mat b m k)) \<and>
           (\<exists>e. data rowptr ! nat m \<le> e \<and> e < data rowptr ! nat (m + 1) \<and>
              contribution col value_opt mat b k e = data out ! out_index rowptr mat b m k)) \<and>
        (0 < degree rowptr m \<longrightarrow>
           (\<exists>e. data rowptr ! nat m \<le> e \<and> e < data rowptr ! nat (m + 1) \<and>
              better sg R (contribution col value_opt mat b k e) (init sg R)) \<longrightarrow>
           data rowptr ! nat m \<le> data arg_out ! out_index rowptr mat b m k \<and>
           data arg_out ! out_index rowptr mat b m k < data rowptr ! nat (m + 1) \<and>
           contribution col value_opt mat b k (data arg_out ! out_index rowptr mat b m k) =
             data out ! out_index rowptr mat b m k \<and>
           (\<forall>e. data rowptr ! nat m \<le> e \<longrightarrow> e < data arg_out ! out_index rowptr mat b m k \<longrightarrow>
              better sg R (data out ! out_index rowptr mat b m k)
                (contribution col value_opt mat b k e))))"
proof -
  from spmm_result [OF wf red, of sg junk]
  obtain out ao where run: "spmm sg junk rowptr col value_opt mat reduce = Inr (out, ao)"
    and v: "\<And>b m k. 0 \<le> b \<Longrightarrow> b < dim_B mat \<Longrightarrow> 0 \<le> m \<Longrightarrow> m < dim_M rowptr \<Longrightarrow>
              0 \<le> k \<Longrightarrow> k < dim_K mat \<Longrightarrow>
        data out ! out_index rowptr mat b m k =
          written_value sg R (fst (row_reduce sg R rowptr col value_opt mat 0 b m k)) (degree rowptr m)"
    and none: "ao = None \<longleftrightarrow> \<not> (R = MIN_R \<or> R = MAX_R)"
    and a: "\<And>a b m k. ao = Some a \<Longrightarrow> 0 \<le> b \<Longrightarrow> b < dim_B mat \<Longrightarrow> 0 \<le> m \<Longrightarrow>
              m < dim_M rowptr \<Longrightarrow> 0 \<le> k \<Longrightarrow> k < dim_K mat \<Longrightarrow>
           (if degree rowptr m > 0
            then \<exists>arg0. data a ! out_index rowptr mat b m k =
                          snd (row_reduce sg R rowptr col value_opt mat arg0 b m k)
            else data a ! out_index rowptr mat b m k = numel col)"
    by blast
  from none R obtain arg where ao: "ao = Some arg" by auto
  have ok: "kernel_ok (data rowptr) (data col) (map_option data value_opt) (data mat)
           (dim_B mat) (dim_M rowptr) (dim_N mat) (dim_K mat)"
    by (rule spmm_wf_kernel_ok [OF wf])
  have main: "(degree rowptr m = 0 \<longrightarrow>
           data out ! out_index rowptr mat b m k = 0 \<and>
           data arg ! out_index rowptr mat b m k = numel col) \<and>
        (0 < degree rowptr m \<longrightarrow>
           (\<forall>e. data rowptr ! nat m \<le> e \<longrightarrow> e < data rowptr ! nat (m + 1) \<longrightarrow>
              \<not> better sg R (contribution col value_opt mat b k e)
                    (data out ! out_index rowptr mat b m k)) \<and>
           (\<exists>e. data rowptr ! nat m \<le> e \<and> e < data rowptr ! nat (m + 1) \<and>
              contribution col value_opt mat b k e = data out ! out_index rowptr mat b m k)) \<and>
        (0 < degree rowptr m \<longrightarrow>
           (\<exists>e. data rowptr ! nat m \<le> e \<and> e < data rowptr ! nat (m + 1) \<and>
              better sg R (contribution col value_opt mat b k e) (init sg R)) \<longrightarrow>
           data rowptr ! nat m \<le> data arg ! out_index rowptr mat b m k \<and>
           data arg ! out_index rowptr mat b m k < data rowptr ! nat (m + 1) \<and>
           contribution col value_opt mat b k (data arg ! out_index rowptr mat b m k) =
             data out ! out_index rowptr mat b m k \<and>
           (\<forall>e. data rowptr ! nat m \<le> e \<longrightarrow> e < data arg ! out_index rowptr mat b m k \<longrightarrow>
              better sg R (data out ! out_index rowptr mat b m k)
                (contribution col value_opt mat b k e)))"
    if h: "0 \<le> b" "b < dim_B mat" "0 \<le> m" "m < dim_M rowptr" "0 \<le> k" "k < dim_K mat" for b m k
  proof -
    let ?rs = "data rowptr ! nat m" and ?re = "data rowptr ! nat (m + 1)"
    let ?c = "contribution col value_opt mat b k"
    let ?v = "data out ! out_index rowptr mat b m k"
    let ?i = "data arg ! out_index rowptr mat b m k"
    let ?F = "\<lambda>arg0. row_acc sg R ?c (init sg R, arg0) ?rs ?re"
    have F: "row_reduce sg R rowptr col value_opt mat arg0 b m k = ?F arg0" for arg0
      by (simp add: row_reduce_def)
    note vv = v [OF h, unfolded written_value_minmax [OF R] F]
    note aa = a [OF ao h, unfolded F]
    have deg: "degree rowptr m = ?re - ?rs" by (simp add: degree_def)
    have z: "?v = 0 \<and> ?i = numel col" if "degree rowptr m = 0"
      using vv aa that by simp
    have p: "(\<forall>e. ?rs \<le> e \<longrightarrow> e < ?re \<longrightarrow> \<not> better sg R (?c e) ?v) \<and>
             (\<exists>e. ?rs \<le> e \<and> e < ?re \<and> ?c e = ?v)" if d: "0 < degree rowptr m"
    proof -
      from d vv have e: "?v = fst (?F 0)" by simp
      from d deg have lt: "?rs < ?re" by simp
      note m1 = row_acc_minmax(1) [OF R, where sg = sg and f = ?c and ?v0.0 = "init sg R"
          and ?a0.0 = 0 and rs = ?rs and re = ?re]
      note m2 = row_acc_minmax(2) [OF R, where sg = sg and f = ?c and ?v0.0 = "init sg R"
          and ?a0.0 = 0 and rs = ?rs and re = ?re]
      from m2 have "\<exists>e. ?rs \<le> e \<and> e < ?re \<and> ?c e = fst (?F 0)"
      proof
        assume "fst (?F 0) = init sg R \<and> snd (?F 0) = 0 \<and>
            (\<forall>e. ?rs \<le> e \<longrightarrow> e < ?re \<longrightarrow> \<not> better sg R (?c e) (init sg R))"
        with lt not_better_init_eq [OF R, of sg "?c ?rs"] show ?thesis
          by (intro exI [of _ ?rs]) simp
      next
        assume "\<exists>i. ?rs \<le> i \<and> i < ?re \<and> snd (?F 0) = i \<and> fst (?F 0) = ?c i \<and>
            better sg R (?c i) (init sg R) \<and>
            (\<forall>e. ?rs \<le> e \<longrightarrow> e < i \<longrightarrow> better sg R (?c i) (?c e))"
        then show ?thesis by metis
      qed
      with m1 e show ?thesis by simp
    qed
    have q: "?rs \<le> ?i \<and> ?i < ?re \<and> ?c ?i = ?v \<and>
             (\<forall>e. ?rs \<le> e \<longrightarrow> e < ?i \<longrightarrow> better sg R ?v (?c e))"
      if d: "0 < degree rowptr m"
        and ex: "\<exists>e. ?rs \<le> e \<and> e < ?re \<and> better sg R (?c e) (init sg R)"
    proof -
      from d aa obtain arg0 where i: "?i = snd (?F arg0)" by auto
      from d vv have "?v = fst (?F 0)" by simp
      also have "\<dots> = fst (?F arg0)"
        using row_reduce_fst_indep [of sg R rowptr col value_opt mat arg0 b m k]
        by (simp add: F)
      finally have e: "?v = fst (?F arg0)" .
      from row_acc_minmax(2) [OF R, where sg = sg and f = ?c and ?v0.0 = "init sg R"
          and ?a0.0 = arg0 and rs = ?rs and re = ?re] ex
      have "\<exists>j. ?rs \<le> j \<and> j < ?re \<and> snd (?F arg0) = j \<and> fst (?F arg0) = ?c j \<and>
            better sg R (?c j) (init sg R) \<and>
            (\<forall>e. ?rs \<le> e \<longrightarrow> e < j \<longrightarrow> better sg R (?c j) (?c e))"
        by blast
      then show ?thesis unfolding i e by auto
    qed
    from z p q show ?thesis by blast
  qed
  show ?thesis
    by (rule exI [of _ out], rule exI [of _ arg]) (use run ao main in simp)
qed

lemma zero_wf: "spmm_wf zero_rowptr zero_col None zero_mat"
  by (simp add: spmm_wf_def zero_rowptr_def zero_col_def zero_mat_def storage_ok_def
      numel_def dim_N_def dim_K_def dim_B_def dim_M_def)

lemma tie_wf: "spmm_wf tie_rowptr tie_col None zero_mat"
  by (simp add: spmm_wf_def tie_rowptr_def tie_col_def zero_mat_def storage_ok_def
      numel_def dim_N_def dim_K_def dim_B_def dim_M_def)

text \<open>
  C3 fails on the code for the element type \<^verbatim>\<open>uint8_t\<close> and the reduction \<open>max\<close>, on
  a well-formed input (lemma \<open>zero_wf\<close>). Row 1 is the range \<open>[1, 2)\<close>; its only entry
  contributes 0, which is also \<^verbatim>\<open>Reducer::init\<close>, so \<^verbatim>\<open>Reducer::update\<close> never
  stores an index for this row, and \<^verbatim>\<open>Reducer::write\<close> emits what \<^verbatim>\<open>args[0]\<close> holds
  from row 0. The index reported at \<open>[0, 1, 0]\<close> is 0: not an entry of row 1, and the
  contribution of entry 0 is 5, not the output 0.
\<close>

theorem spmm_max_stale_index:
  "spmm Unsigned (\<lambda>_. 0) zero_rowptr zero_col None zero_mat ''max'' =
     Inr (\<lparr>is_cuda = False, sizes = [1, 2, 1], data = [5, 0]\<rparr>,
          Some \<lparr>is_cuda = False, sizes = [1, 2, 1], data = [0, 0]\<rparr>) \<and>
   out_index zero_rowptr zero_mat 0 1 0 = 1 \<and>
   data zero_rowptr ! 1 = 1 \<and> data zero_rowptr ! 2 = 2 \<and>
   weight None 0 * dense_at zero_mat 0 (data zero_col ! 0) 0 = 5 \<and>
   weight None 1 * dense_at zero_mat 0 (data zero_col ! 1) 0 = 0"
proof (intro conjI)
  show "spmm Unsigned (\<lambda>_. 0) zero_rowptr zero_col None zero_mat ''max'' =
     Inr (\<lparr>is_cuda = False, sizes = [1, 2, 1], data = [5, 0]\<rparr>,
          Some \<lparr>is_cuda = False, sizes = [1, 2, 1], data = [0, 0]\<rparr>)"
    unfolding zero_rowptr_def zero_col_def zero_mat_def by code_simp
qed (simp_all add: out_index_def zero_rowptr_def zero_col_def zero_mat_def weight_def dense_at_def
       dim_M_def dim_N_def dim_K_def numel_def)

text \<open>
  C8 fails on the code in the same way. Row 1 is the range \<open>[1, 3)\<close>; its entries 1 and
  2 both contribute 0 and tie for the maximum, so the claim asks for the index 1. The
  kernel reports 0, the index left in \<^verbatim>\<open>args[0]\<close> by row 0.
\<close>

theorem spmm_max_tie_index:
  "spmm Unsigned (\<lambda>_. 0) tie_rowptr tie_col None zero_mat ''max'' =
     Inr (\<lparr>is_cuda = False, sizes = [1, 2, 1], data = [5, 0]\<rparr>,
          Some \<lparr>is_cuda = False, sizes = [1, 2, 1], data = [0, 0]\<rparr>) \<and>
   out_index tie_rowptr zero_mat 0 1 0 = 1 \<and>
   data tie_rowptr ! 1 = 1 \<and> data tie_rowptr ! 2 = 3 \<and>
   weight None 1 * dense_at zero_mat 0 (data tie_col ! 1) 0 = 0 \<and>
   weight None 2 * dense_at zero_mat 0 (data tie_col ! 2) 0 = 0"
proof (intro conjI)
  show "spmm Unsigned (\<lambda>_. 0) tie_rowptr tie_col None zero_mat ''max'' =
     Inr (\<lparr>is_cuda = False, sizes = [1, 2, 1], data = [5, 0]\<rparr>,
          Some \<lparr>is_cuda = False, sizes = [1, 2, 1], data = [0, 0]\<rparr>)"
    unfolding tie_rowptr_def tie_col_def zero_mat_def by code_simp
qed (simp_all add: out_index_def tie_rowptr_def tie_col_def zero_mat_def weight_def dense_at_def
       dim_M_def dim_N_def dim_K_def numel_def)

end
